(* ===== verification/Prelude.thy ===== *)
theory Prelude
  imports Complex_Main "HOL-Library.AList" "HOL-Library.List_Lexorder" "HOL-Library.Char_ord"
begin

section \<open>Prelude: exceptions, Python strings, insertion-ordered dictionaries\<close>

text \<open>
  Shared vocabulary of the development.
  \<^item> \<open>py_exc\<close> is a raised Python exception: its class, an ASCII rendering of the fixed part of
    the message and the values the message interpolates. A fallible function returns
    \<open>'a result = py_exc + 'a\<close>; \<open>bindr\<close> stops at the first exception, as the code does.
  \<^item> \<open>('s, 'a) prog\<close> is code that also changes a state: the state it returns with an
    exception is the one the code leaves behind when it raises.
  \<^item> A \<open>dict\<close> is an association list with distinct keys in insertion order.
    \<open>AList.update\<close> overwrites in place and appends a new key at the end, as \<open>d[k] = v\<close> does.
  \<^item> A \<open>str\<close> is a \<open>string\<close> whose characters are read in code page 1251: codes below 128 are ASCII,
    192 to 255 the Russian letters, 168 and 184 the letter io. Unicode characters outside that page
    are not represented. Equality, concatenation, length, prefixes and substrings are those of the
    source; \<open>strip\<close> and \<open>blank\<close> model \<open>str.strip()\<close> and the test \<open>not s.strip()\<close> with Python's
    whitespace on that page (the controls, the blank and the no-break space).
\<close>

named_theorems exc_simps "unfolding of the exception plumbing"
named_theorems dict_simps "lookups in updated dictionaries"
named_theorems enum_simps "tables over the enumerations"

subsection \<open>Exceptions\<close>

datatype exc_class =
    TransitionError | ValueError | KeyError | LookupError | RuntimeError | TypeError
  | IndexError | StageHaltError | RevisionConflict | EmptyPackageError
  | ProtocolMaterializationRequiredError | ProtocolConflictError
  | SyncLifecycleError | PublishError | PdfParseTimeoutError | TransactionUnavailableError
  | RevisionChainError | UniqueViolation | CheckViolation | ForeignKeyViolation
  | AuthenticationRequiredError | PermissionDeniedError | AccessDeniedError

datatype py_exc = Exc (exc_cls: exc_class) (exc_text: string) (exc_args: "string list")

type_synonym 'a result = "py_exc + 'a"

abbreviation raise :: "exc_class \<Rightarrow> string \<Rightarrow> string list \<Rightarrow> 'a result" where
  "raise c t vs \<equiv> Inl (Exc c t vs)"

definition bindr :: "'a result \<Rightarrow> ('a \<Rightarrow> 'b result) \<Rightarrow> 'b result" where
  "bindr r f = (case r of Inl e \<Rightarrow> Inl e | Inr x \<Rightarrow> f x)"

lemma bindr_simps [simp]:
  "bindr (Inl e) f = Inl e"
  "bindr (Inr x) f = f x"
  by (simp_all add: bindr_def)

lemma bindr_eq_Inr: "bindr r f = Inr y \<longleftrightarrow> (\<exists>x. r = Inr x \<and> f x = Inr y)"
  by (cases r) auto

lemma bindr_eq_Inl: "bindr r f = Inl e \<longleftrightarrow> r = Inl e \<or> (\<exists>x. r = Inr x \<and> f x = Inl e)"
  by (cases r) auto

lemma bindr_assoc: "bindr (bindr r f) g = bindr r (\<lambda>x. bindr (f x) g)"
  by (cases r) auto

text \<open>A list comprehension or a loop whose body may raise: left to right, first exception wins.\<close>

fun traverse :: "('a \<Rightarrow> 'b result) \<Rightarrow> 'a list \<Rightarrow> 'b list result" where
  "traverse f [] = Inr []"
| "traverse f (x # xs) = bindr (f x) (\<lambda>y. bindr (traverse f xs) (\<lambda>ys. Inr (y # ys)))"

lemma traverse_Inr_iff:
  "traverse f xs = Inr ys \<longleftrightarrow> list_all2 (\<lambda>x y. f x = Inr y) xs ys"
proof (induction xs arbitrary: ys)
  case Nil
  then show ?case by auto
next
  case (Cons x xs)
  then show ?case by (cases ys) (auto simp: bindr_eq_Inr)
qed

lemma traverse_length: "traverse f xs = Inr ys \<Longrightarrow> length ys = length xs"
  by (auto simp: traverse_Inr_iff dest: list_all2_lengthD)

lemma traverse_map: "(\<And>x. x \<in> set xs \<Longrightarrow> f x = Inr (g x)) \<Longrightarrow> traverse f xs = Inr (map g xs)"
  by (induction xs) auto

lemma traverse_total:
  "(\<And>x. x \<in> set xs \<Longrightarrow> \<exists>y. f x = Inr y) \<Longrightarrow> \<exists>ys. traverse f xs = Inr ys"
  by (induction xs) (fastforce simp: bindr_def)+

lemma traverse_fwd: "traverse f xs = Inr ys \<Longrightarrow> x \<in> set xs \<Longrightarrow> \<exists>y \<in> set ys. f x = Inr y"
  by (induction xs arbitrary: ys) (fastforce simp: bindr_eq_Inr)+

lemma traverse_bwd: "traverse f xs = Inr ys \<Longrightarrow> y \<in> set ys \<Longrightarrow> \<exists>x \<in> set xs. f x = Inr y"
  by (induction xs arbitrary: ys) (fastforce simp: bindr_eq_Inr)+

lemma traverse_ok_iff: "(\<exists>ys. traverse f xs = Inr ys) \<longleftrightarrow> (\<forall>x \<in> set xs. \<exists>y. f x = Inr y)"
proof
  assume "\<exists>ys. traverse f xs = Inr ys"
  then obtain ys where "traverse f xs = Inr ys" by blast
  from traverse_fwd [OF this] show "\<forall>x \<in> set xs. \<exists>y. f x = Inr y" by blast
next
  assume "\<forall>x \<in> set xs. \<exists>y. f x = Inr y"
  then show "\<exists>ys. traverse f xs = Inr ys" using traverse_total [of xs f] by blast
qed

text \<open>A guard clause: \<open>if cond: raise ...\<close>.\<close>

definition guard :: "bool \<Rightarrow> py_exc \<Rightarrow> unit result" where
  "guard bad e = (if bad then Inl e else Inr ())"

lemma guard_simps [simp]: "guard True e = Inl e" "guard False e = Inr ()"
  by (simp_all add: guard_def)

lemma guard_Inr_iff [simp]: "guard b e = Inr u \<longleftrightarrow> \<not> b"
  by (simp add: guard_def)

lemma guard_Inl_iff [simp]: "guard b e = Inl e' \<longleftrightarrow> b \<and> e' = e"
  by (auto simp: guard_def)

lemma bindr_guard: "bindr (guard b e) f = (if b then Inl e else f ())"
  by (simp add: guard_def)

subsection \<open>Code that changes a state and may raise\<close>

type_synonym ('s, 'a) prog = "'s \<Rightarrow> 'a result \<times> 's"

definition bindp :: "('s, 'a) prog \<Rightarrow> ('a \<Rightarrow> ('s, 'b) prog) \<Rightarrow> ('s, 'b) prog" where
  "bindp m k s = (case m s of (Inl e, s') \<Rightarrow> (Inl e, s') | (Inr x, s') \<Rightarrow> k x s')"

definition liftp :: "'a result \<Rightarrow> ('s, 'a) prog" where
  "liftp r s = (r, s)"

definition modp :: "('s \<Rightarrow> 's) \<Rightarrow> ('s, unit) prog" where
  "modp f s = (Inr (), f s)"

lemma liftp_apply [simp]: "liftp r s = (r, s)"
  by (simp add: liftp_def)

lemma modp_apply [simp]: "modp f s = (Inr (), f s)"
  by (simp add: modp_def)

lemma bindp_apply:
  "bindp m k s = (case m s of (Inl e, s') \<Rightarrow> (Inl e, s') | (Inr x, s') \<Rightarrow> k x s')"
  by (simp add: bindp_def)

lemma bindp_liftp [simp]:
  "bindp (liftp r) k s = (case r of Inl e \<Rightarrow> (Inl e, s) | Inr x \<Rightarrow> k x s)"
  by (cases r) (simp_all add: bindp_apply)

lemma bindp_modp [simp]: "bindp (modp f) k s = k () (f s)"
  by (simp add: bindp_apply)

text \<open>A loop over a list: each round may change the state; an exception stops it where it is.\<close>

fun forp :: "('x \<Rightarrow> ('s, unit) prog) \<Rightarrow> 'x list \<Rightarrow> ('s, unit) prog" where
  "forp f [] s = (Inr (), s)"
| "forp f (x # xs) s = bindp (f x) (\<lambda>_. forp f xs) s"

lemma forp_preserves:
  assumes step: "\<And>x s r s'. x \<in> set xs \<Longrightarrow> I s \<Longrightarrow> f x s = (r, s') \<Longrightarrow> I s'"
    and "I s" and "forp f xs s = (r, s')"
  shows "I s'"
  using assms
proof (induction xs arbitrary: s)
  case Nil
  then show ?case by simp
next
  case (Cons x xs)
  obtain r1 s1 where one: "f x s = (r1, s1)" by (cases "f x s")
  have I1: "I s1" by (rule Cons.prems(1) [OF _ Cons.prems(2) one]) simp
  show ?case
  proof (cases r1)
    case (Inl e)
    with Cons.prems(3) one I1 show ?thesis by (simp add: bindp_apply)
  next
    case (Inr u)
    with Cons.prems(3) one have "forp f xs s1 = (r, s')" by (simp add: bindp_apply)
    moreover have "\<And>y t q t'. y \<in> set xs \<Longrightarrow> I t \<Longrightarrow> f y t = (q, t') \<Longrightarrow> I t'"
      using Cons.prems(1) by (meson list.set_intros(2))
    ultimately show ?thesis using Cons.IH I1 by blast
  qed
qed

subsection \<open>Strings\<close>

definition is_space :: "char \<Rightarrow> bool" where
  "is_space c = (let n = (of_char c :: nat)
     in (9 \<le> n \<and> n \<le> 13) \<or> (28 \<le> n \<and> n \<le> 32) \<or> n = 160)"

definition strip :: "string \<Rightarrow> string" where
  "strip s = rev (dropWhile is_space (rev (dropWhile is_space s)))"

definition blank :: "string \<Rightarrow> bool" where
  "blank s = (strip s = [])"

lemma blank_iff: "blank s \<longleftrightarrow> (\<forall>c \<in> set s. is_space c)"
proof -
  have "strip s = [] \<longleftrightarrow> (\<forall>c \<in> set (dropWhile is_space s). is_space c)"
    by (auto simp: strip_def dropWhile_eq_Nil_conv)
  also have "\<dots> \<longleftrightarrow> (\<forall>c \<in> set s. is_space c)"
    by (metis dropWhile_eq_Nil_conv hd_dropWhile list.set_sel(1) set_dropWhileD)
  finally show ?thesis by (simp add: blank_def)
qed

lemma blank_Nil [simp]: "blank []"
  by (simp add: blank_iff)

lemma strip_nonempty_if_not_blank: "\<not> blank s \<Longrightarrow> strip s \<noteq> []"
  by (simp add: blank_def)

lemma set_strip: "set (strip s) \<subseteq> set s"
  by (auto simp: strip_def dest!: set_dropWhileD)

lemma strip_fixed: "s = [] \<or> (\<not> is_space (hd s) \<and> \<not> is_space (last s)) \<Longrightarrow> strip s = s"
proof (elim disjE conjE)
  assume a: "\<not> is_space (hd s)" "\<not> is_space (last s)"
  show ?thesis
  proof (cases "s = []")
    case False
    then have "dropWhile is_space s = s" using a(1) by (cases s) auto
    moreover have "dropWhile is_space (rev s) = rev s"
      using a(2) False by (cases "rev s") (auto simp: hd_rev [symmetric])
    ultimately show ?thesis by (simp add: strip_def)
  qed (simp add: strip_def)
qed (simp add: strip_def)

lemma strip_idem [simp]: "strip (strip s) = strip s"
proof (rule strip_fixed)
  let ?d = "dropWhile is_space s"
  let ?e = "dropWhile is_space (rev ?d)"
  show "strip s = [] \<or> \<not> is_space (hd (strip s)) \<and> \<not> is_space (last (strip s))"
  proof (cases "?e = []")
    case True
    then show ?thesis by (simp add: strip_def)
  next
    case False
    have l: "last (strip s) = hd ?e"
      using False by (simp add: strip_def last_rev)
    have "\<not> is_space (hd ?e)" using False by (rule hd_dropWhile)
    moreover have "hd (strip s) = hd ?d"
    proof -
      obtain p where "rev ?d = p @ ?e"
        by (metis takeWhile_dropWhile_id)
      then have "?d = rev ?e @ rev p" by (metis rev_append rev_rev_ident)
      then show ?thesis using False
        by (metis hd_append rev_is_Nil_conv strip_def)
    qed
    moreover have "\<not> is_space (hd ?d)"
    proof (rule hd_dropWhile, rule notI)
      assume "?d = []"
      then have "?e = dropWhile is_space (rev [])" by (simp only:)
      with False show False by (simp only: rev.simps dropWhile.simps)
    qed
    ultimately show ?thesis using l by simp
  qed
qed

lemma blank_strip [simp]: "blank (strip s) = blank s"
  by (simp add: blank_def)

text \<open>An optional string is truthy when it is present and not empty.\<close>

definition truthy :: "string option \<Rightarrow> bool" where
  "truthy x = (case x of None \<Rightarrow> False | Some s \<Rightarrow> s \<noteq> [])"

definition or_str :: "string option \<Rightarrow> string \<Rightarrow> string" where
  "or_str x d = (case x of None \<Rightarrow> d | Some s \<Rightarrow> if s = [] then d else s)"

lemma truthy_simps [simp]: "truthy None = False" "truthy (Some s) = (s \<noteq> [])"
  by (simp_all add: truthy_def)

lemma or_str_simps [simp]:
  "or_str None d = d" "or_str (Some []) d = d" "s \<noteq> [] \<Longrightarrow> or_str (Some s) d = s"
  by (simp_all add: or_str_def)

subsection \<open>Dictionaries\<close>

type_synonym ('k, 'v) dict = "('k \<times> 'v) list"

abbreviation dict_get :: "('k, 'v) dict \<Rightarrow> 'k \<Rightarrow> 'v option" where
  "dict_get d k \<equiv> map_of d k"

abbreviation dict_set :: "'k \<Rightarrow> 'v \<Rightarrow> ('k, 'v) dict \<Rightarrow> ('k, 'v) dict" where
  "dict_set k v d \<equiv> AList.update k v d"

abbreviation dict_values :: "('k, 'v) dict \<Rightarrow> 'v list" where
  "dict_values d \<equiv> map snd d"

abbreviation dict_keys :: "('k, 'v) dict \<Rightarrow> 'k list" where
  "dict_keys d \<equiv> map fst d"

definition wf_dict :: "('k, 'v) dict \<Rightarrow> bool" where
  "wf_dict d = distinct (map fst d)"

lemma dict_get_set [dict_simps]: "dict_get (dict_set k v d) = (dict_get d)(k \<mapsto> v)"
  by (rule update_conv')

lemma dict_get_set_same [simp]: "dict_get (dict_set k v d) k = Some v"
  by (simp add: update_conv')

lemma dict_get_set_other [simp]: "k' \<noteq> k \<Longrightarrow> dict_get (dict_set k v d) k' = dict_get d k'"
  by (simp add: update_conv')

lemma wf_dict_set [simp]: "wf_dict d \<Longrightarrow> wf_dict (dict_set k v d)"
  by (simp add: wf_dict_def distinct_update)

lemma wf_dict_Nil [simp]: "wf_dict []"
  by (simp add: wf_dict_def)

lemma dict_keys_set:
  "dict_keys (dict_set k v d) = (if k \<in> set (dict_keys d) then dict_keys d else dict_keys d @ [k])"
  by (induction d) auto

lemma set_dict_values_set: "set (dict_values (dict_set k v d)) \<subseteq> insert v (set (dict_values d))"
  by (induction d) auto

lemma wf_dict_lookup: "wf_dict d \<Longrightarrow> (k, v) \<in> set d \<Longrightarrow> dict_get d k = Some v"
  by (simp add: wf_dict_def)

lemma dict_get_values: "dict_get d k = Some v \<Longrightarrow> v \<in> set (dict_values d)"
  by (force dest: map_of_SomeD)

text \<open>\<open>d.setdefault(k, []).append(x)\<close>: grouping that keeps the order of first appearance.\<close>

definition dict_append :: "'k \<Rightarrow> 'x \<Rightarrow> ('k, 'x list) dict \<Rightarrow> ('k, 'x list) dict" where
  "dict_append k x d = dict_set k (case dict_get d k of None \<Rightarrow> [x] | Some xs \<Rightarrow> xs @ [x]) d"

definition group_by :: "('x \<Rightarrow> 'k) \<Rightarrow> 'x list \<Rightarrow> ('k, 'x list) dict" where
  "group_by key xs = fold (\<lambda>x d. dict_append (key x) x d) xs []"

lemma dict_get_append:
  "dict_get (dict_append k x d) k' =
     (if k' = k then Some ((case dict_get d k of None \<Rightarrow> [] | Some xs \<Rightarrow> xs) @ [x])
      else dict_get d k')"
  by (auto simp: dict_append_def split: option.splits)

lemma wf_dict_append [simp]: "wf_dict d \<Longrightarrow> wf_dict (dict_append k x d)"
  by (simp add: dict_append_def)

lemma group_by_fold:
  "dict_get (fold (\<lambda>x d. dict_append (key x) x d) xs d) k =
     (let new = filter (\<lambda>x. key x = k) xs
      in case dict_get d k of
           None \<Rightarrow> if new = [] then None else Some new
         | Some old \<Rightarrow> Some (old @ new))"
  by (induction xs arbitrary: d)
     (auto simp: dict_get_append Let_def split: option.splits)

lemma group_by_get:
  "dict_get (group_by key xs) k =
     (let g = filter (\<lambda>x. key x = k) xs in if g = [] then None else Some g)"
  by (simp add: group_by_def group_by_fold Let_def)

lemma wf_group_by [simp]: "wf_dict (group_by key xs)"
proof -
  have "wf_dict d \<Longrightarrow> wf_dict (fold (\<lambda>x d. dict_append (key x) x d) xs d)" for d
    by (induction xs arbitrary: d) auto
  then show ?thesis by (simp add: group_by_def)
qed

lemma group_by_entry:
  assumes "(k, g) \<in> set (group_by key xs)"
  shows "g = filter (\<lambda>x. key x = k) xs \<and> g \<noteq> []"
proof -
  from assms have "dict_get (group_by key xs) k = Some g"
    by (intro wf_dict_lookup) auto
  then show ?thesis by (auto simp: group_by_get Let_def split: if_splits)
qed

subsection \<open>The keyed-store interface\<close>

text \<open>
  What the process store, the workspace and the evidence maps promise about a keyed write: it is
  seen by the next read of the same key and by no other read. A batch of writes leaves the last
  value written under each key.
\<close>

locale keyed_store =
  fixes put :: "'k \<Rightarrow> 'v \<Rightarrow> 'm \<Rightarrow> 'm"
    and get :: "'m \<Rightarrow> 'k \<Rightarrow> 'v option"
  assumes get_put: "get (put k v m) k' = (if k' = k then Some v else get m k')"
begin

lemma put_same: "get (put k v m) k = Some v"
  by (simp add: get_put)

lemma put_other: "k' \<noteq> k \<Longrightarrow> get (put k v m) k' = get m k'"
  by (simp add: get_put)

lemma put_twice: "get (put k v (put k w m)) = get (put k v m)"
  by (rule ext) (simp add: get_put)

lemma put_commute: "k \<noteq> k' \<Longrightarrow> get (put k v (put k' v' m)) = get (put k' v' (put k v m))"
  by (rule ext) (simp add: get_put)

lemma put_all:
  "get (fold (\<lambda>(k, v). put k v) kvs m) k =
     (case map_of (rev kvs) k of None \<Rightarrow> get m k | Some v \<Rightarrow> Some v)"
  by (induction kvs arbitrary: m) (auto simp: get_put map_add_def split: option.splits)

end

interpretation pydict: keyed_store "AList.update" "map_of"
  by unfold_locales (simp add: dict_get_set)

end
