(* ===== verification/Statuses.thy ===== *)
theory Statuses
  imports Prelude
begin

section \<open>Status domains (domain/statuses.py)\<close>

text \<open>
  The independent status domains of ADR-0005 as datatypes with the source's constructors, their
  wire values (every \<open>StrEnum\<close> value is its own name) and the named status sets. A set constant
  of the source is the list of its members; membership is \<open>x \<in> set L\<close>.
  \<open>READY\<close> and \<open>PENDING\<close> belong to \<open>process_state\<close> alone; nothing converts between domains.
\<close>

datatype completeness = UPLOADED | PARTIAL | MISSING

datatype process_state = PENDING | PARSING | READY | VERIFYING | COMPLETED | FINALIZED

datatype scenario =
    FULL | PD_RD_ONLY | PD_ID_ONLY | RD_ID_ONLY | SINGLE_ONLY | PARTIALLY_LOADED

datatype finding_status =
    CANDIDATE | CONFIRMED_VIOLATION | NEGATIVE_VERIFIED | AUTO_NO_DIFFERENCE
  | MISSING_EVIDENCE | NOT_APPLICABLE | NOT_COMPARABLE | LOW_QUALITY | ABSTAIN
  | CLARIFICATION_REQUIRED | SUSPICION

datatype reason_code =
    WRONG_REVISION_SELECTED | APPROVED_CHANGE_EXISTS | OCR_ERROR | LINKAGE_ERROR
  | PARAMETER_NOT_APPLICABLE | SOURCE_QUALITY | OTHER

datatype sync_state =
    NOT_REQUESTED | PENDING_SYNC | SYNCING | SYNCED | RETRY_WAIT | FAILED_TERMINAL

datatype review_priority = HIGH | MEDIUM | LOW

datatype disagreement_kind =
    VALUE_DELTA | MISSING_IN_STAGE | AMBIGUOUS_REFERENCE | FORMAT_MISMATCH

subsection \<open>Wire values\<close>

fun completeness_value :: "completeness \<Rightarrow> string" where
  "completeness_value UPLOADED = ''UPLOADED''"
| "completeness_value PARTIAL = ''PARTIAL''"
| "completeness_value MISSING = ''MISSING''"

fun process_state_value :: "process_state \<Rightarrow> string" where
  "process_state_value PENDING = ''PENDING''"
| "process_state_value PARSING = ''PARSING''"
| "process_state_value READY = ''READY''"
| "process_state_value VERIFYING = ''VERIFYING''"
| "process_state_value COMPLETED = ''COMPLETED''"
| "process_state_value FINALIZED = ''FINALIZED''"

fun scenario_value :: "scenario \<Rightarrow> string" where
  "scenario_value FULL = ''FULL''"
| "scenario_value PD_RD_ONLY = ''PD_RD_ONLY''"
| "scenario_value PD_ID_ONLY = ''PD_ID_ONLY''"
| "scenario_value RD_ID_ONLY = ''RD_ID_ONLY''"
| "scenario_value SINGLE_ONLY = ''SINGLE_ONLY''"
| "scenario_value PARTIALLY_LOADED = ''PARTIALLY_LOADED''"

fun finding_status_value :: "finding_status \<Rightarrow> string" where
  "finding_status_value CANDIDATE = ''CANDIDATE''"
| "finding_status_value CONFIRMED_VIOLATION = ''CONFIRMED_VIOLATION''"
| "finding_status_value NEGATIVE_VERIFIED = ''NEGATIVE_VERIFIED''"
| "finding_status_value AUTO_NO_DIFFERENCE = ''AUTO_NO_DIFFERENCE''"
| "finding_status_value MISSING_EVIDENCE = ''MISSING_EVIDENCE''"
| "finding_status_value NOT_APPLICABLE = ''NOT_APPLICABLE''"
| "finding_status_value NOT_COMPARABLE = ''NOT_COMPARABLE''"
| "finding_status_value LOW_QUALITY = ''LOW_QUALITY''"
| "finding_status_value ABSTAIN = ''ABSTAIN''"
| "finding_status_value CLARIFICATION_REQUIRED = ''CLARIFICATION_REQUIRED''"
| "finding_status_value SUSPICION = ''SUSPICION''"

fun reason_code_value :: "reason_code \<Rightarrow> string" where
  "reason_code_value WRONG_REVISION_SELECTED = ''WRONG_REVISION_SELECTED''"
| "reason_code_value APPROVED_CHANGE_EXISTS = ''APPROVED_CHANGE_EXISTS''"
| "reason_code_value OCR_ERROR = ''OCR_ERROR''"
| "reason_code_value LINKAGE_ERROR = ''LINKAGE_ERROR''"
| "reason_code_value PARAMETER_NOT_APPLICABLE = ''PARAMETER_NOT_APPLICABLE''"
| "reason_code_value SOURCE_QUALITY = ''SOURCE_QUALITY''"
| "reason_code_value OTHER = ''OTHER''"

fun sync_state_value :: "sync_state \<Rightarrow> string" where
  "sync_state_value NOT_REQUESTED = ''NOT_REQUESTED''"
| "sync_state_value PENDING_SYNC = ''PENDING_SYNC''"
| "sync_state_value SYNCING = ''SYNCING''"
| "sync_state_value SYNCED = ''SYNCED''"
| "sync_state_value RETRY_WAIT = ''RETRY_WAIT''"
| "sync_state_value FAILED_TERMINAL = ''FAILED_TERMINAL''"

fun review_priority_value :: "review_priority \<Rightarrow> string" where
  "review_priority_value HIGH = ''HIGH''"
| "review_priority_value MEDIUM = ''MEDIUM''"
| "review_priority_value LOW = ''LOW''"

fun disagreement_kind_value :: "disagreement_kind \<Rightarrow> string" where
  "disagreement_kind_value VALUE_DELTA = ''VALUE_DELTA''"
| "disagreement_kind_value MISSING_IN_STAGE = ''MISSING_IN_STAGE''"
| "disagreement_kind_value AMBIGUOUS_REFERENCE = ''AMBIGUOUS_REFERENCE''"
| "disagreement_kind_value FORMAT_MISMATCH = ''FORMAT_MISMATCH''"

subsection \<open>Named status sets\<close>

definition all_finding_statuses :: "finding_status list" where
  "all_finding_statuses =
     [CANDIDATE, CONFIRMED_VIOLATION, NEGATIVE_VERIFIED, AUTO_NO_DIFFERENCE, MISSING_EVIDENCE,
      NOT_APPLICABLE, NOT_COMPARABLE, LOW_QUALITY, ABSTAIN, CLARIFICATION_REQUIRED, SUSPICION]"

definition VIOLATION_STATUSES :: "finding_status list" where
  "VIOLATION_STATUSES = [CONFIRMED_VIOLATION]"

definition DATA_QUALITY_STATUSES :: "finding_status list" where
  "DATA_QUALITY_STATUSES =
     [MISSING_EVIDENCE, NOT_APPLICABLE, NOT_COMPARABLE, LOW_QUALITY, ABSTAIN,
      CLARIFICATION_REQUIRED]"

definition HUMAN_ONLY_STATUSES :: "finding_status list" where
  "HUMAN_ONLY_STATUSES = [CONFIRMED_VIOLATION, NEGATIVE_VERIFIED]"

definition WIRE_FINDING_STATUSES :: "finding_status list" where
  "WIRE_FINDING_STATUSES =
     [CANDIDATE, CONFIRMED_VIOLATION, NEGATIVE_VERIFIED, MISSING_EVIDENCE, NOT_APPLICABLE,
      NOT_COMPARABLE, LOW_QUALITY, ABSTAIN, CLARIFICATION_REQUIRED, SUSPICION]"

definition STATUSES_REQUIRING_EVIDENCE :: "finding_status list" where
  "STATUSES_REQUIRING_EVIDENCE =
     [CANDIDATE, CONFIRMED_VIOLATION, NEGATIVE_VERIFIED, AUTO_NO_DIFFERENCE, SUSPICION]"

lemmas status_set_defs [enum_simps] =
  VIOLATION_STATUSES_def DATA_QUALITY_STATUSES_def HUMAN_ONLY_STATUSES_def
  WIRE_FINDING_STATUSES_def STATUSES_REQUIRING_EVIDENCE_def

subsection \<open>Reading a wire value back\<close>

text \<open>\<open>FindingStatus(text)\<close> and \<open>ReasonCode(text)\<close>: a value outside the enumeration raises.\<close>

definition parse_finding_status :: "string \<Rightarrow> finding_status result" where
  "parse_finding_status s =
     (case find (\<lambda>x. finding_status_value x = s) all_finding_statuses of
        Some x \<Rightarrow> Inr x
      | None \<Rightarrow> raise ValueError ''is not a valid FindingStatus'' [s])"

definition all_reason_codes :: "reason_code list" where
  "all_reason_codes =
     [WRONG_REVISION_SELECTED, APPROVED_CHANGE_EXISTS, OCR_ERROR, LINKAGE_ERROR,
      PARAMETER_NOT_APPLICABLE, SOURCE_QUALITY, OTHER]"

definition parse_reason_code :: "string \<Rightarrow> reason_code result" where
  "parse_reason_code s =
     (case find (\<lambda>x. reason_code_value x = s) all_reason_codes of
        Some x \<Rightarrow> Inr x
      | None \<Rightarrow> raise ValueError ''is not a valid ReasonCode'' [s])"

definition parse_review_priority :: "string \<Rightarrow> review_priority result" where
  "parse_review_priority s =
     (case find (\<lambda>x. review_priority_value x = s) [HIGH, MEDIUM, LOW] of
        Some x \<Rightarrow> Inr x
      | None \<Rightarrow> raise ValueError ''is not a valid ReviewPriority'' [s])"

definition parse_disagreement_kind :: "string \<Rightarrow> disagreement_kind result" where
  "parse_disagreement_kind s =
     (case find (\<lambda>x. disagreement_kind_value x = s)
        [VALUE_DELTA, MISSING_IN_STAGE, AMBIGUOUS_REFERENCE, FORMAT_MISMATCH] of
        Some x \<Rightarrow> Inr x
      | None \<Rightarrow> raise ValueError ''is not a valid DisagreementKind'' [s])"

lemma parse_finding_status_value [simp]: "parse_finding_status (finding_status_value x) = Inr x"
  by (cases x) (simp_all add: parse_finding_status_def all_finding_statuses_def)

lemma parse_reason_code_value [simp]: "parse_reason_code (reason_code_value x) = Inr x"
  by (cases x) (simp_all add: parse_reason_code_def all_reason_codes_def)

lemma parse_review_priority_value [simp]: "parse_review_priority (review_priority_value x) = Inr x"
  by (cases x) (simp_all add: parse_review_priority_def)

lemma parse_disagreement_kind_value [simp]:
  "parse_disagreement_kind (disagreement_kind_value x) = Inr x"
  by (cases x) (simp_all add: parse_disagreement_kind_def)

lemma finding_status_value_inject [simp]:
  "finding_status_value x = finding_status_value y \<longleftrightarrow> x = y"
  by (metis parse_finding_status_value sum.inject(2))

lemma all_finding_statuses_complete: "x \<in> set all_finding_statuses"
  by (cases x) (simp_all add: all_finding_statuses_def)

text \<open>Every status is a violation status, a data-quality status or none of the two, never both.\<close>

lemma status_domains_disjoint:
  "set VIOLATION_STATUSES \<inter> set DATA_QUALITY_STATUSES = {}"
  "set HUMAN_ONLY_STATUSES \<inter> set DATA_QUALITY_STATUSES = {}"
  "set VIOLATION_STATUSES \<subseteq> set HUMAN_ONLY_STATUSES"
  "set HUMAN_ONLY_STATUSES \<subseteq> set STATUSES_REQUIRING_EVIDENCE"
  by (auto simp: enum_simps)

lemma wire_iff_not_auto: "x \<in> set WIRE_FINDING_STATUSES \<longleftrightarrow> x \<noteq> AUTO_NO_DIFFERENCE"
  by (cases x) (simp_all add: enum_simps)

end
