(* ===== verification/State_Machines.thy ===== *)
theory State_Machines
  imports Statuses
begin

section \<open>State machines (domain/state\_machines.py)\<close>

text \<open>
  The three transition tables, the guarded transitions over them and the actor who performs them.
  A table maps a state to the list of its successors (the source's frozenset). Every function
  raises \<open>TransitionError\<close> exactly where the source does and in the same order of checks.
  The step relations collect the functions of one machine; runs of them carry the safety
  properties: which states only a human reaches, and which states nothing leaves.
\<close>

record actor =
  actor_id :: string
  is_human :: bool
  is_supervisor :: bool

subsection \<open>Transition tables\<close>

fun PROCESS_TRANSITIONS :: "process_state \<Rightarrow> process_state list" where
  "PROCESS_TRANSITIONS PENDING = [PARSING]"
| "PROCESS_TRANSITIONS PARSING = [READY, PENDING]"
| "PROCESS_TRANSITIONS READY = [VERIFYING, PARSING]"
| "PROCESS_TRANSITIONS VERIFYING = [COMPLETED, PARSING]"
| "PROCESS_TRANSITIONS COMPLETED = [PARSING]"
| "PROCESS_TRANSITIONS FINALIZED = []"

fun FINDING_TRANSITIONS :: "finding_status \<Rightarrow> finding_status list" where
  "FINDING_TRANSITIONS CANDIDATE =
     [CONFIRMED_VIOLATION, NEGATIVE_VERIFIED, CLARIFICATION_REQUIRED]"
| "FINDING_TRANSITIONS CLARIFICATION_REQUIRED = [CANDIDATE, CONFIRMED_VIOLATION, NEGATIVE_VERIFIED]"
| "FINDING_TRANSITIONS SUSPICION = [CANDIDATE, CONFIRMED_VIOLATION, NEGATIVE_VERIFIED]"
| "FINDING_TRANSITIONS AUTO_NO_DIFFERENCE = [NEGATIVE_VERIFIED]"
| "FINDING_TRANSITIONS MISSING_EVIDENCE = []"
| "FINDING_TRANSITIONS NOT_COMPARABLE = []"
| "FINDING_TRANSITIONS LOW_QUALITY = []"
| "FINDING_TRANSITIONS ABSTAIN = []"
| "FINDING_TRANSITIONS NOT_APPLICABLE = [CANDIDATE]"
| "FINDING_TRANSITIONS CONFIRMED_VIOLATION = []"
| "FINDING_TRANSITIONS NEGATIVE_VERIFIED = []"

fun SYNC_TRANSITIONS :: "sync_state \<Rightarrow> sync_state list" where
  "SYNC_TRANSITIONS NOT_REQUESTED = [PENDING_SYNC]"
| "SYNC_TRANSITIONS PENDING_SYNC = [SYNCING]"
| "SYNC_TRANSITIONS SYNCING = [SYNCED, RETRY_WAIT, FAILED_TERMINAL, PENDING_SYNC]"
| "SYNC_TRANSITIONS RETRY_WAIT = [SYNCING, FAILED_TERMINAL]"
| "SYNC_TRANSITIONS SYNCED = []"
| "SYNC_TRANSITIONS FAILED_TERMINAL = [PENDING_SYNC]"

subsection \<open>Guarded transitions\<close>

definition enter_verifying :: "process_state \<Rightarrow> actor \<Rightarrow> process_state result" where
  "enter_verifying current a =
     (if \<not> is_human a then raise TransitionError ''start verification requires a human inspector'' []
      else if current \<noteq> READY then
        raise TransitionError ''process: -> VERIFYING'' [process_state_value current]
      else Inr VERIFYING)"

definition enter_completed :: "process_state \<Rightarrow> actor \<Rightarrow> process_state result" where
  "enter_completed current a =
     (if \<not> is_human a then
        raise TransitionError ''complete verification requires a human inspector'' []
      else if current \<noteq> VERIFYING then
        raise TransitionError ''process: -> COMPLETED'' [process_state_value current]
      else Inr COMPLETED)"

definition enter_finalized :: "process_state \<Rightarrow> actor \<Rightarrow> process_state result" where
  "enter_finalized current a =
     (if \<not> is_human a then raise TransitionError ''finalize requires a human inspector'' []
      else if current \<noteq> COMPLETED then
        raise TransitionError ''process: -> FINALIZED'' [process_state_value current]
      else Inr FINALIZED)"

definition advance_process :: "process_state \<Rightarrow> process_state \<Rightarrow> process_state result" where
  "advance_process current target =
     (if target = VERIFYING then raise TransitionError ''VERIFYING only via start_verification'' []
      else if target = COMPLETED then
        raise TransitionError ''COMPLETED only via complete_verification'' []
      else if target = FINALIZED then raise TransitionError ''FINALIZED only via finalize_process'' []
      else if target \<notin> set (PROCESS_TRANSITIONS current) then
        raise TransitionError ''process: ->'' [process_state_value current, process_state_value target]
      else Inr target)"

definition advance_finding ::
    "finding_status \<Rightarrow> finding_status \<Rightarrow> actor \<Rightarrow> finding_status result" where
  "advance_finding current target a =
     (if target \<in> set HUMAN_ONLY_STATUSES \<and> \<not> is_human a then
        raise TransitionError ''finding: requires a human inspector''
          [finding_status_value target, actor_id a]
      else if current = NOT_APPLICABLE \<and> \<not> is_human a then
        raise TransitionError ''NOT_APPLICABLE override requires a human inspector'' []
      else if target \<notin> set (FINDING_TRANSITIONS current) then
        raise TransitionError ''finding: ->''
          [finding_status_value current, finding_status_value target]
      else Inr target)"

definition advance_sync :: "sync_state \<Rightarrow> sync_state \<Rightarrow> sync_state result" where
  "advance_sync current target =
     (if target \<notin> set (SYNC_TRANSITIONS current) then
        raise TransitionError ''sync: ->'' [sync_state_value current, sync_state_value target]
      else Inr target)"

definition unfinalize :: "process_state \<Rightarrow> actor \<Rightarrow> string \<Rightarrow> process_state result" where
  "unfinalize current a reason =
     (if current \<noteq> FINALIZED then raise TransitionError ''unfinalize requires FINALIZED'' []
      else if \<not> is_human a then raise TransitionError ''unfinalize requires a human'' []
      else if blank reason then raise TransitionError ''unfinalize requires reason'' []
      else Inr COMPLETED)"

lemmas transition_defs =
  enter_verifying_def enter_completed_def enter_finalized_def advance_process_def
  advance_finding_def advance_sync_def unfinalize_def

lemma enter_verifying_Inr:
  "enter_verifying s a = Inr t \<longleftrightarrow> is_human a \<and> s = READY \<and> t = VERIFYING"
  by (auto simp: enter_verifying_def)

lemma enter_completed_Inr:
  "enter_completed s a = Inr t \<longleftrightarrow> is_human a \<and> s = VERIFYING \<and> t = COMPLETED"
  by (auto simp: enter_completed_def)

lemma enter_finalized_Inr:
  "enter_finalized s a = Inr t \<longleftrightarrow> is_human a \<and> s = COMPLETED \<and> t = FINALIZED"
  by (auto simp: enter_finalized_def)

lemma unfinalize_Inr:
  "unfinalize s a r = Inr t \<longleftrightarrow> s = FINALIZED \<and> is_human a \<and> \<not> blank r \<and> t = COMPLETED"
  by (auto simp: unfinalize_def)

lemma advance_process_Inr:
  "advance_process s t = Inr u \<longleftrightarrow>
     u = t \<and> t \<in> set (PROCESS_TRANSITIONS s) \<and> t \<notin> {VERIFYING, COMPLETED, FINALIZED}"
  by (auto simp: advance_process_def)

lemma advance_finding_Inr:
  "advance_finding s t a = Inr u \<longleftrightarrow>
     u = t \<and> t \<in> set (FINDING_TRANSITIONS s) \<and>
     (is_human a \<or> (t \<notin> set HUMAN_ONLY_STATUSES \<and> s \<noteq> NOT_APPLICABLE))"
  by (auto simp: advance_finding_def)

lemma advance_sync_Inr: "advance_sync s t = Inr u \<longleftrightarrow> u = t \<and> t \<in> set (SYNC_TRANSITIONS s)"
  by (auto simp: advance_sync_def)

lemmas transition_Inr [enum_simps] =
  enter_verifying_Inr enter_completed_Inr enter_finalized_Inr unfinalize_Inr
  advance_process_Inr advance_finding_Inr advance_sync_Inr

text \<open>Whatever a transition raises is a \<open>TransitionError\<close> (HTTP 409 outside).\<close>

lemma transition_raises_TransitionError:
  "enter_verifying s a = Inl e \<Longrightarrow> exc_cls e = TransitionError"
  "enter_completed s a = Inl e \<Longrightarrow> exc_cls e = TransitionError"
  "enter_finalized s a = Inl e \<Longrightarrow> exc_cls e = TransitionError"
  "advance_process s t = Inl e \<Longrightarrow> exc_cls e = TransitionError"
  "advance_finding f g a = Inl e \<Longrightarrow> exc_cls e = TransitionError"
  "advance_sync x y = Inl e \<Longrightarrow> exc_cls e = TransitionError"
  "unfinalize s a r = Inl e \<Longrightarrow> exc_cls e = TransitionError"
  by (auto simp: transition_defs split: if_splits)

subsection \<open>The interface of a guarded table\<close>

text \<open>
  A run performs a list of moves, each by an actor towards a target, and stops at the first
  refusal. The interface says that a move succeeds exactly when the table the actor sees lists
  the target; its lemmas are about runs of any such machine.
\<close>

fun run_moves :: "('a \<Rightarrow> 's \<Rightarrow> 's \<Rightarrow> 's result) \<Rightarrow> 's \<Rightarrow> ('a \<times> 's) list \<Rightarrow> 's result" where
  "run_moves adv s [] = Inr s"
| "run_moves adv s ((a, t) # ms) = bindr (adv a s t) (\<lambda>u. run_moves adv u ms)"

lemma run_moves_append:
  "run_moves adv s (ms @ ns) = bindr (run_moves adv s ms) (\<lambda>t. run_moves adv t ns)"
  by (induction adv s ms rule: run_moves.induct) (simp_all add: bindr_assoc)

locale guarded_table =
  fixes table :: "'a \<Rightarrow> 's \<Rightarrow> 's list"
    and adv :: "'a \<Rightarrow> 's \<Rightarrow> 's \<Rightarrow> 's result"
  assumes adv_Inr: "adv a s t = Inr u \<longleftrightarrow> u = t \<and> t \<in> set (table a s)"
begin

lemma refused_outside_table: "t \<notin> set (table a s) \<Longrightarrow> \<exists>e. adv a s t = Inl e"
  using adv_Inr by (cases "adv a s t") auto

lemma terminal_stuck:
  assumes "\<And>a. table a s = []" and "run_moves adv s ms = Inr t"
  shows "ms = [] \<and> t = s"
  using assms by (cases ms) (auto simp: bindr_eq_Inr adv_Inr)

lemma run_stays:
  assumes closed: "\<And>a u v. (a, v) \<in> set ms \<Longrightarrow> u \<in> S \<Longrightarrow> v \<in> set (table a u) \<Longrightarrow> v \<in> S"
    and "s \<in> S" and "run_moves adv s ms = Inr t"
  shows "t \<in> S"
  using assms
proof (induction ms arbitrary: s)
  case Nil
  then show ?case by simp
next
  case (Cons m ms)
  obtain a u where m: "m = (a, u)" by (cases m)
  with Cons.prems(3) have step: "u \<in> set (table a s)" and rest: "run_moves adv u ms = Inr t"
    by (auto simp: bindr_eq_Inr adv_Inr)
  have "u \<in> S" using Cons.prems(1,2) m step by auto
  then show ?case using Cons.IH [OF _ _ rest] Cons.prems(1) by (meson list.set_intros(2))
qed

text \<open>A run that ends in \<open>T\<close> but started outside it made its last entry into \<open>T\<close> by a listed move.\<close>

lemma run_entry:
  assumes "run_moves adv s ms = Inr t" and "s \<notin> T" and "t \<in> T"
  shows "\<exists>a u v. (a, v) \<in> set ms \<and> u \<notin> T \<and> v \<in> T \<and> v \<in> set (table a u)"
  using assms
proof (induction ms arbitrary: s)
  case Nil
  then show ?case by simp
next
  case (Cons m ms)
  obtain a u where m: "m = (a, u)" by (cases m)
  with Cons.prems(1) have step: "u \<in> set (table a s)" and rest: "run_moves adv u ms = Inr t"
    by (auto simp: bindr_eq_Inr adv_Inr)
  show ?case
  proof (cases "u \<in> T")
    case True
    with step m Cons.prems(2) show ?thesis by auto
  next
    case False
    from Cons.IH [OF rest False Cons.prems(3)] show ?thesis
      by (meson list.set_intros(2))
  qed
qed

end

definition finding_table :: "actor \<Rightarrow> finding_status \<Rightarrow> finding_status list" where
  "finding_table a s =
     filter (\<lambda>t. is_human a \<or> (t \<notin> set HUMAN_ONLY_STATUSES \<and> s \<noteq> NOT_APPLICABLE))
       (FINDING_TRANSITIONS s)"

definition machine_table :: "unit \<Rightarrow> process_state \<Rightarrow> process_state list" where
  "machine_table _ s =
     filter (\<lambda>t. t \<notin> {VERIFYING, COMPLETED, FINALIZED}) (PROCESS_TRANSITIONS s)"

interpretation findings: guarded_table finding_table "\<lambda>a s t. advance_finding s t a"
  by unfold_locales (auto simp: advance_finding_Inr finding_table_def)

interpretation sync: guarded_table "\<lambda>(_::unit). SYNC_TRANSITIONS" "\<lambda>_. advance_sync"
  by unfold_locales (rule advance_sync_Inr)

interpretation machine: guarded_table machine_table "\<lambda>_. advance_process"
  by unfold_locales (auto simp: advance_process_Inr machine_table_def)

subsection \<open>The whole process machine\<close>

inductive process_step :: "actor \<Rightarrow> process_state \<Rightarrow> process_state \<Rightarrow> bool" where
  ordinary: "advance_process s t = Inr u \<Longrightarrow> process_step a s u"
| open_queue: "enter_verifying s a = Inr u \<Longrightarrow> process_step a s u"
| close_queue: "enter_completed s a = Inr u \<Longrightarrow> process_step a s u"
| finalize: "enter_finalized s a = Inr u \<Longrightarrow> process_step a s u"
| reopen: "unfinalize s a reason = Inr u \<Longrightarrow> process_step a s u"

inductive_simps process_step_iff: "process_step a s t"

inductive process_run :: "process_state \<Rightarrow> actor list \<Rightarrow> process_state \<Rightarrow> bool" where
  idle: "process_run s [] s"
| move: "process_run s as t \<Longrightarrow> process_step a t u \<Longrightarrow> process_run s (as @ [a]) u"

inductive_cases process_run_snoc: "process_run s (as @ [a]) u"

lemma process_step_table:
  assumes "process_step a s t" and "\<not> is_human a"
  shows "t \<in> set (machine_table () s)"
  using assms by (auto simp: process_step_iff transition_Inr machine_table_def)

lemma process_step_targets:
  "process_step a s t \<Longrightarrow> t = VERIFYING \<Longrightarrow> s = READY \<and> is_human a"
  "process_step a s t \<Longrightarrow> t = FINALIZED \<Longrightarrow> s = COMPLETED \<and> is_human a"
  "process_step a FINALIZED t \<Longrightarrow> t = COMPLETED \<and> is_human a"
  by (auto simp: process_step_iff transition_Inr)

lemma process_step_completed:
  "process_step a s COMPLETED \<Longrightarrow> (s = VERIFYING \<or> s = FINALIZED) \<and> is_human a"
  by (auto simp: process_step_iff transition_Inr)

lemma process_run_machine:
  assumes "process_run s as t" and "\<And>a. a \<in> set as \<Longrightarrow> \<not> is_human a" and "s \<in> {PENDING, PARSING, READY}"
  shows "t \<in> {PENDING, PARSING, READY}"
  using assms
proof (induction rule: process_run.induct)
  case (move s as t a u)
  then have "t \<in> {PENDING, PARSING, READY}" and "u \<in> set (machine_table () t)"
    using process_step_table by auto
  then show ?case by (auto simp: machine_table_def)
qed simp

text \<open>Whoever last entered a set of states made a step into it.\<close>

lemma process_run_last_entry:
  assumes "process_run s as t" and "s \<notin> T" and "t \<in> T"
  shows "\<exists>a u v. a \<in> set as \<and> process_step a u v \<and> u \<notin> T \<and> v \<in> T"
  using assms
proof (induction rule: process_run.induct)
  case (move s as t a u)
  then show ?case by (cases "t \<in> T") auto
qed simp

subsection \<open>Properties\<close>



text \<open>
  C7. No sequence of machine moves gives a finding a verdict: if moves over the table of findings
  lead from a status that is not human-only to \<open>CONFIRMED_VIOLATION\<close> or \<open>NEGATIVE_VERIFIED\<close>, one of
  them was made by a human and was that verdict; and a verdict, once given, is final.
\<close>

theorem verdicts_are_human_and_final:
  assumes "run_moves (\<lambda>a s t. advance_finding s t a) s ms = Inr t"
  shows "(s \<notin> set HUMAN_ONLY_STATUSES \<and> t \<in> set HUMAN_ONLY_STATUSES \<longrightarrow>
      (\<exists>a v. (a, v) \<in> set ms \<and> is_human a \<and> v \<in> set HUMAN_ONLY_STATUSES)) \<and>
    (s \<in> set HUMAN_ONLY_STATUSES \<longrightarrow> ms = [] \<and> t = s)"
proof (intro conjI impI)
  assume st: "s \<notin> set HUMAN_ONLY_STATUSES \<and> t \<in> set HUMAN_ONLY_STATUSES"
  then obtain a u v where "(a, v) \<in> set ms" "v \<in> set HUMAN_ONLY_STATUSES" "v \<in> set (finding_table a u)"
    using findings.run_entry [OF assms, of "set HUMAN_ONLY_STATUSES"] by blast
  then show "\<exists>a v. (a, v) \<in> set ms \<and> is_human a \<and> v \<in> set HUMAN_ONLY_STATUSES"
    by (auto simp: finding_table_def)
next
  assume "s \<in> set HUMAN_ONLY_STATUSES"
  then have stuck: "finding_table a s = []" for a by (auto simp: finding_table_def HUMAN_ONLY_STATUSES_def)
  from findings.terminal_stuck [OF stuck assms] show "ms = []" "t = s" by auto
qed

theorem verdicts_are_human_and_final_witness:
  "\<exists>a v. (a, v) \<in> set [(\<lparr>actor_id = ''i'', is_human = True, is_supervisor = False\<rparr>, CONFIRMED_VIOLATION)] \<and>
     is_human a \<and> v \<in> set HUMAN_ONLY_STATUSES"
proof -
  have "run_moves (\<lambda>a s t. advance_finding s t a) CANDIDATE
      [(\<lparr>actor_id = ''i'', is_human = True, is_supervisor = False\<rparr>, CONFIRMED_VIOLATION)] = Inr CONFIRMED_VIOLATION"
    by (simp add: advance_finding_def)
  from verdicts_are_human_and_final [OF this] show ?thesis by (simp add: HUMAN_ONLY_STATUSES_def)
qed

end
