(* ===== verification/Models.thy ===== *)
theory Models
  imports State_Machines
begin

section \<open>Domain entities (domain/models.py, domain/geometry.py, domain/idempotency.py)\<close>

text \<open>
  The frozen dataclasses as records and their \<open>__post_init__\<close> checks as fallible constructors
  \<open>mk_...\<close>: a constructor returns the record it is given or raises, so \<open>mk_finding (f\<lparr>...\<rparr>)\<close> is
  \<open>dataclasses.replace(f, ...)\<close>, which runs the checks again. The geometry helpers over polygons
  live here because the checks use them. Numbers of the source are \<open>rat\<close>: a finite double is the
  decimal its \<open>repr\<close> prints; NaN and infinities are not represented. \<open>datetime\<close> values are
  \<open>int\<close> (seconds since 1970, UTC).
\<close>

datatype doc_stage = PD | RD | ID

datatype approval_status = APPROVED | NOT_APPROVED | UNKNOWN

datatype approval_basis =
    TITLE_BLOCK | INSPECTOR_SELECT | PACKAGE_DEFAULT | SOLE_HEAD | UNPROVEN

datatype evidence_role = EXPECTED | ACTUAL | CONTEXT

datatype extraction_engine = VECTOR | OCR | VLM | MANUAL

fun doc_stage_value :: "doc_stage \<Rightarrow> string" where
  "doc_stage_value PD = ''PD''"
| "doc_stage_value RD = ''RD''"
| "doc_stage_value ID = ''ID''"

fun approval_status_value :: "approval_status \<Rightarrow> string" where
  "approval_status_value APPROVED = ''APPROVED''"
| "approval_status_value NOT_APPROVED = ''NOT_APPROVED''"
| "approval_status_value UNKNOWN = ''UNKNOWN''"

fun approval_basis_value :: "approval_basis \<Rightarrow> string" where
  "approval_basis_value TITLE_BLOCK = ''TITLE_BLOCK''"
| "approval_basis_value INSPECTOR_SELECT = ''INSPECTOR_SELECT''"
| "approval_basis_value PACKAGE_DEFAULT = ''PACKAGE_DEFAULT''"
| "approval_basis_value SOLE_HEAD = ''SOLE_HEAD''"
| "approval_basis_value UNPROVEN = ''UNPROVEN''"

type_synonym timestamp = int

type_synonym point = "rat \<times> rat"

type_synonym polygon = "point list"

text \<open>\<open>str | float | bool | None\<close> fields are \<open>py_scalar option\<close>.\<close>

datatype py_scalar = PyStr string | PyFloat rat | PyBool bool

text \<open>
  Python's \<open>==\<close> on these values: a bool is an int, so \<open>True == 1.0\<close>; a string equals no number.
\<close>

fun py_number :: "py_scalar \<Rightarrow> rat option" where
  "py_number (PyStr s) = None"
| "py_number (PyFloat x) = Some x"
| "py_number (PyBool b) = Some (if b then 1 else 0)"

fun py_eq :: "py_scalar option \<Rightarrow> py_scalar option \<Rightarrow> bool" where
  "py_eq None None = True"
| "py_eq (Some (PyStr s)) (Some (PyStr t)) = (s = t)"
| "py_eq (Some x) (Some y) =
     (case (py_number x, py_number y) of (Some a, Some b) \<Rightarrow> a = b | _ \<Rightarrow> False)"
| "py_eq _ _ = False"

lemma py_eq_refl [simp]: "py_eq x x"
  by (cases x; cases "the x") auto

lemma py_eq_sym: "py_eq x y \<Longrightarrow> py_eq y x"
  by (induction x y rule: py_eq.induct) (auto split: option.splits)

subsection \<open>Documents\<close>

record document_ref =
  doc_file_id :: string
  doc_file_hash :: string
  doc_stage :: doc_stage
  document_code :: string
  revision :: string
  approval_status :: approval_status
  approval_basis :: approval_basis
  discipline :: "string option"
  approval_date :: "int option"
  sheet :: "string option"
  predecessor_file_id :: "string option"
  successor_file_id :: "string option"
  source_name :: string
  revision_kind :: string

subsection \<open>Geometry of evidence\<close>

definition bbox_from_polygon :: "polygon \<Rightarrow> (rat \<times> rat \<times> rat \<times> rat) result" where
  "bbox_from_polygon p =
     (if length p < 3 then raise ValueError ''polygon needs at least three points'' []
      else Inr (Min (set (map fst p)), Min (set (map snd p)),
                Max (set (map fst p)), Max (set (map snd p))))"

fun union_boxes :: "rat \<times> rat \<times> rat \<times> rat \<Rightarrow> polygon list \<Rightarrow> (rat \<times> rat \<times> rat \<times> rat) result" where
  "union_boxes box [] = Inr box"
| "union_boxes (x0, y0, x1, y1) (p # ps) =
     bindr (bbox_from_polygon p) (\<lambda>(left, top, right, bottom).
       union_boxes (min x0 left, min y0 top, max x1 right, max y1 bottom) ps)"

definition union_rect_polygon :: "polygon list \<Rightarrow> polygon result" where
  "union_rect_polygon ps =
     (case ps of
        [] \<Rightarrow> raise ValueError ''no polygons to unite'' []
      | q # qs \<Rightarrow> bindr (bbox_from_polygon q) (\<lambda>box. bindr (union_boxes box qs)
          (\<lambda>(x0, y0, x1, y1). Inr [(x0, y0), (x1, y0), (x1, y1), (x0, y1)])))"

definition polygon_in_unit_square :: "polygon \<Rightarrow> bool" where
  "polygon_in_unit_square p = list_all (\<lambda>(x, y). 0 \<le> x \<and> x \<le> 1 \<and> 0 \<le> y \<and> y \<le> 1) p"

definition y_overlap :: "polygon \<Rightarrow> polygon \<Rightarrow> bool result" where
  "y_overlap l r =
     bindr (bbox_from_polygon l) (\<lambda>(_, top_a, _, bottom_a).
       bindr (bbox_from_polygon r) (\<lambda>(_, top_b, _, bottom_b).
         Inr (top_a < bottom_b \<and> top_b < bottom_a)))"

definition polygon_points :: "polygon \<Rightarrow> bool \<Rightarrow> unit result" where
  "polygon_points p normalized =
     bindr (guard (length p < 3) (Exc ValueError ''polygon needs at least three points'' []))
       (\<lambda>_. guard (normalized \<and> \<not> polygon_in_unit_square p)
              (Exc ValueError ''polygon_norm outside the unit square'' []))"

lemma bbox_encloses:
  assumes "bbox_from_polygon p = Inr (x0, y0, x1, y1)" and "(x, y) \<in> set p"
  shows "x0 \<le> x \<and> x \<le> x1 \<and> y0 \<le> y \<and> y \<le> y1"
  using assms by (force simp: bbox_from_polygon_def split: if_splits intro: Min_le Max_ge)

lemma union_boxes_grows:
  "union_boxes (x0, y0, x1, y1) ps = Inr (a0, b0, a1, b1) \<Longrightarrow>
   a0 \<le> x0 \<and> b0 \<le> y0 \<and> x1 \<le> a1 \<and> y1 \<le> b1"
proof (induction ps arbitrary: x0 y0 x1 y1)
  case Nil
  then show ?case by simp
next
  case (Cons p ps)
  then show ?case by (fastforce simp: bindr_eq_Inr)
qed

lemma union_boxes_encloses:
  "union_boxes (x0, y0, x1, y1) ps = Inr (a0, b0, a1, b1) \<Longrightarrow> p \<in> set ps \<Longrightarrow> (x, y) \<in> set p \<Longrightarrow>
   a0 \<le> x \<and> x \<le> a1 \<and> b0 \<le> y \<and> y \<le> b1"
proof (induction ps arbitrary: x0 y0 x1 y1)
  case Nil
  then show ?case by simp
next
  case (Cons q ps)
  from Cons.prems(1) obtain l t r b where box: "bbox_from_polygon q = Inr (l, t, r, b)"
    and rest: "union_boxes (min x0 l, min y0 t, max x1 r, max y1 b) ps = Inr (a0, b0, a1, b1)"
    by (auto simp: bindr_eq_Inr)
  show ?case
  proof (cases "p = q")
    case True
    with bbox_encloses [OF box] Cons.prems(3) union_boxes_grows [OF rest] show ?thesis by fastforce
  next
    case False
    with Cons show ?thesis using rest by simp
  qed
qed

subsection \<open>Extractions and evidence\<close>

record extraction =
  raw_token :: string
  engine :: extraction_engine
  engine_version :: string
  confidence :: rat
  normalized_value :: "py_scalar option"
  ext_unit :: "string option"
  grounded_in_source_tokens :: bool
  second_read_agrees :: "bool option"
  confidence_features :: "(string \<times> rat) list"

definition usable_for_automatic_finding :: "extraction \<Rightarrow> bool" where
  "usable_for_automatic_finding x =
     (if \<not> grounded_in_source_tokens x then False else second_read_agrees x \<noteq> Some False)"

record evidence_fragment =
  fragment_id :: string
  frag_role :: evidence_role
  frag_document :: document_ref
  page :: int
  polygon_source :: polygon
  polygon_norm :: polygon
  extracted :: extraction
  room_id :: "string option"

definition is_file_hash :: "string \<Rightarrow> bool" where
  "is_file_hash s = (length s = 64 \<and> list_all (\<lambda>c. c \<in> set ''abcdef0123456789'') s)"

definition mk_fragment :: "evidence_fragment \<Rightarrow> evidence_fragment result" where
  "mk_fragment fr =
     (if page fr < 1 then raise ValueError ''page numbers start at 1'' []
      else if \<not> is_file_hash (doc_file_hash (frag_document fr)) then
        raise ValueError ''file_hash must be SHA-256 in 64 hex digits'' []
      else bindr (polygon_points (polygon_source fr) False)
        (\<lambda>_. bindr (polygon_points (polygon_norm fr) True) (\<lambda>_. Inr fr)))"

record evidence_group =
  group_id :: string
  group_object_id :: string
  group_rule_code :: string
  group_matrix_version :: string
  fragments :: "evidence_fragment list"
  resolved_revisions :: "document_ref list"
  prior_revision_fragments :: "evidence_fragment list"

definition mk_group :: "evidence_group \<Rightarrow> evidence_group result" where
  "mk_group g =
     (if fragments g = [] then Inr g
      else if EXPECTED \<notin> frag_role ` set (fragments g) \<or> ACTUAL \<notin> frag_role ` set (fragments g)
      then raise ValueError ''evidence group requires roles expected and actual'' []
      else Inr g)"

definition group_role :: "evidence_group \<Rightarrow> evidence_role \<Rightarrow> evidence_fragment option" where
  "group_role g r = find (\<lambda>x. frag_role x = r) (fragments g)"

lemma mk_group_roles:
  assumes "mk_group g = Inr g'" and "fragments g \<noteq> []"
  shows "group_role g EXPECTED \<noteq> None \<and> group_role g ACTUAL \<noteq> None"
  using assms by (auto simp: mk_group_def group_role_def find_None_iff split: if_splits)

subsection \<open>Findings\<close>

record inspector_decision =
  inspector_id :: string
  action :: string
  decided_at :: timestamp
  reason_code :: "reason_code option"
  comment :: "string option"

record finding =
  finding_id :: string
  rule_code :: string
  finding_status :: finding_status
  review_priority :: review_priority
  matrix_version :: string
  rule_version :: string
  model_version :: string
  evidence_group_id :: "string option"
  expected_value :: "py_scalar option"
  actual_value :: "py_scalar option"
  delta :: "py_scalar option"
  rationale :: string
  llm_draft :: "string option"
  inspector_decision :: "inspector_decision option"
  source_id :: "string option"
  evidence_refs :: "string list"
  disagreement_kind :: "disagreement_kind option"

definition has_comment :: "inspector_decision \<Rightarrow> bool" where
  "has_comment d = (case comment d of None \<Rightarrow> False | Some c \<Rightarrow> \<not> blank c)"

definition check_confirmed :: "finding \<Rightarrow> unit result" where
  "check_confirmed f =
     (case inspector_decision f of
        None \<Rightarrow> raise ValueError ''CONFIRMED_VIOLATION requires inspector CONFIRM'' []
      | Some d \<Rightarrow>
          if action d \<noteq> ''CONFIRM'' then
            raise ValueError ''CONFIRMED_VIOLATION requires inspector CONFIRM'' []
          else if \<not> has_comment d then raise ValueError ''CONFIRMED_VIOLATION requires comment'' []
          else Inr ())"

definition check_negative :: "finding \<Rightarrow> unit result" where
  "check_negative f =
     (case inspector_decision f of
        None \<Rightarrow> raise ValueError ''NEGATIVE_VERIFIED requires inspector REJECT'' []
      | Some d \<Rightarrow>
          if action d \<noteq> ''REJECT'' then
            raise ValueError ''NEGATIVE_VERIFIED requires inspector REJECT'' []
          else if reason_code d = None then
            raise ValueError ''NEGATIVE_VERIFIED requires reason_code'' []
          else if \<not> has_comment d then raise ValueError ''NEGATIVE_VERIFIED requires comment'' []
          else Inr ())"

definition mk_finding :: "finding \<Rightarrow> finding result" where
  "mk_finding f =
     (if finding_status f \<in> set STATUSES_REQUIRING_EVIDENCE \<and> \<not> truthy (evidence_group_id f)
      then raise ValueError ''requires evidence_group_id'' [finding_status_value (finding_status f)]
      else bindr (if finding_status f = CONFIRMED_VIOLATION then check_confirmed f else Inr ())
        (\<lambda>_. bindr (if finding_status f = NEGATIVE_VERIFIED then check_negative f else Inr ())
          (\<lambda>_. Inr f)))"

definition counts_as_violation :: "finding \<Rightarrow> bool" where
  "counts_as_violation f =
     (finding_status f = CONFIRMED_VIOLATION \<and> inspector_decision f \<noteq> None)"

definition has_provenance :: "finding \<Rightarrow> bool" where
  "has_provenance f = (truthy (evidence_group_id f) \<and> truthy (source_id f))"

text \<open>Where the code keys a finding: its evidence group, or its own id when there is none.\<close>

definition finding_key :: "finding \<Rightarrow> string" where
  "finding_key f = or_str (evidence_group_id f) (finding_id f)"

text \<open>The invariant every constructed finding satisfies.\<close>

definition wf_finding :: "finding \<Rightarrow> bool" where
  "wf_finding f = (mk_finding f = Inr f)"

lemma mk_finding_Inr: "mk_finding f = Inr g \<longleftrightarrow> g = f \<and> wf_finding f"
  by (auto simp: mk_finding_def wf_finding_def bindr_eq_Inr split: if_splits)

lemma wf_finding_iff:
  "wf_finding f \<longleftrightarrow>
     (finding_status f \<in> set STATUSES_REQUIRING_EVIDENCE \<longrightarrow> truthy (evidence_group_id f)) \<and>
     (finding_status f = CONFIRMED_VIOLATION \<longrightarrow>
        (\<exists>d. inspector_decision f = Some d \<and> action d = ''CONFIRM'' \<and> has_comment d)) \<and>
     (finding_status f = NEGATIVE_VERIFIED \<longrightarrow>
        (\<exists>d. inspector_decision f = Some d \<and> action d = ''REJECT'' \<and> reason_code d \<noteq> None \<and>
             has_comment d))"
  by (auto simp: wf_finding_def mk_finding_def check_confirmed_def check_negative_def bindr_eq_Inr
      split: if_splits option.splits)

lemma wf_finding_confirmed:
  "wf_finding f \<Longrightarrow> finding_status f = CONFIRMED_VIOLATION \<Longrightarrow> counts_as_violation f"
  by (auto simp: wf_finding_iff counts_as_violation_def)

subsection \<open>Comparison key\<close>

text \<open>
  \<open>comparison_key\<close> hashes the trimmed parts joined by NUL. The hash is \<open>hashlib.sha256\<close>, an
  argument of the model.
\<close>

definition nul :: char where
  "nul = char_of (0::nat)"

fun join_nul :: "string list \<Rightarrow> string" where
  "join_nul [] = []"
| "join_nul [s] = s"
| "join_nul (s # t # ts) = s @ [nul] @ join_nul (t # ts)"

definition comparison_key ::
    "(string \<Rightarrow> string) \<Rightarrow> string \<Rightarrow> string \<Rightarrow> string list \<Rightarrow> string result" where
  "comparison_key sha object_id code file_ids =
     (let parts = map strip (object_id # code # file_ids)
      in if [] \<in> set parts then raise ValueError ''comparison key from empty fields'' []
         else Inr (sha (join_nul parts)))"

lemma join_nul_append:
  "ss \<noteq> [] \<Longrightarrow> ts \<noteq> [] \<Longrightarrow> join_nul (ss @ ts) = join_nul ss @ [nul] @ join_nul ts"
proof (induction ss rule: join_nul.induct)
  case (2 s)
  then show ?case by (cases ts) auto
qed auto

lemma join_nul_split:
  assumes "nul \<notin> set s" and "nul \<notin> set s'" and "s @ nul # r = s' @ nul # r'"
  shows "s = s' \<and> r = r'"
  using assms
proof (induction s arbitrary: s')
  case Nil
  then show ?case by (cases s') auto
next
  case (Cons c s)
  then show ?case by (cases s') auto
qed

lemma join_nul_inj:
  assumes "join_nul ss = join_nul ts"
    and "\<forall>s \<in> set ss. s \<noteq> [] \<and> nul \<notin> set s" and "\<forall>t \<in> set ts. t \<noteq> [] \<and> nul \<notin> set t"
  shows "ss = ts"
  using assms
proof (induction ss arbitrary: ts rule: join_nul.induct)
  case 1
  then show ?case by (cases ts rule: join_nul.cases) auto
next
  case (2 s)
  then show ?case by (cases ts rule: join_nul.cases) auto
next
  case (3 s t ss)
  show ?case
  proof (cases ts rule: join_nul.cases)
    case (3 s' t' ts')
    with "3.prems" have "s @ nul # join_nul (t # ss) = s' @ nul # join_nul (t' # ts')"
      by simp
    then have "s = s' \<and> join_nul (t # ss) = join_nul (t' # ts')"
      using "3.prems" 3 by (intro join_nul_split) auto
    then show ?thesis using "3.IH" [of "t' # ts'"] "3.prems" 3 by auto
  qed (use "3.prems" in auto)
qed

end
