(* ===== verification/Scenarios.thy ===== *)
theory Scenarios
  imports Models
begin

section \<open>Upload scenario and wire dictionary (application/scenarios.py, domain/status\_map.py)\<close>

text \<open>
  Which stages an upload holds decides the scenario of the check and never a violation. A
  \<open>CompletenessMap\<close> is a dictionary from stages to their completeness; a stage may be absent
  from it. The two dictionaries of \<open>status_map.py\<close> (protocol status, upload prefix) are
  functions; \<open>PROTOCOL_STATUS.get\<close> is \<open>None\<close> before a protocol exists.
\<close>

type_synonym completeness_map = "(doc_stage, completeness) dict"

definition all_stages :: "doc_stage list" where
  "all_stages = [PD, RD, ID]"

definition completeness_of :: "completeness_map \<Rightarrow> doc_stage \<Rightarrow> completeness result" where
  "completeness_of c s =
     (case dict_get c s of Some x \<Rightarrow> Inr x | None \<Rightarrow> raise KeyError (doc_stage_value s) [])"

lemma all_doc_stage: "(\<forall>s. P s) \<longleftrightarrow> P PD \<and> P RD \<and> P ID"
  by (metis doc_stage.exhaust)

subsection \<open>Scenario\<close>

definition present_stages :: "completeness_map \<Rightarrow> doc_stage list" where
  "present_stages c = map fst (filter (\<lambda>(s, st). st \<noteq> MISSING) c)"

definition detect_scenario :: "completeness_map \<Rightarrow> bool \<Rightarrow> scenario result" where
  "detect_scenario c declared =
     (let present = set (present_stages c); partial = PARTIAL \<in> set (dict_values c)
      in if present = {} \<and> \<not> partial then
           raise EmptyPackageError ''empty package is not a TZ comparison scenario'' []
         else if partial then Inr PARTIALLY_LOADED
         else if present = {PD, RD, ID} then (if declared then Inr FULL else Inr PARTIALLY_LOADED)
         else if present = {PD, RD} then Inr PD_RD_ONLY
         else if present = {PD, ID} then Inr PD_ID_ONLY
         else if present = {RD, ID} then Inr RD_ID_ONLY
         else Inr SINGLE_ONLY)"

definition status_for_missing_stage :: "bool \<Rightarrow> bool \<Rightarrow> finding_status" where
  "status_for_missing_stage required applicable =
     (if \<not> applicable then NOT_APPLICABLE
      else if required then MISSING_EVIDENCE
      else NOT_APPLICABLE)"

lemma status_for_missing_stage_quality:
  "status_for_missing_stage r a \<in> set DATA_QUALITY_STATUSES"
  by (simp add: status_for_missing_stage_def enum_simps)

lemma present_stages_iff:
  assumes "wf_dict c"
  shows "s \<in> set (present_stages c) \<longleftrightarrow> (\<exists>st. dict_get c s = Some st \<and> st \<noteq> MISSING)"
  using wf_dict_lookup [OF assms]
  by (force simp: present_stages_def dest: map_of_SomeD)

lemma partial_iff:
  assumes "wf_dict c"
  shows "PARTIAL \<in> set (dict_values c) \<longleftrightarrow> (\<exists>s. dict_get c s = Some PARTIAL)"
  using wf_dict_lookup [OF assms] by (force dest: map_of_SomeD)

lemma detect_scenario_error:
  "detect_scenario c d = Inl e \<longleftrightarrow>
     (e = Exc EmptyPackageError ''empty package is not a TZ comparison scenario'' [] \<and>
      set (dict_values c) \<subseteq> {MISSING})"
proof -
  have "set (present_stages c) = {} \<longleftrightarrow> set (dict_values c) \<subseteq> {MISSING}"
    by (force simp: present_stages_def)
  then show ?thesis
    by (auto simp: detect_scenario_def Let_def split: if_splits)
qed

subsection \<open>The wire dictionary\<close>

fun protocol_status :: "process_state \<Rightarrow> string option" where
  "protocol_status READY = Some ''READY''"
| "protocol_status VERIFYING = Some ''VERIFYING''"
| "protocol_status COMPLETED = Some ''VERIFICATION_COMPLETED''"
| "protocol_status FINALIZED = Some ''PROTOCOL_FINALIZED''"
| "protocol_status PENDING = None"
| "protocol_status PARSING = None"

fun TZ_UPLOAD_PREFIX :: "doc_stage \<Rightarrow> string" where
  "TZ_UPLOAD_PREFIX PD = ''PD''"
| "TZ_UPLOAD_PREFIX RD = ''RD''"
| "TZ_UPLOAD_PREFIX ID = ''ID''"

definition tz_upload_status :: "doc_stage \<Rightarrow> completeness \<Rightarrow> string" where
  "tz_upload_status s c = TZ_UPLOAD_PREFIX s @ ''_'' @ completeness_value c"

definition on_the_wire :: "finding_status \<Rightarrow> bool" where
  "on_the_wire s = (s \<in> set WIRE_FINDING_STATUSES)"

lemma protocol_status_finalized: "protocol_status s = Some ''PROTOCOL_FINALIZED'' \<longleftrightarrow> s = FINALIZED"
  by (cases s) auto

subsection \<open>Properties\<close>

text \<open>
  The scenario is a function of what was uploaded: \<open>FULL\<close> is claimed exactly when the
  expected composition is declared and all three stages are uploaded, none of them partially;
  three stages without a declared register are only \<open>PARTIALLY_LOADED\<close>.
\<close>

theorem full_scenario_needs_declared_composition:
  assumes "wf_dict c"
  shows "detect_scenario c declared = Inr FULL \<longleftrightarrow>
     declared \<and> (\<forall>s. dict_get c s = Some UPLOADED)"
proof -
  have "present = {PD, RD, ID} \<longleftrightarrow> (\<forall>s. s \<in> present)" for present
    by (auto simp: set_eq_iff all_doc_stage)
  moreover have "detect_scenario c declared = Inr FULL \<longleftrightarrow>
      declared \<and> PARTIAL \<notin> set (dict_values c) \<and> set (present_stages c) = {PD, RD, ID}"
    by (auto simp: detect_scenario_def Let_def split: if_splits)
  moreover have "(\<nexists>s. dict_get c s = Some PARTIAL) \<and> (\<forall>s. s \<in> set (present_stages c)) \<longleftrightarrow>
      (\<forall>s. dict_get c s = Some UPLOADED)"
    using present_stages_iff [OF assms] by (metis completeness.distinct completeness.exhaust option.inject)
  ultimately show ?thesis using partial_iff [OF assms] by blast
qed

theorem full_scenario_witness:
  "detect_scenario [(PD, UPLOADED), (RD, UPLOADED), (ID, UPLOADED)] True = Inr FULL \<and>
   detect_scenario [(PD, UPLOADED), (RD, UPLOADED), (ID, UPLOADED)] False \<noteq> Inr FULL"
proof -
  have wf: "wf_dict [(PD, UPLOADED), (RD, UPLOADED), (ID, UPLOADED)]"
    by (simp add: wf_dict_def)
  have all: "\<forall>s. dict_get [(PD, UPLOADED), (RD, UPLOADED), (ID, UPLOADED)] s = Some UPLOADED"
    by (rule allI, case_tac s) simp_all
  show ?thesis using all by (simp add: full_scenario_needs_declared_composition [OF wf])
qed

end
