(* ===== verification/Retry_Policy.thy ===== *)
theory Retry_Policy
  imports Statuses
begin

section \<open>Retry policies (application/retry\_policy.py)\<close>

text \<open>
  Parsing is retried at most twice, a transfer at most three times with pauses of 1, 5 and 15
  minutes; when the retries are spent the administrator is notified. The \<open>reason\<close> texts are
  diagnostics built from the other fields and are not modelled. \<open>py_index\<close> is Python's tuple
  indexing with an integer, negative indices included.
\<close>

definition py_index :: "'a list \<Rightarrow> int \<Rightarrow> 'a result" where
  "py_index xs i =
     (if i \<ge> int (length xs) \<or> - i > int (length xs) then
        raise IndexError ''tuple index out of range'' []
      else if i < 0 then Inr (rev xs ! nat (- i - 1))
      else Inr (xs ! nat i))"

definition MAX_PARSE_RETRIES :: int where
  "MAX_PARSE_RETRIES = 2"

definition PARSE_BACKOFF_SECONDS :: "int list" where
  "PARSE_BACKOFF_SECONDS = [30, 120]"

definition SYNC_BACKOFF_SECONDS :: "int list" where
  "SYNC_BACKOFF_SECONDS = [60, 300, 900]"

definition MAX_SYNC_RETRIES :: int where
  "MAX_SYNC_RETRIES = int (length SYNC_BACKOFF_SECONDS)"

record retry_decision =
  attempts_done :: int
  retry :: bool
  delay_seconds :: "int option"
  notify_admin :: bool

record sync_retry_decision = retry_decision +
  next_state :: sync_state

definition validate_attempts :: "int \<Rightarrow> unit result" where
  "validate_attempts n =
     guard (n < 1) (Exc ValueError ''attempts_done counts from the first finished attempt'' [])"

definition next_parse_attempt :: "int \<Rightarrow> int \<Rightarrow> int list \<Rightarrow> retry_decision result" where
  "next_parse_attempt done max_retries backoff =
     bindr (validate_attempts done) (\<lambda>_.
       if done > max_retries then
         Inr \<lparr>attempts_done = done, retry = False, delay_seconds = None, notify_admin = True\<rparr>
       else bindr (py_index backoff (min (done - 1) (int (length backoff) - 1))) (\<lambda>d.
         Inr \<lparr>attempts_done = done, retry = True, delay_seconds = Some d, notify_admin = False\<rparr>))"

definition next_sync_attempt :: "int \<Rightarrow> sync_retry_decision result" where
  "next_sync_attempt done =
     bindr (validate_attempts done) (\<lambda>_.
       if done > MAX_SYNC_RETRIES then
         Inr \<lparr>attempts_done = done, retry = False, delay_seconds = None, notify_admin = True,
              next_state = PENDING_SYNC\<rparr>
       else bindr (py_index SYNC_BACKOFF_SECONDS (done - 1)) (\<lambda>d.
         Inr \<lparr>attempts_done = done, retry = True, delay_seconds = Some d, notify_admin = False,
              next_state = RETRY_WAIT\<rparr>))"

lemma py_index_total:
  assumes "i < int (length xs)" and "0 \<le> i"
  shows "py_index xs i = Inr (xs ! nat i)"
  using assms
  by (simp add: py_index_def)

text \<open>
  The pauses a process goes through when every attempt fails: after attempt \<open>n\<close> the policy is
  asked; it either gives a pause and attempt \<open>n + 1\<close> follows, or it stops.
\<close>

fun pauses :: "nat \<Rightarrow> (int \<Rightarrow> 'd result) \<Rightarrow> ('d \<Rightarrow> int option) \<Rightarrow> int \<Rightarrow> int list option" where
  "pauses 0 policy pause n = None"
| "pauses (Suc fuel) policy pause n =
     (case policy n of
        Inl e \<Rightarrow> None
      | Inr d \<Rightarrow> (case pause d of
          None \<Rightarrow> Some []
        | Some p \<Rightarrow> map_option ((#) p) (pauses fuel policy pause (n + 1))))"

lemma next_sync_attempt_cases:
  assumes "1 \<le> n"
  shows "next_sync_attempt n =
     (if n \<le> 3 then
        Inr \<lparr>attempts_done = n, retry = True, delay_seconds = Some (SYNC_BACKOFF_SECONDS ! nat (n - 1)),
             notify_admin = False, next_state = RETRY_WAIT\<rparr>
      else
        Inr \<lparr>attempts_done = n, retry = False, delay_seconds = None, notify_admin = True,
             next_state = PENDING_SYNC\<rparr>)"
  using assms
  by (auto simp: next_sync_attempt_def validate_attempts_def MAX_SYNC_RETRIES_def
      SYNC_BACKOFF_SECONDS_def py_index_total bindr_guard)

lemma next_parse_attempt_cases:
  assumes "1 \<le> n"
  shows "next_parse_attempt n m b =
     (if m < n then
        Inr \<lparr>attempts_done = n, retry = False, delay_seconds = None, notify_admin = True\<rparr>
      else if b = [] then raise IndexError ''tuple index out of range'' []
      else Inr \<lparr>attempts_done = n, retry = True,
                delay_seconds = Some (b ! min (nat (n - 1)) (length b - 1)), notify_admin = False\<rparr>)"
proof -
  have "py_index b (min (n - 1) (int (length b) - 1)) =
      (if b = [] then raise IndexError ''tuple index out of range'' []
       else Inr (b ! min (nat (n - 1)) (length b - 1)))"
  proof (cases "b = []")
    case False
    then have "0 < length b" by simp
    then have "py_index b (min (n - 1) (int (length b) - 1)) =
        Inr (b ! nat (min (n - 1) (int (length b) - 1)))"
      using assms by (intro py_index_total) auto
    moreover have "nat (min (n - 1) (int (length b) - 1)) = min (nat (n - 1)) (length b - 1)"
      using assms \<open>0 < length b\<close> by (auto simp: min_def)
    ultimately show ?thesis using False by simp
  qed (use assms in \<open>simp add: py_index_def\<close>)
  then show ?thesis
    using assms by (simp add: next_parse_attempt_def validate_attempts_def bindr_guard)
qed

subsection \<open>Properties\<close>

text \<open>
  A transfer that keeps failing is retried after exactly 1, 5 and 15 minutes and then stops
  with a notification in \<open>PENDING_SYNC\<close>; it never becomes \<open>FAILED_TERMINAL\<close>, and the policy answers
  every count of attempts from one on.
\<close>

theorem sync_retries_are_finite:
  "pauses 4 next_sync_attempt delay_seconds 1 = Some [60, 300, 900] \<and>
   (\<forall>n. n < 1 \<or> (\<exists>d. next_sync_attempt n = Inr d \<and>
      retry d = (n \<le> 3) \<and> notify_admin d = (3 < n) \<and>
      next_state d = (if n \<le> 3 then RETRY_WAIT else PENDING_SYNC)))"
proof
  show "pauses 4 next_sync_attempt delay_seconds 1 = Some [60, 300, 900]"
    by (simp add: eval_nat_numeral next_sync_attempt_cases SYNC_BACKOFF_SECONDS_def)
next
  show "\<forall>n. n < 1 \<or> (\<exists>d. next_sync_attempt n = Inr d \<and>
      retry d = (n \<le> 3) \<and> notify_admin d = (3 < n) \<and>
      next_state d = (if n \<le> 3 then RETRY_WAIT else PENDING_SYNC))"
  proof
    fix n :: int
    show "n < 1 \<or> (\<exists>d. next_sync_attempt n = Inr d \<and> retry d = (n \<le> 3) \<and>
        notify_admin d = (3 < n) \<and> next_state d = (if n \<le> 3 then RETRY_WAIT else PENDING_SYNC))"
      using next_sync_attempt_cases [of n] by (cases "n < 1") auto
  qed
qed



end
