(* ===== verification/Cascade.thy ===== *)
theory Cascade
  imports Statuses "HOL-Library.Multiset"
begin

section \<open>The processing cascade L0 to L9 (application/pipeline.py)\<close>

text \<open>
  A stage result says whether a stage passed and, optionally, with which status it stopped.
  \<open>run_cascade\<close> is the source's \<open>run\<close>: it sorts the results by stage (stably), returns the
  status of the first failure, or \<open>None\<close> when every stage L1 to L7 is present and nothing
  failed; L0 failures, human verdicts and gaps raise instead.
\<close>

datatype stage =
    L0_INTAKE | L1_IDENTITY | L2_EXTRACTION | L3_LOCALIZATION | L4_REVISION
  | L5_PAIRING | L6_MATRIX | L7_FINDINGS | L8_REVIEW | L9_PROTOCOL

fun stage_no :: "stage \<Rightarrow> nat" where
  "stage_no L0_INTAKE = 0"
| "stage_no L1_IDENTITY = 1"
| "stage_no L2_EXTRACTION = 2"
| "stage_no L3_LOCALIZATION = 3"
| "stage_no L4_REVISION = 4"
| "stage_no L5_PAIRING = 5"
| "stage_no L6_MATRIX = 6"
| "stage_no L7_FINDINGS = 7"
| "stage_no L8_REVIEW = 8"
| "stage_no L9_PROTOCOL = 9"

lemma stage_no_inject [simp]: "stage_no a = stage_no b \<longleftrightarrow> a = b"
  by (cases a; cases b) auto

instantiation stage :: linorder
begin

definition less_eq_stage :: "stage \<Rightarrow> stage \<Rightarrow> bool" where
  "less_eq_stage a b = (stage_no a \<le> stage_no b)"

definition less_stage :: "stage \<Rightarrow> stage \<Rightarrow> bool" where
  "less_stage a b = (stage_no a < stage_no b)"

instance
  by standard (auto simp: less_eq_stage_def less_stage_def order.antisym)

end

fun stage_name :: "stage \<Rightarrow> string" where
  "stage_name L0_INTAKE = ''L0_INTAKE''"
| "stage_name L1_IDENTITY = ''L1_IDENTITY''"
| "stage_name L2_EXTRACTION = ''L2_EXTRACTION''"
| "stage_name L3_LOCALIZATION = ''L3_LOCALIZATION''"
| "stage_name L4_REVISION = ''L4_REVISION''"
| "stage_name L5_PAIRING = ''L5_PAIRING''"
| "stage_name L6_MATRIX = ''L6_MATRIX''"
| "stage_name L7_FINDINGS = ''L7_FINDINGS''"
| "stage_name L8_REVIEW = ''L8_REVIEW''"
| "stage_name L9_PROTOCOL = ''L9_PROTOCOL''"

fun STAGE_FAILURE_STATUS :: "stage \<Rightarrow> finding_status option" where
  "STAGE_FAILURE_STATUS L1_IDENTITY = Some CLARIFICATION_REQUIRED"
| "STAGE_FAILURE_STATUS L2_EXTRACTION = Some LOW_QUALITY"
| "STAGE_FAILURE_STATUS L3_LOCALIZATION = Some LOW_QUALITY"
| "STAGE_FAILURE_STATUS L4_REVISION = Some CLARIFICATION_REQUIRED"
| "STAGE_FAILURE_STATUS L5_PAIRING = Some NOT_COMPARABLE"
| "STAGE_FAILURE_STATUS L6_MATRIX = Some CLARIFICATION_REQUIRED"
| "STAGE_FAILURE_STATUS L7_FINDINGS = Some ABSTAIN"
| "STAGE_FAILURE_STATUS _ = None"

definition NON_HALTING_STAGES :: "stage list" where
  "NON_HALTING_STAGES = [L8_REVIEW, L9_PROTOCOL]"

definition REQUIRED_PRECOMPARISON_STAGES :: "stage list" where
  "REQUIRED_PRECOMPARISON_STAGES =
     [L1_IDENTITY, L2_EXTRACTION, L3_LOCALIZATION, L4_REVISION, L5_PAIRING, L6_MATRIX, L7_FINDINGS]"

record stage_result =
  sr_stage :: stage
  sr_ok :: bool
  sr_status :: "finding_status option"
  sr_detail :: string

definition halt_status :: "stage \<Rightarrow> finding_status result" where
  "halt_status s =
     (if s = L0_INTAKE then raise ValueError ''L0 intake failures are RejectionReason, not findings'' []
      else if s \<in> set NON_HALTING_STAGES then
        raise StageHaltError ''the inspector assigns the status at this stage'' [stage_name s]
      else case STAGE_FAILURE_STATUS s of
        Some st \<Rightarrow> Inr st
      | None \<Rightarrow> raise StageHaltError ''no safe halt status'' [stage_name s])"

fun first_failure :: "stage_result list \<Rightarrow> finding_status option result" where
  "first_failure [] = Inr None"
| "first_failure (r # rs) =
     (if sr_ok r then first_failure rs
      else if sr_stage r = L0_INTAKE then
        raise ValueError ''L0 intake failures are RejectionReason, not findings'' []
      else bindr (case sr_status r of Some st \<Rightarrow> Inr st | None \<Rightarrow> halt_status (sr_stage r)) (\<lambda>st.
        if st \<in> set HUMAN_ONLY_STATUSES then
          raise StageHaltError ''only the inspector assigns this status''
            [stage_name (sr_stage r), finding_status_value st]
        else Inr (Some st)))"

definition missing_stages :: "stage_result list \<Rightarrow> stage list" where
  "missing_stages rs =
     filter (\<lambda>s. s \<notin> set (map sr_stage rs)) REQUIRED_PRECOMPARISON_STAGES"

definition run_cascade :: "stage_result list \<Rightarrow> finding_status option result" where
  "run_cascade rs =
     bindr (first_failure (sort_key sr_stage rs)) (\<lambda>r.
       case r of
         Some st \<Rightarrow> Inr (Some st)
       | None \<Rightarrow>
           (if missing_stages rs \<noteq> [] then
              raise StageHaltError ''stages skipped: no comparison without L1-L7''
                (map stage_name (missing_stages rs))
            else Inr None))"

lemma halt_status_Inr: "halt_status s = Inr st \<longleftrightarrow> STAGE_FAILURE_STATUS s = Some st"
  by (cases s) (auto simp: halt_status_def NON_HALTING_STAGES_def)

lemma halt_status_quality: "halt_status s = Inr st \<Longrightarrow> st \<in> set DATA_QUALITY_STATUSES"
  by (cases s) (auto simp: halt_status_Inr enum_simps)

lemma first_failure_None: "first_failure rs = Inr None \<longleftrightarrow> list_all sr_ok rs"
  by (induction rs) (auto simp: bindr_eq_Inr split: if_splits)

lemma first_failure_Some:
  assumes "first_failure rs = Inr (Some st)"
  shows "\<exists>pre r post. rs = pre @ r # post \<and> list_all sr_ok pre \<and> \<not> sr_ok r \<and>
     sr_stage r \<noteq> L0_INTAKE \<and> st \<notin> set HUMAN_ONLY_STATUSES \<and>
     (sr_status r = Some st \<or> sr_status r = None \<and> STAGE_FAILURE_STATUS (sr_stage r) = Some st)"
  using assms
proof (induction rs)
  case Nil
  then show ?case by simp
next
  case (Cons r rs)
  show ?case
  proof (cases "sr_ok r")
    case True
    with Cons obtain pre x post where "rs = pre @ x # post \<and> list_all sr_ok pre \<and> \<not> sr_ok x \<and>
        sr_stage x \<noteq> L0_INTAKE \<and> st \<notin> set HUMAN_ONLY_STATUSES \<and>
        (sr_status x = Some st \<or> sr_status x = None \<and> STAGE_FAILURE_STATUS (sr_stage x) = Some st)"
      by auto
    with True show ?thesis by (intro exI [of _ "r # pre"] exI [of _ x] exI [of _ post]) simp
  next
    case False
    with Cons.prems have "sr_stage r \<noteq> L0_INTAKE \<and> st \<notin> set HUMAN_ONLY_STATUSES \<and>
        (sr_status r = Some st \<or> sr_status r = None \<and> STAGE_FAILURE_STATUS (sr_stage r) = Some st)"
      by (auto simp: bindr_eq_Inr halt_status_Inr split: if_splits option.splits)
    with False show ?thesis by (intro exI [of _ "[]"] exI [of _ r] exI [of _ rs]) simp
  qed
qed

lemma sort_key_set [simp]: "set (sort_key f xs) = set xs"
  by simp

lemma missing_stages_cong: "set (map sr_stage xs) = set (map sr_stage ys) \<Longrightarrow>
    missing_stages xs = missing_stages ys"
  by (simp add: missing_stages_def)

subsection \<open>Properties\<close>

text \<open>
  A rule is admitted to comparison exactly when every stage result passed and each of L1 to L7
  is among them: an empty or partial cascade is never a success.
\<close>

theorem cascade_admits_only_complete_runs:
  "run_cascade rs = Inr None \<longleftrightarrow>
     list_all sr_ok rs \<and> set REQUIRED_PRECOMPARISON_STAGES \<subseteq> set (map sr_stage rs)"
proof -
  have "list_all sr_ok (sort_key sr_stage rs) \<longleftrightarrow> list_all sr_ok rs"
    by (simp add: list_all_iff)
  moreover have "missing_stages rs = [] \<longleftrightarrow>
      set REQUIRED_PRECOMPARISON_STAGES \<subseteq> set (map sr_stage rs)"
    by (auto simp: missing_stages_def filter_empty_conv)
  ultimately show ?thesis
    by (auto simp: run_cascade_def bindr_eq_Inr first_failure_None split: if_splits option.splits)
qed

text \<open>
  A status the cascade stops with is the one of a failed stage that no failed stage precedes:
  its explicit status, or the quality status of the table; it is never a human verdict, and the
  stage is not L0.
\<close>

theorem cascade_stops_at_first_failure:
  assumes "run_cascade rs = Inr (Some st)"
  shows "\<exists>r \<in> set rs. \<not> sr_ok r \<and> sr_stage r \<noteq> L0_INTAKE \<and> st \<notin> set HUMAN_ONLY_STATUSES \<and>
     (sr_status r = Some st \<or> sr_status r = None \<and> STAGE_FAILURE_STATUS (sr_stage r) = Some st) \<and>
     (\<forall>q \<in> set rs. \<not> sr_ok q \<longrightarrow> sr_stage r \<le> sr_stage q)"
proof -
  let ?s = "sort_key sr_stage rs"
  from assms have "first_failure ?s = Inr (Some st)"
    by (auto simp: run_cascade_def bindr_eq_Inr split: if_splits option.splits)
  then obtain pre r post where split: "?s = pre @ r # post" and pre: "list_all sr_ok pre"
    and r: "\<not> sr_ok r" "sr_stage r \<noteq> L0_INTAKE" "st \<notin> set HUMAN_ONLY_STATUSES"
      "sr_status r = Some st \<or> sr_status r = None \<and> STAGE_FAILURE_STATUS (sr_stage r) = Some st"
    using first_failure_Some by blast
  have "sorted (map sr_stage ?s)" by simp
  then have "\<forall>q \<in> set post. sr_stage r \<le> sr_stage q"
    unfolding split by (simp add: sorted_append)
  moreover have "set rs = set pre \<union> {r} \<union> set post"
    using split by (metis sort_key_set set_append list.simps(15) Un_insert_right Un_empty_right
        insert_is_Un Un_assoc Un_commute)
  ultimately have "\<forall>q \<in> set rs. \<not> sr_ok q \<longrightarrow> sr_stage r \<le> sr_stage q"
    using pre by (auto simp: list_all_iff)
  moreover have "r \<in> set rs" using \<open>set rs = _\<close> by simp
  ultimately show ?thesis using r by blast
qed

definition sample_cascade :: "stage_result list" where
  "sample_cascade =
     [\<lparr>sr_stage = L5_PAIRING, sr_ok = False, sr_status = None, sr_detail = ''''\<rparr>,
      \<lparr>sr_stage = L2_EXTRACTION, sr_ok = False, sr_status = None, sr_detail = ''''\<rparr>,
      \<lparr>sr_stage = L1_IDENTITY, sr_ok = True, sr_status = None, sr_detail = ''''\<rparr>]"

lemma run_sample_cascade: "run_cascade sample_cascade = Inr (Some LOW_QUALITY)"
  by (simp add: run_cascade_def sample_cascade_def less_eq_stage_def halt_status_def
      NON_HALTING_STAGES_def enum_simps)

theorem cascade_stops_at_first_failure_witness:
  "\<exists>r \<in> set sample_cascade. \<not> sr_ok r \<and> LOW_QUALITY \<notin> set HUMAN_ONLY_STATUSES"
  using cascade_stops_at_first_failure [OF run_sample_cascade] by blast

text \<open>
  The order in which stage results arrive does not matter: with at most one result per stage,
  any two arrangements of the same results give the same outcome, errors included.
\<close>

theorem cascade_order_irrelevant:
  assumes "mset xs = mset ys" and "distinct (map sr_stage xs)"
  shows "run_cascade xs = run_cascade ys"
proof -
  have "inj_on sr_stage (set xs)" using assms(2) by (simp add: distinct_map)
  then have "sort_key sr_stage xs = sort_key sr_stage ys"
    using assms(1) by (intro sort_key_inj_key_eq) simp_all
  moreover have "missing_stages xs = missing_stages ys"
    using assms(1) by (intro missing_stages_cong) (metis mset_eq_setD mset_map)
  ultimately show ?thesis unfolding run_cascade_def by (simp only:)
qed

theorem cascade_order_irrelevant_witness:
  "run_cascade (rev sample_cascade) = run_cascade sample_cascade"
  by (rule cascade_order_irrelevant) (simp_all add: sample_cascade_def)

end
