(* ===== verification/Capabilities.thy ===== *)
theory Capabilities
  imports Prelude
begin

section \<open>Engine capabilities (domain/capabilities.py)\<close>

text \<open>
  Which extraction layers are alive decides whether a kit can be checked at all. Advisory layers
  never block it. Engine names are the source's strings.
\<close>

datatype cap_status = AVAILABLE | CAP_DEGRADED | MEASURED | UNAVAILABLE

record capability =
  cap_name :: string
  cap_status :: cap_status
  affects_verdict :: bool

definition AFFECTS_VERDICT :: "string list" where
  "AFFECTS_VERDICT = [''vector_text'', ''ocr_text'', ''ocr_tables'', ''drawing_analysis'']"

definition ADVISORY_ONLY :: "string list" where
  "ADVISORY_ONLY = [''llm_advisory'']"

definition KNOWN_ENGINES :: "string list" where
  "KNOWN_ENGINES =
     [''vector_text'', ''ocr_text'', ''ocr_tables'', ''drawing_analysis'', ''llm_advisory'']"

definition describe :: "string \<Rightarrow> cap_status \<Rightarrow> capability result" where
  "describe name st =
     (if name \<in> set ADVISORY_ONLY then
        Inr \<lparr>cap_name = name, cap_status = st, affects_verdict = False\<rparr>
      else if name \<in> set AFFECTS_VERDICT then
        Inr \<lparr>cap_name = name, cap_status = st, affects_verdict = True\<rparr>
      else raise ValueError ''unknown capability'' [name])"

definition kit_blocked :: "capability list \<Rightarrow> bool" where
  "kit_blocked cs = list_ex (\<lambda>c. affects_verdict c \<and> cap_status c = UNAVAILABLE) cs"

definition kit_degraded :: "capability list \<Rightarrow> bool" where
  "kit_degraded cs =
     list_ex (\<lambda>c. affects_verdict c \<and> cap_status c \<in> {CAP_DEGRADED, MEASURED}) cs"

definition overall_kit_status :: "capability list \<Rightarrow> cap_status" where
  "overall_kit_status cs =
     (if kit_blocked cs then UNAVAILABLE
      else if kit_degraded cs then CAP_DEGRADED
      else AVAILABLE)"

datatype engine_bucket = Healthy | DegradedB | MeasuredB | Failed | Skipped

text \<open>
  \<open>engine_health_summary\<close> sorts the known engines into five lists. The dictionary
  \<open>{item.name: item}\<close> keeps the last capability of a name.
\<close>

definition engine_bucket_of :: "capability option \<Rightarrow> engine_bucket" where
  "engine_bucket_of item =
     (case item of
        None \<Rightarrow> Skipped
      | Some c \<Rightarrow>
          if cap_status c = AVAILABLE then Healthy
          else if cap_status c = CAP_DEGRADED then DegradedB
          else if cap_status c = MEASURED then MeasuredB
          else if affects_verdict c then Failed
          else Skipped)"

definition engine_health_summary :: "capability list \<Rightarrow> engine_bucket \<Rightarrow> string list" where
  "engine_health_summary cs b =
     (let by_name = fold (\<lambda>c d. dict_set (cap_name c) c d) cs []
      in filter (\<lambda>n. engine_bucket_of (dict_get by_name n) = b) KNOWN_ENGINES)"

definition live_kit :: "capability list result" where
  "live_kit = traverse (\<lambda>(n, s). describe n s) [(''vector_text'', AVAILABLE)]"

definition declared_capabilities :: "capability list result" where
  "declared_capabilities = traverse (\<lambda>(n, s). describe n s)
     [(''vector_text'', AVAILABLE), (''ocr_text'', MEASURED), (''ocr_tables'', UNAVAILABLE),
      (''drawing_analysis'', CAP_DEGRADED), (''llm_advisory'', UNAVAILABLE)]"

lemmas engine_sets = AFFECTS_VERDICT_def ADVISORY_ONLY_def KNOWN_ENGINES_def

lemma describe_known: "name \<in> set KNOWN_ENGINES \<longleftrightarrow> (\<exists>c. describe name st = Inr c)"
  by (auto simp: describe_def engine_sets)

lemma describe_affects:
  "describe name st = Inr c \<Longrightarrow>
   cap_name c = name \<and> cap_status c = st \<and> affects_verdict c = (name \<in> set AFFECTS_VERDICT)"
  by (auto simp: describe_def engine_sets split: if_splits)


lemma health_buckets_partition:
  "n \<in> set KNOWN_ENGINES \<longleftrightarrow> (\<exists>!b. n \<in> set (engine_health_summary cs b))"
  by (auto simp: engine_health_summary_def Let_def)

text \<open>
  Advisory engines cannot block or degrade a kit: the overall status is unchanged by any
  capabilities that do not affect the verdict, wherever they stand in the list.
\<close>

theorem advisory_layers_never_block:
  "overall_kit_status cs = overall_kit_status (filter affects_verdict cs)"
  by (auto simp: overall_kit_status_def kit_blocked_def kit_degraded_def list_ex_iff)

text \<open>The declared engines: OCR tables are down, so a kit that needed all of them would be blocked.\<close>

lemma declared_status: "bindr declared_capabilities (\<lambda>cs. Inr (overall_kit_status cs)) = Inr UNAVAILABLE"
  by (simp add: declared_capabilities_def describe_def engine_sets overall_kit_status_def
      kit_blocked_def)

lemma live_status: "bindr live_kit (\<lambda>cs. Inr (overall_kit_status cs)) = Inr AVAILABLE"
  by (simp add: live_kit_def describe_def engine_sets overall_kit_status_def
      kit_blocked_def kit_degraded_def)

end
