(* ===== verification/Py_Text.thy ===== *)
theory Py_Text
  imports Prelude
begin

section \<open>Python text and numbers: str, repr, float, split\<close>

text \<open>
  What the code uses of Python's built-in conversions. \<open>show_int\<close> and \<open>show_float\<close> are \<open>str\<close> of
  an int and of a finite float (the shortest decimal, positional for exponents \<open>-4\<close> to \<open>15\<close>,
  scientific outside); \<open>parse_float\<close> is \<open>float(text)\<close> on decimal literals, with the optional
  sign, exponent, digit underscores and surrounding blanks Python accepts, and \<open>ValueError\<close>
  otherwise. The words \<open>inf\<close> and \<open>nan\<close> have no value in the model and are refused.
  \<open>split_on\<close>, \<open>rsplit1\<close> and \<open>split1\<close> are \<open>s.split(c)\<close>, \<open>s.rsplit(c, 1)\<close> and \<open>s.split(c, 1)\<close> for a
  one-character separator.
\<close>

definition digit_char :: "nat \<Rightarrow> char" where
  "digit_char n = char_of (48 + n)"

definition is_dec :: "char \<Rightarrow> bool" where
  "is_dec c = (48 \<le> (of_char c :: nat) \<and> (of_char c :: nat) \<le> 57)"

definition digit_val :: "char \<Rightarrow> nat" where
  "digit_val c = of_char c - 48"

text \<open>\<open>str.isdigit\<close>: the decimal digits are the only digits of the code page.\<close>

definition isdigit :: "string \<Rightarrow> bool" where
  "isdigit s = (s \<noteq> [] \<and> list_all is_dec s)"

fun show_nat :: "nat \<Rightarrow> string" where
  "show_nat n = (if n < 10 then [digit_char n] else show_nat (n div 10) @ [digit_char (n mod 10)])"

declare show_nat.simps [simp del]

definition show_int :: "int \<Rightarrow> string" where
  "show_int i = (if i < 0 then ''-'' @ show_nat (nat (- i)) else show_nat (nat i))"

definition nat_of_digits :: "string \<Rightarrow> nat" where
  "nat_of_digits s = foldl (\<lambda>a c. 10 * a + digit_val c) 0 s"

lemma of_char_digit_char: "n < 10 \<Longrightarrow> of_char (digit_char n) = 48 + n"
  by (simp add: digit_char_def)

lemma is_dec_digit_char [simp]: "n < 10 \<Longrightarrow> is_dec (digit_char n)"
  by (simp add: is_dec_def of_char_digit_char)

lemma digit_val_digit_char [simp]: "n < 10 \<Longrightarrow> digit_val (digit_char n) = n"
  by (simp add: digit_val_def of_char_digit_char)

lemma show_nat_digits: "list_all is_dec (show_nat n)"
proof (induction n rule: show_nat.induct)
  case (1 n)
  then show ?case by (cases "n < 10") (simp_all add: show_nat.simps [of n])
qed

lemma show_nat_nonempty [simp]: "show_nat n \<noteq> []"
  by (subst show_nat.simps) simp

lemma nat_of_digits_show [simp]: "nat_of_digits (show_nat n) = n"
proof (induction n rule: show_nat.induct)
  case (1 n)
  show ?case
  proof (cases "n < 10")
    case True
    then show ?thesis by (simp add: show_nat.simps [of n] nat_of_digits_def)
  next
    case False
    with 1 show ?thesis by (simp add: show_nat.simps [of n] nat_of_digits_def)
  qed
qed

lemma show_nat_inject [simp]: "show_nat a = show_nat b \<longleftrightarrow> a = b"
  by (metis nat_of_digits_show)

lemma isdigit_show_nat: "isdigit (show_nat n)"
  using show_nat_digits [of n] by (simp add: isdigit_def)

subsection \<open>Case\<close>

text \<open>
  The letters of the code page in pairs (capital, small) outside the two regular blocks of 32.
  \<open>casefold\<close> agrees with \<open>lower\<close> on the page but for the micro sign, which folds to a letter
  outside it and is left alone.
\<close>

definition odd_case_pairs :: "(nat \<times> nat) list" where
  "odd_case_pairs =
     [(128, 144), (129, 131), (138, 154), (140, 156), (141, 157), (142, 158), (143, 159),
      (161, 162), (163, 188), (165, 180), (168, 184), (170, 186), (175, 191), (178, 179), (189, 190)]"

definition lower_code :: "nat \<Rightarrow> nat" where
  "lower_code n =
     (if (65 \<le> n \<and> n \<le> 90) \<or> (192 \<le> n \<and> n \<le> 223) then n + 32
      else case map_of odd_case_pairs n of Some m \<Rightarrow> m | None \<Rightarrow> n)"

definition upper_code :: "nat \<Rightarrow> nat" where
  "upper_code n =
     (if (97 \<le> n \<and> n \<le> 122) \<or> (224 \<le> n \<and> n \<le> 255) then n - 32
      else case map_of (map (\<lambda>(a, b). (b, a)) odd_case_pairs) n of Some m \<Rightarrow> m | None \<Rightarrow> n)"

definition str_lower :: "string \<Rightarrow> string" where
  "str_lower s = map (\<lambda>c. char_of (lower_code (of_char c))) s"

definition str_upper :: "string \<Rightarrow> string" where
  "str_upper s = map (\<lambda>c. char_of (upper_code (of_char c))) s"

text \<open>Text constants with Russian letters are given by their codes.\<close>

definition cyr :: "nat list \<Rightarrow> string" where
  "cyr ns = map char_of ns"

text \<open>\<open>needle in text\<close>.\<close>

fun starts_with :: "string \<Rightarrow> string \<Rightarrow> bool" where
  "starts_with s [] = True"
| "starts_with [] (c # p) = False"
| "starts_with (x # s) (c # p) = (x = c \<and> starts_with s p)"

fun contains :: "string \<Rightarrow> string \<Rightarrow> bool" where
  "contains [] p = (p = [])"
| "contains (x # s) p = (starts_with (x # s) p \<or> contains s p)"

lemma starts_with_iff: "starts_with s p \<longleftrightarrow> (\<exists>r. s = p @ r)"
  by (induction s p rule: starts_with.induct) auto

lemma contains_iff: "contains s p \<longleftrightarrow> (\<exists>a b. s = a @ p @ b)"
proof (induction s p rule: contains.induct)
  case (2 x s p)
  have "(\<exists>a b. x # s = a @ p @ b) \<longleftrightarrow> (\<exists>b. x # s = p @ b) \<or> (\<exists>a b. s = a @ p @ b)"
    by (metis append_Cons append_Nil append_eq_Cons_conv)
  with 2 show ?case by (simp add: starts_with_iff)
qed simp

subsection \<open>repr of a float\<close>

text \<open>
  \<open>decimal_parts\<close> writes a positive decimal as \<open>m * 10 ^ e\<close> with \<open>m\<close> not divisible by ten; 400
  steps are enough for every double (the exponent of its shortest decimal is above -342).
\<close>

fun unscale :: "nat \<Rightarrow> rat \<Rightarrow> int \<Rightarrow> (nat \<times> int) option" where
  "unscale 0 x e = None"
| "unscale (Suc fuel) x e =
     (if x = of_int (floor x) then Some (nat (floor x), e) else unscale fuel (x * 10) (e - 1))"

fun strip_zeros :: "nat \<Rightarrow> nat \<Rightarrow> int \<Rightarrow> nat \<times> int" where
  "strip_zeros 0 m e = (m, e)"
| "strip_zeros (Suc fuel) m e =
     (if m \<noteq> 0 \<and> m mod 10 = 0 then strip_zeros fuel (m div 10) (e + 1) else (m, e))"

definition decimal_parts :: "rat \<Rightarrow> (nat \<times> int) option" where
  "decimal_parts x = map_option (\<lambda>(m, e). strip_zeros 400 m e) (unscale 400 x 0)"

definition zeros :: "nat \<Rightarrow> string" where
  "zeros n = replicate n (CHR ''0'')"

definition format_decimal :: "string \<Rightarrow> int \<Rightarrow> string" where
  "format_decimal ds e =
     (let n = int (length ds); p = n + e
      in if - 4 < p \<and> p \<le> 16 then
           (if p \<le> 0 then ''0.'' @ zeros (nat (- p)) @ ds
            else if n \<le> p then ds @ zeros (nat (p - n)) @ ''.0''
            else take (nat p) ds @ ''.'' @ drop (nat p) ds)
         else
           take 1 ds @ (if n > 1 then ''.'' @ drop 1 ds else []) @ ''e'' @
           (if p - 1 < 0 then ''-'' else ''+'') @
           (let x = show_nat (nat \<bar>p - 1\<bar>) in if length x < 2 then ''0'' @ x else x))"

definition show_float :: "rat \<Rightarrow> string" where
  "show_float x =
     (if x = 0 then ''0.0''
      else case decimal_parts \<bar>x\<bar> of
        None \<Rightarrow> ''nan''
      | Some (m, e) \<Rightarrow> (if x < 0 then ''-'' else []) @ format_decimal (show_nat m) e)"

subsection \<open>Splitting\<close>

fun split_on :: "char \<Rightarrow> string \<Rightarrow> string list" where
  "split_on c [] = [[]]"
| "split_on c (x # xs) =
     (if x = c then [] # split_on c xs
      else (case split_on c xs of [] \<Rightarrow> [[x]] | p # ps \<Rightarrow> (x # p) # ps))"

fun split1 :: "char \<Rightarrow> string \<Rightarrow> (string \<times> string) option" where
  "split1 c [] = None"
| "split1 c (x # xs) =
     (if x = c then Some ([], xs) else map_option (\<lambda>(a, b). (x # a, b)) (split1 c xs))"

definition rsplit1 :: "char \<Rightarrow> string \<Rightarrow> (string \<times> string) option" where
  "rsplit1 c s = map_option (\<lambda>(a, b). (rev b, rev a)) (split1 c (rev s))"

definition rfind :: "char \<Rightarrow> string \<Rightarrow> int" where
  "rfind c s = (case rsplit1 c s of None \<Rightarrow> -1 | Some (a, b) \<Rightarrow> int (length a))"

lemma split1_Some: "split1 c s = Some (a, b) \<longleftrightarrow> s = a @ c # b \<and> c \<notin> set a"
  by (induction s arbitrary: a b) (auto simp: Cons_eq_append_conv)

lemma split1_None: "split1 c s = None \<longleftrightarrow> c \<notin> set s"
  by (induction s) (auto simp: eq_commute)

lemma rsplit1_Some: "rsplit1 c s = Some (a, b) \<longleftrightarrow> s = a @ c # b \<and> c \<notin> set b"
proof -
  have "rsplit1 c s = Some (a, b) \<longleftrightarrow> split1 c (rev s) = Some (rev b, rev a)"
    by (force simp: rsplit1_def)
  also have "\<dots> \<longleftrightarrow> rev s = rev b @ c # rev a \<and> c \<notin> set b" by (simp add: split1_Some)
  also have "rev s = rev b @ c # rev a \<longleftrightarrow> s = a @ c # b"
    by (metis append.assoc append_Cons append_Nil rev.simps(2) rev_append rev_rev_ident)
  finally show ?thesis .
qed

lemma rsplit1_None: "rsplit1 c s = None \<longleftrightarrow> c \<notin> set s"
  by (simp add: rsplit1_def split1_None)

lemma split_on_nonempty [simp]: "split_on c s \<noteq> []"
  by (cases s) (auto split: list.splits)

lemma split_on_no_sep: "c \<notin> set s \<Longrightarrow> split_on c s = [s]"
  by (induction s) auto

lemma split_on_sep: "c \<notin> set a \<Longrightarrow> split_on c (a @ c # b) = a # split_on c b"
  by (induction a) auto

lemma split_on_set: "p \<in> set (split_on c s) \<Longrightarrow> c \<notin> set p \<and> set p \<subseteq> set s"
proof (induction s arbitrary: p)
  case (Cons x s)
  then show ?case
    by (cases "split_on c s") (force split: if_splits)+
qed simp

subsection \<open>float of a text\<close>

text \<open>Digits with single underscores between them; the result is the digits without them.\<close>

fun digit_part :: "string \<Rightarrow> string option" where
  "digit_part [] = None"
| "digit_part [c] = (if is_dec c then Some [c] else None)"
| "digit_part (c # d # s) =
     (if \<not> is_dec c then None
      else if d = CHR ''_'' then map_option ((#) c) (digit_part s)
      else map_option ((#) c) (digit_part (d # s)))"

definition opt_digit_part :: "string \<Rightarrow> string option" where
  "opt_digit_part s = (if s = [] then Some [] else digit_part s)"

definition signed_split :: "string \<Rightarrow> int \<times> string" where
  "signed_split s =
     (case s of
        [] \<Rightarrow> (1, [])
      | c # r \<Rightarrow> if c = CHR ''-'' then (-1, r) else if c = CHR ''+'' then (1, r) else (1, s))"

definition parse_mantissa :: "string \<Rightarrow> rat option" where
  "parse_mantissa s =
     (case split1 (CHR ''.'') s of
        None \<Rightarrow> map_option (\<lambda>ds. of_nat (nat_of_digits ds)) (digit_part s)
      | Some (a, b) \<Rightarrow>
          if a = [] \<and> b = [] then None
          else (case (opt_digit_part a, opt_digit_part b) of
              (Some x, Some y) \<Rightarrow>
                Some (of_nat (nat_of_digits (x @ y)) / 10 ^ length y)
            | _ \<Rightarrow> None))"

definition lower_e :: "char \<Rightarrow> char" where
  "lower_e c = (if c = CHR ''E'' then CHR ''e'' else c)"

definition parse_unsigned :: "string \<Rightarrow> rat option" where
  "parse_unsigned s =
     (case split1 (CHR ''e'') (map lower_e s) of
        None \<Rightarrow> parse_mantissa s
      | Some (m, x) \<Rightarrow>
          (case (parse_mantissa m, signed_split x) of
             (Some v, (sg, ds)) \<Rightarrow>
               map_option (\<lambda>d. if sg < 0 then v / 10 ^ nat_of_digits d else v * 10 ^ nat_of_digits d)
                 (digit_part ds)
           | _ \<Rightarrow> None))"

definition parse_float :: "string \<Rightarrow> rat result" where
  "parse_float text =
     (case signed_split (strip text) of (sg, s) \<Rightarrow>
        (case parse_unsigned s of
           Some v \<Rightarrow> Inr (of_int sg * v)
         | None \<Rightarrow> raise ValueError ''could not convert string to float'' [text]))"

lemma digit_part_dec: "s \<noteq> [] \<Longrightarrow> list_all is_dec s \<Longrightarrow> digit_part s = Some s"
proof (induction s rule: digit_part.induct)
  case (3 c d s)
  have "d \<noteq> CHR ''_''" using "3.prems" by (auto simp: is_dec_def)
  then show ?case using 3 by simp
qed auto

lemma dec_no_special: "list_all is_dec s \<Longrightarrow> c \<in> set s \<Longrightarrow> c \<notin> {CHR ''.'', CHR ''e'', CHR ''E'', CHR ''-'', CHR ''+''} \<and> \<not> is_space c"
  by (auto simp: list_all_iff is_dec_def is_space_def)

lemma parse_mantissa_decimal:
  assumes "list_all is_dec a" and "list_all is_dec b" and "a \<noteq> []" and "b \<noteq> []"
  shows "parse_mantissa (a @ ''.'' @ b) = Some (of_nat (nat_of_digits (a @ b)) / 10 ^ length b)"
proof -
  have "CHR ''.'' \<notin> set a" using assms(1) by (auto simp: list_all_iff is_dec_def)
  then have "split1 (CHR ''.'') (a @ ''.'' @ b) = Some (a, b)" by (simp add: split1_Some)
  then show ?thesis using assms by (simp add: parse_mantissa_def opt_digit_part_def digit_part_dec)
qed

text \<open>A decimal written with digits, one point and digits is read as the number it denotes.\<close>

lemma parse_float_decimal:
  assumes "list_all is_dec a" and "list_all is_dec b" and "a \<noteq> []" and "b \<noteq> []"
  shows "parse_float (a @ ''.'' @ b) = Inr (of_nat (nat_of_digits (a @ b)) / 10 ^ length b)"
proof -
  let ?s = "a @ ''.'' @ b"
  have sp: "strip ?s = ?s"
    using assms dec_no_special [OF assms(1)] dec_no_special [OF assms(2)]
    by (intro strip_fixed) (auto simp: hd_append last_append)
  obtain c r where a: "a = c # r" using assms(3) by (cases a) auto
  have "c \<noteq> CHR ''-'' \<and> c \<noteq> CHR ''+''" using dec_no_special [OF assms(1)] a by auto
  then have sg: "signed_split ?s = (1, ?s)" using a by (simp add: signed_split_def)
  have "\<forall>x \<in> set ?s. x \<noteq> CHR ''e'' \<and> x \<noteq> CHR ''E''"
    using dec_no_special [OF assms(1)] dec_no_special [OF assms(2)] by fastforce
  then have "CHR ''e'' \<notin> set (map lower_e ?s)" by (auto simp: lower_e_def split: if_splits)
  then have "parse_unsigned ?s = parse_mantissa ?s"
    by (simp add: parse_unsigned_def split1_None [THEN iffD2])
  then show ?thesis using sp sg parse_mantissa_decimal [OF assms] by (simp add: parse_float_def)
qed

end
