(* ===== verification/Normalize.thy ===== *)
theory Normalize
  imports Py_Text
begin

section \<open>Rounding and decimal notation (application/normalize.py)\<close>

text \<open>
  \<open>quantize\<close> rounds a measured value to four decimal digits in the mode of the rule,
  \<open>measured_delta\<close> subtracts two measurements as decimals, and \<open>localize_decimal\<close> turns a Russian
  or English digit grouping into the text \<open>float\<close> reads. A measurement is the decimal its \<open>repr\<close>
  prints, so \<open>Decimal(str(x))\<close> is \<open>x\<close>. The decimal context holds 28 digits: \<open>quantize\<close> raises
  \<open>InvalidOperation\<close> beyond that; subtraction of values that need more than 28 digits, which the
  context would round, is not represented.
\<close>

datatype rounding_mode = Half_Up | Half_Even | Floor | Ceil

text \<open>\<open>_ROUNDING.get(rounding, ROUND_HALF_UP)\<close>: \<open>none\<close> keeps the value.\<close>

definition rounding_of :: "string \<Rightarrow> rounding_mode option" where
  "rounding_of name =
     (case map_of [(''none'', None), (''half_up'', Some Half_Up), (''half_even'', Some Half_Even),
                   (''floor'', Some Floor), (''ceil'', Some Ceil)] name of
        Some m \<Rightarrow> m
      | None \<Rightarrow> Some Half_Up)"

text \<open>Ties of \<open>ROUND_HALF_UP\<close> go away from zero.\<close>

fun round_int :: "rounding_mode \<Rightarrow> rat \<Rightarrow> int" where
  "round_int Half_Up x = (if x < 0 then - floor (- x + 1 / 2) else floor (x + 1 / 2))"
| "round_int Half_Even x =
     (let f = floor x; r = x - of_int f
      in if r < 1 / 2 then f
         else if r > 1 / 2 then f + 1
         else if even f then f else f + 1)"
| "round_int Floor x = floor x"
| "round_int Ceil x = ceiling x"

definition quantize :: "rat \<Rightarrow> string \<Rightarrow> rat result" where
  "quantize x rounding =
     (case rounding_of rounding of
        None \<Rightarrow> Inr x
      | Some m \<Rightarrow>
          let q = round_int m (x * 10000)
          in if \<bar>q\<bar> \<ge> 10 ^ 28 then raise ValueError ''InvalidOperation: quantize'' []
             else Inr (of_int q / 10000))"

definition measured_delta :: "rat \<Rightarrow> rat \<Rightarrow> rat" where
  "measured_delta actual expected = actual - expected"

lemma round_int_close: "\<bar>of_int (round_int m x) - x\<bar> < (1 :: rat)"
proof (cases m)
  case Half_Up
  have "\<bar>of_int (- floor (- x + 1 / 2)) - x\<bar> < 1" using floor_correct [of "- x + 1 / 2"] by linarith
  moreover have "\<bar>of_int (floor (x + 1 / 2)) - x\<bar> < 1" using floor_correct [of "x + 1 / 2"] by linarith
  ultimately show ?thesis using Half_Up by simp
next
  case Half_Even
  then show ?thesis
    using floor_correct [of x] by (simp add: Let_def abs_if) linarith
next
  case Floor
  then show ?thesis using floor_correct [of x] by simp
next
  case Ceil
  then show ?thesis using ceiling_correct [of x] by simp
qed

lemma round_int_of_int [simp]: "round_int m (of_int i) = i"
proof (cases m)
  case Half_Up
  have "floor (of_int k + 1 / 2 :: rat) = k" for k by (simp add: floor_unique)
  from this [of i] this [of "- i"] Half_Up show ?thesis by simp
qed (simp_all add: Let_def)

lemma quantize_close:
  assumes "quantize x r = Inr q"
  shows "\<bar>q - x\<bar> < 1 / 10000"
proof (cases "rounding_of r")
  case None
  with assms show ?thesis by (simp add: quantize_def)
next
  case (Some m)
  with assms have "q = of_int (round_int m (x * 10000)) / 10000"
    by (auto simp: quantize_def Let_def split: if_splits)
  then show ?thesis using round_int_close [of m "x * 10000"] by (simp add: abs_if field_simps split: if_splits)
qed

text \<open>A value that already has four decimal digits is unchanged, so rounding twice is rounding once.\<close>

lemma quantize_grid:
  assumes "\<bar>i\<bar> < 10 ^ 28"
  shows "quantize (of_int i / 10000) r = Inr (of_int i / 10000)"
  using assms by (auto simp: quantize_def Let_def split: option.splits)

lemma quantize_idem:
  assumes "quantize x r = Inr q"
  shows "quantize q r = Inr q"
proof (cases "rounding_of r")
  case None
  then show ?thesis by (simp add: quantize_def)
next
  case (Some m)
  with assms have "q = of_int (round_int m (x * 10000)) / 10000" and "\<bar>round_int m (x * 10000)\<bar> < 10 ^ 28"
    by (auto simp: quantize_def Let_def not_le split: if_splits)
  then show ?thesis using quantize_grid by blast
qed

subsection \<open>Decimal notation\<close>

definition valid_thousand_chunks :: "string list \<Rightarrow> bool" where
  "valid_thousand_chunks chunks =
     (case chunks of
        [] \<Rightarrow> False
      | c # cs \<Rightarrow> isdigit c \<and> 1 \<le> length c \<and> length c \<le> 3 \<and>
          list_all (\<lambda>d. isdigit d \<and> length d = 3) cs)"

definition mixed_separators :: "string \<Rightarrow> char \<Rightarrow> char \<Rightarrow> string result" where
  "mixed_separators text thousands decimal =
     (case rsplit1 decimal text of
        None \<Rightarrow> raise ValueError ''not enough values to unpack'' [text]
      | Some (whole, fract) \<Rightarrow>
          if \<not> isdigit fract then raise ValueError ''fraction is not digits'' [text]
          else bindr
            (if thousands \<in> set whole then
               (let chunks = split_on thousands whole
                in if \<not> valid_thousand_chunks chunks then
                     raise ValueError ''thousand groups are not three digits'' [text]
                   else Inr (concat chunks))
             else Inr whole)
            (\<lambda>digits. if \<not> isdigit digits then raise ValueError ''integer part is not a number'' [text]
                      else Inr (digits @ ''.'' @ fract)))"

definition localize_decimal :: "string \<Rightarrow> string result" where
  "localize_decimal text =
     (let comma = CHR '',''; dot = CHR ''.''; last_comma = rfind comma text; last_dot = rfind dot text
      in if text = [] then Inr text
         else if last_comma \<noteq> -1 \<and> last_dot \<noteq> -1 then
           (if last_comma > last_dot then mixed_separators text dot comma
            else mixed_separators text comma dot)
         else if last_dot \<noteq> -1 then
           (if count_list text dot = 1 then
              (case split1 dot text of
                 None \<Rightarrow> Inr text
               | Some (left, right) \<Rightarrow>
                   if isdigit left \<and> isdigit right \<and> \<not> starts_with left ''0'' \<and>
                      length left = 1 \<and> length right = 3
                   then raise ValueError ''ambiguous: thousands or fraction'' [text]
                   else Inr text)
            else if valid_thousand_chunks (split_on dot text) then Inr (concat (split_on dot text))
            else raise ValueError ''thousand groups are not three digits'' [text])
         else if last_comma \<noteq> -1 then
           (if count_list text comma = 1 then
              Inr (map (\<lambda>c. if c = comma then dot else c) text)
            else if valid_thousand_chunks (split_on comma text) then
              Inr (concat (split_on comma text))
            else raise ValueError ''thousand groups are not three digits'' [text])
         else Inr text)"

lemma rfind_minus_one: "rfind c s = -1 \<longleftrightarrow> c \<notin> set s"
  using rsplit1_None [of c s] by (cases "rsplit1 c s") (auto simp: rfind_def rsplit1_Some)

lemma isdigit_not_sep: "isdigit s \<Longrightarrow> CHR '','' \<notin> set s \<and> CHR ''.'' \<notin> set s"
  by (auto simp: isdigit_def list_all_iff is_dec_def)

lemma valid_chunks_digits: "valid_thousand_chunks cs \<Longrightarrow> isdigit (concat cs)"
  by (cases cs) (auto simp: valid_thousand_chunks_def isdigit_def list_all_iff)

lemma mixed_separators_result:
  "mixed_separators text t d = Inr s \<Longrightarrow> \<exists>a b. s = a @ ''.'' @ b \<and> isdigit a \<and> isdigit b"
  by (auto simp: mixed_separators_def bindr_eq_Inr split: option.splits if_splits) blast+

text \<open>
  Whatever grouping it meets, the localiser either refuses the text or returns one without a
  comma and with at most one point: the shape \<open>float\<close> reads without guessing.
\<close>

theorem localized_text_has_one_point:
  assumes "localize_decimal text = Inr s"
  shows "CHR '','' \<notin> set s \<and> count_list s (CHR ''.'') \<le> 1"
proof -
  have none: "count_list s c = 0" if "c \<notin> set s" for s and c :: char
    using that by (simp add: count_list_0_iff)
  have digits: "CHR '','' \<notin> set d \<and> count_list d (CHR ''.'') \<le> 1" if "isdigit d" for d
    using isdigit_not_sep [OF that] none by fastforce
  have mixed: "CHR '','' \<notin> set s \<and> count_list s (CHR ''.'') \<le> 1"
    if m: "mixed_separators text t d = Inr s" for t d
  proof -
    from mixed_separators_result [OF m] obtain a b
      where "s = a @ ''.'' @ b" "isdigit a" "isdigit b" by blast
    then show ?thesis using isdigit_not_sep [of a] isdigit_not_sep [of b] none by auto
  qed
  have swap: "CHR '','' \<notin> set (map (\<lambda>c. if c = CHR '','' then CHR ''.'' else c) t) \<and>
      count_list (map (\<lambda>c. if c = CHR '','' then CHR ''.'' else c) t) (CHR ''.'') =
        count_list t (CHR '','')" if "CHR ''.'' \<notin> set t" for t
    using that by (induction t) auto
  show ?thesis
    using assms mixed digits [OF valid_chunks_digits] swap [of "text"]
    by (auto simp: localize_decimal_def Let_def rfind_minus_one none
        split: if_splits option.splits)
qed

theorem localized_text_has_one_point_witness:
  "CHR '','' \<notin> set ''1254300.5'' \<and> count_list ''1254300.5'' (CHR ''.'') \<le> 1"
proof (rule localized_text_has_one_point)
  show "localize_decimal ''1.254.300,5'' = Inr ''1254300.5''" by code_simp
qed

end
