(* ===== verification/Json.thy ===== *)
theory Json
  imports Py_Text "HOL-Library.Multiset"
begin

section \<open>JSON-shaped Python values\<close>

text \<open>
  Rules, protocol payloads and audit details are Python values made of dictionaries with string
  keys, lists and scalars. \<open>JInt\<close>, \<open>JFloat\<close> and \<open>JBool\<close> are kept apart because the code tests
  \<open>isinstance\<close>; a \<open>bool\<close> is an \<open>int\<close> there, and so it is here.
  \<open>canon\<close> is the value read back from \<open>json.dumps(v, sort_keys=True)\<close>: the same tree with every
  dictionary sorted by key. The canonical text itself is represented by that tree: two values
  have the same canonical text exactly when their canonical trees are equal.
\<close>

datatype json =
    JNull
  | JBool bool
  | JInt int
  | JFloat rat
  | JStr string
  | JArr "json list"
  | JObj "(string \<times> json) list"

fun jget :: "json \<Rightarrow> string \<Rightarrow> json option" where
  "jget (JObj kvs) k = map_of kvs k"
| "jget _ k = None"

fun jtruthy :: "json \<Rightarrow> bool" where
  "jtruthy JNull = False"
| "jtruthy (JBool b) = b"
| "jtruthy (JInt i) = (i \<noteq> 0)"
| "jtruthy (JFloat x) = (x \<noteq> 0)"
| "jtruthy (JStr s) = (s \<noteq> [])"
| "jtruthy (JArr xs) = (xs \<noteq> [])"
| "jtruthy (JObj kvs) = (kvs \<noteq> [])"

text \<open>\<open>isinstance(v, int | float)\<close> with the number it stands for.\<close>

fun jnumber :: "json \<Rightarrow> rat option" where
  "jnumber (JBool b) = Some (if b then 1 else 0)"
| "jnumber (JInt i) = Some (of_int i)"
| "jnumber (JFloat x) = Some x"
| "jnumber _ = None"

text \<open>\<open>isinstance(v, int) and not isinstance(v, bool)\<close>.\<close>

fun jint :: "json \<Rightarrow> int option" where
  "jint (JInt i) = Some i"
| "jint _ = None"

fun jstr :: "json \<Rightarrow> string option" where
  "jstr (JStr s) = Some s"
| "jstr _ = None"

subsection \<open>str and repr\<close>

definition hex_digit :: "nat \<Rightarrow> char" where
  "hex_digit n = (if n < 10 then digit_char n else char_of (87 + n))"

definition printable :: "nat \<Rightarrow> bool" where
  "printable n = ((32 \<le> n \<and> n \<le> 126) \<or> (128 \<le> n \<and> n \<notin> {152, 160, 173}))"

definition repr_char :: "char \<Rightarrow> char \<Rightarrow> string" where
  "repr_char quote c =
     (let n = (of_char c :: nat)
      in if n = 92 then [c, c]
         else if c = quote then [char_of (92::nat), c]
         else if n = 10 then [char_of (92::nat), CHR ''n'']
         else if n = 13 then [char_of (92::nat), CHR ''r'']
         else if n = 9 then [char_of (92::nat), CHR ''t'']
         else if printable n then [c]
         else [char_of (92::nat), CHR ''x'', hex_digit (n div 16), hex_digit (n mod 16)])"

definition repr_str :: "string \<Rightarrow> string" where
  "repr_str s =
     (let single = char_of (39::nat); double = char_of (34::nat);
          q = (if single \<in> set s \<and> double \<notin> set s then double else single)
      in [q] @ concat (map (repr_char q) s) @ [q])"

fun join :: "string \<Rightarrow> string list \<Rightarrow> string" where
  "join sep [] = []"
| "join sep [s] = s"
| "join sep (s # t # ts) = s @ sep @ join sep (t # ts)"

fun py_repr :: "json \<Rightarrow> string" where
  "py_repr JNull = ''None''"
| "py_repr (JBool b) = (if b then ''True'' else ''False'')"
| "py_repr (JInt i) = show_int i"
| "py_repr (JFloat x) = show_float x"
| "py_repr (JStr s) = repr_str s"
| "py_repr (JArr xs) = ''['' @ join '', '' (map py_repr xs) @ '']''"
| "py_repr (JObj kvs) =
     ''{'' @ join '', '' (map (\<lambda>(k, v). repr_str k @ '': '' @ py_repr v) kvs) @ ''}''"

fun py_str :: "json \<Rightarrow> string" where
  "py_str (JStr s) = s"
| "py_str v = py_repr v"

subsection \<open>Canonical form\<close>

fun canon :: "json \<Rightarrow> json" where
  "canon (JArr xs) = JArr (map canon xs)"
| "canon (JObj kvs) = JObj (sort_key fst (map (\<lambda>(k, v). (k, canon v)) kvs))"
| "canon v = v"

text \<open>A Python dictionary has no key twice, at any depth.\<close>

fun wf_json :: "json \<Rightarrow> bool" where
  "wf_json (JArr xs) = list_all wf_json xs"
| "wf_json (JObj kvs) = (distinct (map fst kvs) \<and> list_all (\<lambda>(k, v). wf_json v) kvs)"
| "wf_json v = True"

lemma canon_canon [simp]: "canon (canon j) = canon j"
proof (induction j rule: canon.induct)
  case (1 xs)
  then show ?case by simp
next
  case (2 kvs)
  let ?m = "map (\<lambda>(k, v). (k, canon v)) kvs"
  have "map (\<lambda>(k, v). (k, canon v)) (sort_key fst ?m) = sort_key fst ?m"
  proof (rule map_idI)
    fix p
    assume "p \<in> set (sort_key fst ?m)"
    then obtain k v where p: "(k, v) \<in> set kvs" "p = (k, canon v)" by auto
    have "canon (canon v) = canon v" by (rule "2" [OF p(1) refl])
    with p(2) show "(case p of (k, v) \<Rightarrow> (k, canon v)) = p" by simp
  qed
  then show ?case by (simp add: sort_key_id_if_sorted)
qed auto

lemma distinct_sort_key_fst: "distinct (map fst (sort_key fst kvs)) = distinct (map fst kvs)"
  by (rule mset_eq_imp_distinct_iff) simp

lemma map_of_sort_key:
  assumes "distinct (map fst kvs)"
  shows "map_of (sort_key fst kvs) = map_of kvs"
proof (rule map_of_eqI)
  show "set (map fst (sort_key fst kvs)) = set (map fst kvs)" by simp
  show "\<forall>k \<in> set (map fst (sort_key fst kvs)). map_of (sort_key fst kvs) k = map_of kvs k"
  proof
    fix k
    assume "k \<in> set (map fst (sort_key fst kvs))"
    then obtain v where v: "(k, v) \<in> set kvs" by auto
    then have "map_of kvs k = Some v" using assms by simp
    moreover have "map_of (sort_key fst kvs) k = Some v"
      using v assms by (intro map_of_is_SomeI) (simp_all add: distinct_sort_key_fst)
    ultimately show "map_of (sort_key fst kvs) k = map_of kvs k" by simp
  qed
qed

text \<open>Reading a key of a canonical copy gives the canonical copy of the value.\<close>

lemma jget_canon_obj:
  assumes "distinct (map fst kvs)"
  shows "jget (canon (JObj kvs)) k = map_option canon (map_of kvs k)"
proof -
  let ?m = "map (\<lambda>(k, v). (k, canon v)) kvs"
  have "distinct (map fst ?m)" using assms by (simp add: comp_def case_prod_unfold)
  then have "map_of (sort_key fst ?m) k = map_of ?m k" by (simp add: map_of_sort_key)
  also have "\<dots> = map_option canon (map_of kvs k)"
    by (induction kvs) auto
  finally show ?thesis by simp
qed

lemma jget_canon:
  assumes "wf_json j"
  shows "jget (canon j) k = map_option canon (jget j k)"
proof (cases j)
  case (JObj kvs)
  with assms jget_canon_obj [of kvs k] show ?thesis by (simp del: canon.simps(2))
qed simp_all

lemma canon_scalar [simp]:
  "canon j = JStr s \<longleftrightarrow> j = JStr s" "canon j = JInt i \<longleftrightarrow> j = JInt i"
  "canon j = JBool b \<longleftrightarrow> j = JBool b" "canon j = JNull \<longleftrightarrow> j = JNull"
  by (cases j; auto)+

lemma wf_json_canon [simp]: "wf_json j \<Longrightarrow> wf_json (canon j)"
proof (induction j rule: canon.induct)
  case (1 xs)
  then show ?case by (auto simp: list_all_iff)
next
  case (2 kvs)
  then show ?case
    by (auto simp: list_all_iff distinct_sort_key_fst comp_def case_prod_unfold)
qed auto

end
