(* ===== verification/Comparators.thy ===== *)
theory Comparators
  imports Normalize Json Models
begin

section \<open>Comparators (application/comparators.py)\<close>

text \<open>
  The deterministic operators of the rule matrix. A rule is the dictionary read from the matrix,
  a \<open>json\<close> object, because the code tests the types of its entries; \<open>object\<close> arguments are
  \<open>json\<close> values too. A comparison carries the status, both values, the difference and the
  rationale as a list of (fixed text, interpolated values) parts. Arithmetic on floats is exact:
  the quotient of the relative tolerance is not rounded.
\<close>

record comparison =
  cmp_status :: finding_status
  cmp_expected :: py_scalar
  cmp_actual :: py_scalar
  cmp_delta :: py_scalar
  cmp_rationale :: "(string \<times> string list) list"

definition mk_comparison ::
  "finding_status \<Rightarrow> py_scalar \<Rightarrow> py_scalar \<Rightarrow> py_scalar \<Rightarrow> (string \<times> string list) list \<Rightarrow> comparison result" where
  "mk_comparison st e a d why =
     (if st \<in> {CONFIRMED_VIOLATION, NEGATIVE_VERIFIED} then
        raise ValueError ''a comparator may not give a human verdict'' []
      else Inr \<lparr>cmp_status = st, cmp_expected = e, cmp_actual = a, cmp_delta = d, cmp_rationale = why\<rparr>)"

abbreviation auto_or_candidate :: "bool \<Rightarrow> finding_status" where
  "auto_or_candidate ok \<equiv> (if ok then AUTO_NO_DIFFERENCE else CANDIDATE)"

subsection \<open>Reading the rule\<close>

text \<open>\<open>rule.get(key)\<close> with a missing key read as \<open>None\<close>; \<open>str(rule.get(key) or default)\<close>.\<close>

definition entry :: "json \<Rightarrow> string \<Rightarrow> json" where
  "entry d k = (case jget d k of None \<Rightarrow> JNull | Some v \<Rightarrow> v)"

definition text_or :: "json \<Rightarrow> string \<Rightarrow> string" where
  "text_or v dflt = (if jtruthy v then py_str v else dflt)"

definition comparator_dict :: "json \<Rightarrow> json result" where
  "comparator_dict rule =
     (case entry rule ''comparator'' of
        JObj kvs \<Rightarrow> Inr (JObj kvs)
      | _ \<Rightarrow> raise TypeError ''the rule has no comparator'' [])"

definition tolerance :: "json \<Rightarrow> (rat option \<times> rat option \<times> string) result" where
  "tolerance rule =
     bindr (comparator_dict rule) (\<lambda>c.
       Inr (jnumber (entry c ''tolerance_abs''), jnumber (entry c ''tolerance_rel''),
            text_or (entry c ''rounding'') ''half_up''))"

definition unit_of :: "json \<Rightarrow> string" where
  "unit_of rule = text_or (entry rule ''unit'') []"

text \<open>\<open>float(x)\<close> of an arbitrary value.\<close>

definition py_float :: "json \<Rightarrow> rat result" where
  "py_float v =
     (case v of
        JStr s \<Rightarrow> parse_float s
      | _ \<Rightarrow> (case jnumber v of
                Some x \<Rightarrow> Inr x
              | None \<Rightarrow> raise TypeError ''float() argument must be a string or a real number'' [py_repr v]))"

subsection \<open>Numeric operators\<close>

definition within_tolerance :: "rat option \<Rightarrow> rat option \<Rightarrow> rat \<Rightarrow> rat \<Rightarrow> bool" where
  "within_tolerance abs_tol rel_tol left right =
     (let distance = \<bar>measured_delta right left\<bar>;
          within1 = (case abs_tol of Some t \<Rightarrow> distance \<le> t | None \<Rightarrow> False);
          within2 = (case rel_tol of
                       Some t \<Rightarrow>
                         (let scale = max (max \<bar>left\<bar> \<bar>right\<bar>) (1 / 10 ^ 12)
                          in if distance / scale \<le> t then True else within1)
                     | None \<Rightarrow> within1)
      in if abs_tol = None \<and> rel_tol = None then left = right else within2)"

definition compare_delta :: "rat \<Rightarrow> rat \<Rightarrow> json \<Rightarrow> comparison result" where
  "compare_delta expected actual rule =
     bindr (tolerance rule) (\<lambda>(abs_tol, rel_tol, rounding).
     bindr (quantize expected rounding) (\<lambda>left.
     bindr (quantize actual rounding) (\<lambda>right.
       (let delta = measured_delta right left; unit = unit_of rule
        in if within_tolerance abs_tol rel_tol left right then
             mk_comparison AUTO_NO_DIFFERENCE (PyFloat left) (PyFloat right) (PyFloat delta)
               [(''values agree within the tolerance'',
                 [show_float expected, unit, show_float actual, unit])]
           else
             mk_comparison CANDIDATE (PyFloat left) (PyFloat right) (PyFloat delta)
               [(''difference: expected, got'',
                 [show_float delta, unit, show_float left, show_float right])]))))"

definition ordering_holds :: "string \<Rightarrow> rat \<Rightarrow> rat \<Rightarrow> bool option" where
  "ordering_holds op actual ref =
     map_of [(''eq'', actual = ref), (''ne'', actual \<noteq> ref), (''lt'', actual < ref),
             (''le'', actual \<le> ref), (''gt'', actual > ref), (''ge'', actual \<ge> ref)] op"

definition compare_ordering :: "rat \<Rightarrow> rat \<Rightarrow> json \<Rightarrow> comparison result" where
  "compare_ordering expected actual rule =
     bindr (comparator_dict rule) (\<lambda>c.
       (let operator = (case jget c ''operator'' of None \<Rightarrow> [] | Some v \<Rightarrow> py_str v);
            ref = (case jnumber (entry c ''value'') of Some x \<Rightarrow> x | None \<Rightarrow> expected);
            unit = unit_of rule
        in case ordering_holds operator actual ref of
             None \<Rightarrow> raise ValueError ''compare_ordering: unknown operator'' [operator]
           | Some ok \<Rightarrow>
               mk_comparison (auto_or_candidate ok) (PyFloat ref) (PyFloat actual)
                 (PyFloat (measured_delta actual ref))
                 [(if ok then ''fulfilled'' else ''violated'',
                   [show_float actual, unit, operator, show_float ref, unit])]))"

definition show_bound :: "rat option \<Rightarrow> string" where
  "show_bound b = (case b of None \<Rightarrow> ''None'' | Some x \<Rightarrow> show_float x)"

definition compare_range :: "rat \<Rightarrow> rat \<Rightarrow> json \<Rightarrow> comparison result" where
  "compare_range expected actual rule =
     bindr (comparator_dict rule) (\<lambda>c.
       (let min_f = jnumber (entry c ''min_value''); max_f = jnumber (entry c ''max_value'');
            unit = unit_of rule;
            low = (case min_f of Some m \<Rightarrow> actual < m | None \<Rightarrow> False);
            high = (case max_f of Some m \<Rightarrow> actual > m | None \<Rightarrow> False);
            in_range = (\<not> low \<and> \<not> high);
            reasons =
              (if low then [(''below the lower bound'', [show_float actual, unit, show_bound min_f, unit])]
               else []) @
              (if high then [(''above the upper bound'', [show_float actual, unit, show_bound max_f, unit])]
               else []) @
              (if in_range then
                 [(''in the range'', [show_float actual, unit, show_bound min_f, show_bound max_f, unit])]
               else [])
        in mk_comparison (auto_or_candidate in_range) (PyFloat expected) (PyFloat actual)
             (PyFloat (measured_delta actual expected)) reasons))"

subsection \<open>Set operators\<close>

definition upper_key :: "string \<Rightarrow> string" where
  "upper_key s = str_upper (strip s)"

definition list_items :: "json \<Rightarrow> json list" where
  "list_items v = (case v of JArr xs \<Rightarrow> xs | _ \<Rightarrow> [])"

definition compare_set_membership :: "json \<Rightarrow> json \<Rightarrow> comparison result" where
  "compare_set_membership actual_raw rule =
     bindr (comparator_dict rule) (\<lambda>c.
       (let operator = (case jget c ''operator'' of None \<Rightarrow> [] | Some v \<Rightarrow> py_str v);
            allowed = map (\<lambda>v. upper_key (py_str v)) (list_items (entry c ''value''));
            in_set = (upper_key (py_str actual_raw) \<in> set allowed);
            ok = (if operator = ''in_set'' then in_set else \<not> in_set)
        in mk_comparison (auto_or_candidate ok)
             (PyFloat (if operator = ''in_set'' then 1 else 0))
             (PyFloat (if in_set then 1 else 0))
             (PyFloat (if ok then 0 else - 1))
             [(if ok then ''fulfilled'' else ''violated'',
               [py_repr actual_raw, if in_set then ''present'' else ''absent''])]))"

subsection \<open>The ordered-class operator\<close>

text \<open>Russian capitals that look like Latin ones, as codes of the page.\<close>

definition HOMOGLYPH_FOLD :: "(nat \<times> nat) list" where
  "HOMOGLYPH_FOLD =
     [(192, 65), (194, 66), (197, 69), (202, 75), (204, 77), (205, 72),
      (206, 79), (208, 80), (209, 67), (210, 84), (211, 89), (213, 88)]"

definition fold_homoglyphs :: "string \<Rightarrow> string" where
  "fold_homoglyphs value =
     map (\<lambda>c. case map_of HOMOGLYPH_FOLD (of_char c) of Some n \<Rightarrow> char_of n | None \<Rightarrow> c) value"

definition class_key :: "string \<Rightarrow> string" where
  "class_key s = fold_homoglyphs (str_upper (strip s))"

fun rank_from :: "nat \<Rightarrow> string \<Rightarrow> string list \<Rightarrow> nat option" where
  "rank_from i key [] = None"
| "rank_from i key (item # items) =
     (if class_key item = key then Some i else rank_from (Suc i) key items)"

definition class_rank :: "string \<Rightarrow> string list \<Rightarrow> nat result" where
  "class_rank value ordered =
     (case rank_from 0 (class_key value) ordered of
        Some i \<Rightarrow> Inr i
      | None \<Rightarrow> raise ValueError ''value is not in the ordered list'' (value # ordered))"

definition compare_class_not_lower :: "string \<Rightarrow> string \<Rightarrow> json \<Rightarrow> comparison result" where
  "compare_class_not_lower expected actual rule =
     bindr (comparator_dict rule) (\<lambda>c.
       (let ordered = map py_str (list_items (entry c ''value''))
        in if ordered = [] then
             raise ValueError ''class_not_lower needs a non-empty comparator.value''
               [py_str (entry rule ''code'')]
           else
             bindr (class_rank expected ordered) (\<lambda>exp_rank.
             bindr (class_rank actual ordered) (\<lambda>act_rank.
               (let delta = of_int (int act_rank - int exp_rank)
                in if act_rank < exp_rank then
                     mk_comparison CANDIDATE (PyFloat (of_nat exp_rank)) (PyFloat (of_nat act_rank))
                       (PyFloat delta)
                       [(''class lowered'', [expected, show_nat exp_rank, actual, show_nat act_rank])]
                   else
                     mk_comparison AUTO_NO_DIFFERENCE (PyFloat (of_nat exp_rank))
                       (PyFloat (of_nat act_rank)) (PyFloat delta)
                       [(''class not lowered'', [expected, actual])])))))"

subsection \<open>Text and presence operators\<close>

definition compare_exact_field :: "string \<Rightarrow> string \<Rightarrow> json \<Rightarrow> comparison result" where
  "compare_exact_field expected actual rule =
     bindr (comparator_dict rule) (\<lambda>c.
       (let operator = (case jget c ''operator'' of None \<Rightarrow> ''eq'' | Some v \<Rightarrow> py_str v);
            ok = (if operator = ''eq'' then expected = actual else expected \<noteq> actual)
        in if operator \<notin> {''eq'', ''ne''} then
             raise ValueError ''exact_field: unknown operator'' [operator]
           else
             mk_comparison (auto_or_candidate ok) (PyStr expected) (PyStr actual)
               (PyFloat (if ok then 0 else 1))
               [(if ok then ''text field agrees'' else ''text field differs'',
                 [operator, repr_str expected, repr_str actual])]))"

definition compare_presence :: "json \<Rightarrow> json \<Rightarrow> comparison result" where
  "compare_presence actual rule =
     (let present = jtruthy actual
      in mk_comparison (if present then AUTO_NO_DIFFERENCE else MISSING_EVIDENCE)
           (PyFloat 1) (PyFloat (if present then 1 else 0)) (PyFloat (if present then 0 else - 1))
           [(if present then ''element present'' else ''element absent: no evidence formed'', [])])"

subsection \<open>The direction of a trigger\<close>

text \<open>
  The stems of the Russian words for difference, change, substitution, shift and replacement; of
  decrease, lowering, less strong and less plastic; of increase and excess.
\<close>

definition neutral_stems :: "string list" where
  "neutral_stems = map cyr
     [[240, 224, 241, 245, 238, 230, 228, 229, 237],
      [232, 231, 236, 229, 237, 229, 237],
      [239, 238, 228, 236, 229, 237],
      [241, 228, 226, 232, 227],
      [231, 224, 236, 229, 237]]"

definition decrease_stems :: "string list" where
  "decrease_stems = map cyr
     [[243, 236, 229, 237, 252, 248, 229, 237],
      [239, 238, 237, 232, 230, 229, 237],
      [236, 229, 237, 229, 229, 32, 239, 240, 238, 247, 237],
      [236, 229, 237, 229, 229, 32, 239, 235, 224, 241, 242, 232, 247]]"

definition increase_stems :: "string list" where
  "increase_stems = map cyr
     [[243, 226, 229, 235, 232, 247, 229, 237],
      [239, 240, 229, 226, 251, 248, 229, 237]]"

datatype sense = Decrease | Increase

definition io_to_ie :: "char \<Rightarrow> char" where
  "io_to_ie c = (if c = char_of (184 :: nat) then char_of (229 :: nat) else c)"

definition trigger_sense :: "json \<Rightarrow> sense option" where
  "trigger_sense rule =
     (let text = map io_to_ie (str_lower (text_or (entry rule ''source_trigger_logic'') []))
      in if text = [] then None
         else if list_ex (contains text) neutral_stems then None
         else
           (let decrease = list_ex (contains text) decrease_stems;
                increase = list_ex (contains text) increase_stems
            in if decrease = increase then None
               else if decrease then Some Decrease else Some Increase))"

definition show_scalar :: "py_scalar \<Rightarrow> string" where
  "show_scalar v = (case v of PyStr s \<Rightarrow> s | PyFloat x \<Rightarrow> show_float x
                     | PyBool b \<Rightarrow> if b then ''True'' else ''False'')"

definition opposite_of_trigger :: "comparison \<Rightarrow> json \<Rightarrow> comparison result" where
  "opposite_of_trigger c rule =
     (if cmp_status c \<noteq> CANDIDATE then Inr c
      else case trigger_sense rule of
        None \<Rightarrow> Inr c
      | Some sense \<Rightarrow>
          (case (cmp_expected c, cmp_actual c) of
             (PyFloat expected, PyFloat actual) \<Rightarrow>
               if (sense = Decrease \<and> actual \<ge> expected) \<or> (sense = Increase \<and> actual \<le> expected)
               then mk_comparison AUTO_NO_DIFFERENCE (cmp_expected c) (cmp_actual c) (cmp_delta c)
                      [(''the trigger looks the other way'',
                        [if sense = Decrease then ''decrease'' else ''increase'',
                         show_scalar (cmp_expected c), show_scalar (cmp_actual c)])]
               else Inr c
           | _ \<Rightarrow> Inr c))"

subsection \<open>The router\<close>

definition NUMERIC_OPERATORS :: "string list" where
  "NUMERIC_OPERATORS = [''delta'', ''eq'', ''ne'', ''lt'', ''le'', ''gt'', ''ge'', ''range'']"

definition SET_OPERATORS :: "string list" where
  "SET_OPERATORS = [''in_set'', ''not_in_set'']"

definition ALL_OPERATORS :: "string list" where
  "ALL_OPERATORS = NUMERIC_OPERATORS @ SET_OPERATORS @ [''class_not_lower''] @ [''present'']"

definition compare_values :: "json \<Rightarrow> json \<Rightarrow> json \<Rightarrow> comparison result" where
  "compare_values expected actual rule =
     bindr (comparator_dict rule) (\<lambda>c.
       (let operator = text_or (entry c ''operator'') []
        in if operator = ''delta'' then
             bindr (py_float expected) (\<lambda>e. bindr (py_float actual) (\<lambda>a.
               bindr (compare_delta e a rule) (\<lambda>r. opposite_of_trigger r rule)))
           else if operator \<in> {''eq'', ''ne''} \<and> jstr expected \<noteq> None \<and> jstr actual \<noteq> None then
             compare_exact_field (the (jstr expected)) (the (jstr actual)) rule
           else if operator \<in> {''eq'', ''ne'', ''lt'', ''le'', ''gt'', ''ge''} then
             bindr (py_float expected) (\<lambda>e. bindr (py_float actual) (\<lambda>a. compare_ordering e a rule))
           else if operator = ''range'' then
             bindr (py_float expected) (\<lambda>e. bindr (py_float actual) (\<lambda>a. compare_range e a rule))
           else if operator \<in> set SET_OPERATORS then compare_set_membership actual rule
           else if operator = ''class_not_lower'' then
             compare_class_not_lower (py_str expected) (py_str actual) rule
           else if operator = ''present'' then compare_presence actual rule
           else raise ValueError ''operator is not implemented''
                  [py_str (entry rule ''code''), repr_str operator]))"

subsection \<open>What a comparison can say\<close>

lemma mk_comparison_ok:
  "st \<in> {AUTO_NO_DIFFERENCE, CANDIDATE, MISSING_EVIDENCE} \<Longrightarrow>
   mk_comparison st e a d w =
     Inr \<lparr>cmp_status = st, cmp_expected = e, cmp_actual = a, cmp_delta = d, cmp_rationale = w\<rparr>"
  by (auto simp: mk_comparison_def)

lemma mk_comparison_machine [simp]:
  "mk_comparison AUTO_NO_DIFFERENCE e a d w =
     Inr \<lparr>cmp_status = AUTO_NO_DIFFERENCE, cmp_expected = e, cmp_actual = a, cmp_delta = d, cmp_rationale = w\<rparr>"
  "mk_comparison CANDIDATE e a d w =
     Inr \<lparr>cmp_status = CANDIDATE, cmp_expected = e, cmp_actual = a, cmp_delta = d, cmp_rationale = w\<rparr>"
  "mk_comparison MISSING_EVIDENCE e a d w =
     Inr \<lparr>cmp_status = MISSING_EVIDENCE, cmp_expected = e, cmp_actual = a, cmp_delta = d, cmp_rationale = w\<rparr>"
  by (simp_all add: mk_comparison_ok)

definition machine_outcome :: "comparison \<Rightarrow> bool" where
  "machine_outcome c = (cmp_status c = AUTO_NO_DIFFERENCE \<or> cmp_status c = CANDIDATE)"

lemma mk_comparison_auto_or_candidate [simp]:
  "mk_comparison (auto_or_candidate ok) e a d w =
     Inr \<lparr>cmp_status = auto_or_candidate ok, cmp_expected = e, cmp_actual = a, cmp_delta = d, cmp_rationale = w\<rparr>"
  by (cases ok) simp_all

lemma machine_outcome_auto_or_candidate [simp]:
  "machine_outcome \<lparr>cmp_status = auto_or_candidate ok, cmp_expected = e, cmp_actual = a, cmp_delta = d, cmp_rationale = w\<rparr>"
  by (simp add: machine_outcome_def)

lemma machine_outcome_constants [simp]:
  "machine_outcome \<lparr>cmp_status = AUTO_NO_DIFFERENCE, cmp_expected = e, cmp_actual = a, cmp_delta = d, cmp_rationale = w\<rparr>"
  "machine_outcome \<lparr>cmp_status = CANDIDATE, cmp_expected = e, cmp_actual = a, cmp_delta = d, cmp_rationale = w\<rparr>"
  by (simp_all add: machine_outcome_def)

lemma compare_delta_outcome: "compare_delta x y rule = Inr c \<Longrightarrow> machine_outcome c"
  by (auto simp: compare_delta_def bindr_eq_Inr Let_def split: if_split_asm)

lemma opposite_outcome: "opposite_of_trigger c rule = Inr d \<Longrightarrow> machine_outcome c \<Longrightarrow> machine_outcome d"
  by (auto simp: opposite_of_trigger_def split: if_split_asm option.splits py_scalar.splits)

lemma compare_ordering_outcome: "compare_ordering x y rule = Inr c \<Longrightarrow> machine_outcome c"
  by (auto simp: compare_ordering_def bindr_eq_Inr Let_def simp del: if_split split: option.splits)

lemma compare_range_outcome: "compare_range x y rule = Inr c \<Longrightarrow> machine_outcome c"
  by (auto simp only: compare_range_def bindr_eq_Inr Let_def mk_comparison_auto_or_candidate
      machine_outcome_auto_or_candidate sum.inject)

lemma compare_set_outcome: "compare_set_membership a rule = Inr c \<Longrightarrow> machine_outcome c"
  by (auto simp only: compare_set_membership_def bindr_eq_Inr Let_def mk_comparison_auto_or_candidate
      machine_outcome_auto_or_candidate sum.inject)

lemma compare_class_outcome: "compare_class_not_lower e a rule = Inr c \<Longrightarrow> machine_outcome c"
  by (auto simp: compare_class_not_lower_def bindr_eq_Inr Let_def split: if_split_asm)

lemma compare_exact_outcome: "compare_exact_field e a rule = Inr c \<Longrightarrow> machine_outcome c"
  by (auto simp: compare_exact_field_def bindr_eq_Inr Let_def split: if_split_asm)

lemma compare_presence_outcome:
  "compare_presence a rule = Inr c \<Longrightarrow> cmp_status c = (if jtruthy a then AUTO_NO_DIFFERENCE else MISSING_EVIDENCE)"
  by (auto simp: compare_presence_def Let_def split: if_split_asm)

lemmas comparator_outcomes = compare_delta_outcome opposite_outcome compare_ordering_outcome
  compare_range_outcome compare_set_outcome compare_class_outcome compare_exact_outcome

subsection \<open>The class ladder\<close>

lemma rank_from_Some:
  "rank_from i key items = Some j \<Longrightarrow>
   i \<le> j \<and> j - i < length items \<and> class_key (items ! (j - i)) = key"
proof (induction items arbitrary: i)
  case (Cons item items)
  show ?case
  proof (cases "class_key item = key")
    case False
    with Cons.prems have "rank_from (Suc i) key items = Some j" by simp
    with Cons.IH have "Suc i \<le> j \<and> j - Suc i < length items \<and> class_key (items ! (j - Suc i)) = key"
      by blast
    then show ?thesis by (auto simp: nth_Cons' Suc_diff_Suc)
  qed (use Cons.prems in auto)
qed simp

lemma class_rank_inj:
  assumes "class_rank a ladder = Inr i" and "class_rank b ladder = Inr i"
  shows "class_key a = class_key b"
  using assms by (auto simp: class_rank_def split: option.splits dest!: rank_from_Some)

lemma class_rank_key: "class_key a = class_key b \<Longrightarrow> class_rank a ladder = Inr i \<Longrightarrow> class_rank b ladder = Inr i"
  by (auto simp: class_rank_def split: option.splits)

lemma fold_homoglyphs_idem [simp]: "fold_homoglyphs (fold_homoglyphs s) = fold_homoglyphs s"
  by (auto simp: fold_homoglyphs_def HOMOGLYPH_FOLD_def)

definition ladder_of :: "json \<Rightarrow> string list" where
  "ladder_of rule = map py_str (list_items (entry (entry rule ''comparator'') ''value''))"

lemma comparator_dict_Inr: "comparator_dict rule = Inr c \<Longrightarrow> c = entry rule ''comparator''"
  by (auto simp: comparator_dict_def split: json.splits)

lemma compare_class_Inr:
  "compare_class_not_lower e a rule = Inr c \<longleftrightarrow>
   (\<exists>d i j. comparator_dict rule = Inr d \<and> ladder_of rule \<noteq> [] \<and>
      class_rank e (ladder_of rule) = Inr i \<and> class_rank a (ladder_of rule) = Inr j \<and>
      c = \<lparr>cmp_status = (if j < i then CANDIDATE else AUTO_NO_DIFFERENCE),
           cmp_expected = PyFloat (of_nat i), cmp_actual = PyFloat (of_nat j),
           cmp_delta = PyFloat (of_int (int j - int i)),
           cmp_rationale = (if j < i then [(''class lowered'', [e, show_nat i, a, show_nat j])]
                            else [(''class not lowered'', [e, a])])\<rparr>)"
  by (auto simp: compare_class_not_lower_def bindr_eq_Inr Let_def ladder_of_def
      dest: comparator_dict_Inr split: if_split_asm)

subsection \<open>Properties\<close>

definition rule_operator :: "json \<Rightarrow> string" where
  "rule_operator rule = text_or (entry (entry rule ''comparator'') ''operator'') []"

lemma compare_values_comparator:
  "compare_values e a rule = Inr c \<Longrightarrow> comparator_dict rule = Inr (entry rule ''comparator'')"
  by (auto simp: compare_values_def bindr_eq_Inr dest: comparator_dict_Inr)

text \<open>
  C37. No comparator ever rules like a human: for every rule, expected and actual value, the matrix
  engine that returns answers "no difference" or "candidate"; "missing evidence" comes only from the
  presence operator on an absent element, and a human verdict never.
\<close>

theorem comparator_never_rules_like_a_human:
  assumes "compare_values e a rule = Inr c"
  shows "cmp_status c \<in> {AUTO_NO_DIFFERENCE, CANDIDATE} \<or>
    (cmp_status c = MISSING_EVIDENCE \<and> rule_operator rule = ''present'' \<and> \<not> jtruthy a)"
proof (cases "rule_operator rule = ''present''")
  case True
  with assms compare_values_comparator [OF assms] have "compare_presence a rule = Inr c"
    by (simp add: compare_values_def rule_operator_def SET_OPERATORS_def)
  from compare_presence_outcome [OF this] True show ?thesis by (simp split: if_split_asm)
next
  case False
  with assms compare_values_comparator [OF assms] have "machine_outcome c"
    by (auto simp: compare_values_def rule_operator_def Let_def bindr_eq_Inr
        split: if_split_asm dest: comparator_outcomes)
  then show ?thesis by (auto simp: machine_outcome_def)
qed

definition sample_rule :: "string \<Rightarrow> json \<Rightarrow> json" where
  "sample_rule op v = JObj [(''code'', JStr ''PZ-001''), (''unit'', JStr ''m2''),
     (''comparator'', JObj [(''operator'', JStr op), (''value'', v)])]"

theorem comparator_never_rules_witness:
  "\<exists>c. compare_values (JInt 3) (JStr []) (sample_rule ''present'' JNull) = Inr c \<and>
       cmp_status c = MISSING_EVIDENCE"
proof -
  obtain c where "compare_values (JInt 3) (JStr []) (sample_rule ''present'' JNull) = Inr c \<and>
      cmp_status c \<notin> {AUTO_NO_DIFFERENCE, CANDIDATE}"
    by (simp add: compare_values_def comparator_dict_def sample_rule_def entry_def text_or_def
        SET_OPERATORS_def compare_presence_def)
  with comparator_never_rules_like_a_human show ?thesis by blast
qed

text \<open>
  C38. The \<open>delta\<close> operator always decides two numbers it can round: it reports a candidate exactly
  when the rounded values leave the tolerance of the rule and move in the direction the text of
  the trigger names, when it names one; the reported difference is actual minus expected.
\<close>

theorem delta_reports_out_of_tolerance_in_trigger_direction:
  assumes "comparator_dict rule = Inr d" and "rule_operator rule = ''delta''"
    and "py_float e = Inr x" and "py_float a = Inr y"
    and "quantize x (text_or (entry d ''rounding'') ''half_up'') = Inr l"
    and "quantize y (text_or (entry d ''rounding'') ''half_up'') = Inr r"
  shows "\<exists>c. compare_values e a rule = Inr c \<and> cmp_delta c = PyFloat (r - l) \<and>
    (cmp_status c = CANDIDATE \<longleftrightarrow>
       \<not> within_tolerance (jnumber (entry d ''tolerance_abs'')) (jnumber (entry d ''tolerance_rel'')) l r \<and>
       (trigger_sense rule = Some Decrease \<longrightarrow> r < l) \<and> (trigger_sense rule = Some Increase \<longrightarrow> l < r))"
proof -
  have d: "d = entry rule ''comparator''" using assms(1) by (rule comparator_dict_Inr)
  let ?near = "within_tolerance (jnumber (entry d ''tolerance_abs'')) (jnumber (entry d ''tolerance_rel'')) l r"
  obtain w where one: "compare_delta x y rule =
      Inr \<lparr>cmp_status = auto_or_candidate ?near, cmp_expected = PyFloat l, cmp_actual = PyFloat r,
           cmp_delta = PyFloat (r - l), cmp_rationale = w\<rparr>"
    using assms by (cases ?near) (auto simp: compare_delta_def tolerance_def measured_delta_def Let_def)
  have "compare_values e a rule = bindr (compare_delta x y rule) (\<lambda>c. opposite_of_trigger c rule)"
    using assms d by (simp add: compare_values_def rule_operator_def)
  with one show ?thesis
    by (cases ?near; cases "trigger_sense rule"; cases "the (trigger_sense rule)")
       (auto simp: opposite_of_trigger_def)
qed

theorem delta_reports_witness:
  "\<exists>c. compare_values (JInt 10) (JInt 12)
         (JObj [(''comparator'', JObj [(''operator'', JStr ''delta''), (''tolerance_abs'', JInt 1)])]) = Inr c \<and>
       cmp_delta c = PyFloat 2 \<and> cmp_status c = CANDIDATE"
proof -
  let ?r = "JObj [(''comparator'', JObj [(''operator'', JStr ''delta''), (''tolerance_abs'', JInt 1)])]"
  have d: "comparator_dict ?r = Inr (JObj [(''operator'', JStr ''delta''), (''tolerance_abs'', JInt 1)])"
    by (simp add: comparator_dict_def entry_def)
  have op: "rule_operator ?r = ''delta''" by (simp add: rule_operator_def entry_def text_or_def)
  have q: "quantize (of_int i) (text_or (entry (JObj [(''operator'', JStr ''delta''), (''tolerance_abs'', JInt 1)]) ''rounding'') ''half_up'') = Inr (of_int i)"
    if "\<bar>i\<bar> < 100" for i
    using that quantize_grid [of "i * 10000" "''half_up''"] by (simp add: entry_def text_or_def)
  have t: "trigger_sense ?r = None" by (simp add: trigger_sense_def entry_def text_or_def str_lower_def)
  show ?thesis
    using delta_reports_out_of_tolerance_in_trigger_direction
      [OF d op, of "JInt 10" 10 "JInt 12" 12 10 12] q [of 10] q [of 12] t
    by (simp add: py_float_def within_tolerance_def measured_delta_def entry_def)
qed

text \<open>
  The class ladder is a comparison: when \<open>class_not_lower\<close> answers for two values it answers
  for them swapped, at most one of the two directions is a lowering, and neither is exactly when
  the two values are one class up to case, outer blanks and look-alike letters.
\<close>

theorem class_ladder_is_a_comparison:
  assumes "compare_class_not_lower e a rule = Inr c"
  shows "\<exists>c'. compare_class_not_lower a e rule = Inr c' \<and>
    \<not> (cmp_status c = CANDIDATE \<and> cmp_status c' = CANDIDATE) \<and>
    (cmp_status c = AUTO_NO_DIFFERENCE \<and> cmp_status c' = AUTO_NO_DIFFERENCE \<longleftrightarrow> class_key e = class_key a)"
proof -
  obtain d i j where d: "comparator_dict rule = Inr d" "ladder_of rule \<noteq> []"
      "class_rank e (ladder_of rule) = Inr i" "class_rank a (ladder_of rule) = Inr j"
    and c: "cmp_status c = (if j < i then CANDIDATE else AUTO_NO_DIFFERENCE)"
    using assms by (auto simp: compare_class_Inr)
  from d obtain c' where c': "compare_class_not_lower a e rule = Inr c'"
      "cmp_status c' = (if i < j then CANDIDATE else AUTO_NO_DIFFERENCE)"
    by (simp add: compare_class_Inr)
  have "i = j \<longleftrightarrow> class_key e = class_key a"
    using d(3,4) class_rank_inj class_rank_key by (metis sum.inject(2))
  then show ?thesis using c c' by auto
qed

theorem class_ladder_witness:
  "\<exists>c'. compare_class_not_lower ''c345'' ''C245''
          (sample_rule ''class_not_lower'' (JArr [JStr ''C245'', JStr (cyr [209] @ ''345'')])) = Inr c'"
proof -
  let ?r = "sample_rule ''class_not_lower'' (JArr [JStr ''C245'', JStr (cyr [209] @ ''345'')])"
  have "class_key ''C245'' = ''C245''" "class_key ''c345'' = ''C345''" "class_key (cyr [209] @ ''345'') = ''C345''"
    by (simp_all add: class_key_def fold_homoglyphs_def HOMOGLYPH_FOLD_def str_upper_def upper_code_def
        odd_case_pairs_def strip_def is_space_def cyr_def char_of_def bit_iff_odd)
  then have "\<exists>c. compare_class_not_lower ''C245'' ''c345'' ?r = Inr c"
    by (simp add: compare_class_Inr ladder_of_def sample_rule_def entry_def comparator_dict_def
        list_items_def class_rank_def)
  with class_ladder_is_a_comparison show ?thesis by blast
qed

end
