(* ===== verification/Blank_Components.thy ===== *)
theory Blank_Components
  imports Models "HOL-Library.Multiset"
begin

section \<open>Components of files without a code (application/revision\_resolver.py)\<close>

text \<open>
  \<open>_blank_components\<close> is a union-find over the file ids: \<open>uf_find\<close> climbs with path halving,
  \<open>uf_union\<close> hangs the right root under the left one. \<open>uf_find\<close> is a loop that need not end on
  an arbitrary dictionary, so it is a partial function; \<open>reaches p n x r\<close> says that \<open>n\<close> steps up
  from \<open>x\<close> end in the root \<open>r\<close>, and the forest invariant \<open>uf_inv\<close> gives every key such a root.
\<close>

definition par :: "(string, string) dict \<Rightarrow> string \<Rightarrow> string" where
  "par p x = (case dict_get p x of Some y \<Rightarrow> y | None \<Rightarrow> x)"

text \<open>A missing key is Python's \<open>KeyError\<close>; an endless climb is \<open>None\<close>.\<close>

partial_function (option) uf_find ::
    "(string, string) dict \<Rightarrow> string \<Rightarrow> (string \<times> (string, string) dict) result option" where
  "uf_find p x =
     (case dict_get p x of
        None \<Rightarrow> Some (raise KeyError x [])
      | Some y \<Rightarrow>
          if y = x then Some (Inr (x, p))
          else (case dict_get p y of
                  None \<Rightarrow> Some (raise KeyError y [])
                | Some z \<Rightarrow> uf_find (dict_set x z p) z))"

definition uf_union ::
    "string \<Rightarrow> string option \<Rightarrow> (string, string) dict \<Rightarrow> (string, string) dict result option" where
  "uf_union left right p =
     (case right of
        None \<Rightarrow> Some (Inr p)
      | Some r \<Rightarrow>
          if dict_get p r = None then Some (Inr p)
          else Option.bind (uf_find p left) (\<lambda>f1. case f1 of
                 Inl e \<Rightarrow> Some (Inl e)
               | Inr (root_left, p1) \<Rightarrow>
                   Option.bind (uf_find p1 r) (\<lambda>f2. case f2 of
                     Inl e \<Rightarrow> Some (Inl e)
                   | Inr (root_right, p2) \<Rightarrow>
                       Some (Inr (if root_left \<noteq> root_right then dict_set root_right root_left p2
                                  else p2)))))"

fun uf_link_all ::
    "document_ref list \<Rightarrow> (string, string) dict \<Rightarrow> (string, string) dict result option" where
  "uf_link_all [] p = Some (Inr p)"
| "uf_link_all (d # ds) p =
     Option.bind (uf_union (doc_file_id d) (predecessor_file_id d) p) (\<lambda>u1. case u1 of
       Inl e \<Rightarrow> Some (Inl e)
     | Inr p1 \<Rightarrow>
         Option.bind (uf_union (doc_file_id d) (successor_file_id d) p1) (\<lambda>u2. case u2 of
           Inl e \<Rightarrow> Some (Inl e)
         | Inr p2 \<Rightarrow> uf_link_all ds p2))"

fun uf_collect ::
    "document_ref list \<Rightarrow> (string, string) dict \<Rightarrow> (string, document_ref list) dict \<Rightarrow>
     (string, document_ref list) dict result option" where
  "uf_collect [] p comps = Some (Inr comps)"
| "uf_collect (d # ds) p comps =
     Option.bind (uf_find p (doc_file_id d)) (\<lambda>f. case f of
       Inl e \<Rightarrow> Some (Inl e)
     | Inr (top_id, p1) \<Rightarrow> uf_collect ds p1 (dict_append top_id d comps))"

text \<open>\<open>{item.file_id: item.file_id for item in blanks}\<close>.\<close>

definition initial_parents :: "document_ref list \<Rightarrow> (string, string) dict" where
  "initial_parents ds = fold (\<lambda>d p. dict_set (doc_file_id d) (doc_file_id d) p) ds []"

definition blank_components :: "document_ref list \<Rightarrow> document_ref list list result option" where
  "blank_components blanks =
     Option.bind (uf_link_all blanks (initial_parents blanks)) (\<lambda>u. case u of
       Inl e \<Rightarrow> Some (Inl e)
     | Inr p \<Rightarrow>
         map_option (map_sum id dict_values) (uf_collect blanks p []))"

subsection \<open>Climbing to the root\<close>

definition reaches :: "(string, string) dict \<Rightarrow> nat \<Rightarrow> string \<Rightarrow> string \<Rightarrow> bool" where
  "reaches p n x r = ((par p ^^ n) x = r \<and> par p r = r)"

definition rooted :: "(string, string) dict \<Rightarrow> string \<Rightarrow> string \<Rightarrow> bool" where
  "rooted p x r = (\<exists>n. reaches p n x r)"

definition uf_inv :: "(string, string) dict \<Rightarrow> bool" where
  "uf_inv p = (\<forall>x y. dict_get p x = Some y \<longrightarrow> dict_get p y \<noteq> None \<and> (\<exists>r. rooted p x r))"

lemma reaches_0 [simp]: "reaches p 0 x r \<longleftrightarrow> x = r \<and> par p r = r"
  by (auto simp: reaches_def)

lemma reaches_Suc [simp]: "reaches p (Suc n) x r \<longleftrightarrow> reaches p n (par p x) r"
  by (simp add: reaches_def funpow_swap1)

lemma reaches_root: "par p x = x \<Longrightarrow> reaches p n x r \<Longrightarrow> r = x"
  by (induction n) auto

lemma rooted_self: "par p x = x \<Longrightarrow> rooted p x x"
  unfolding rooted_def by (rule exI [of _ 0]) simp

lemma rooted_par: "rooted p (par p x) r \<longleftrightarrow> rooted p x r"
proof
  assume "rooted p (par p x) r"
  then show "rooted p x r" unfolding rooted_def by (metis reaches_Suc)
next
  assume "rooted p x r"
  then obtain n where n: "reaches p n x r" by (auto simp: rooted_def)
  show "rooted p (par p x) r"
  proof (cases n)
    case 0
    with n have "x = r" "par p r = r" by auto
    then show ?thesis by (simp add: rooted_self)
  next
    case (Suc k)
    with n show ?thesis by (auto simp: rooted_def)
  qed
qed

lemma rooted_fixed: "rooted p x r \<Longrightarrow> par p r = r"
  by (auto simp: rooted_def reaches_def)

lemma rooted_unique:
  assumes "rooted p x r" and "rooted p x s"
  shows "r = s"
proof -
  have "reaches p n y r' \<Longrightarrow> reaches p m y s' \<Longrightarrow> r' = s'" for n m y r' s'
  proof (induction n arbitrary: m y)
    case 0
    then have y: "y = r'" "par p y = y" by auto
    from reaches_root [OF y(2) 0(2)] y(1) show ?case by simp
  next
    case (Suc n)
    show ?case
    proof (cases m)
      case 0
      with Suc.prems(2) have "par p y = y" "s' = y" by auto
      then show ?thesis using reaches_root [of p y "Suc n" r'] Suc.prems(1) by simp
    next
      case (Suc k)
      then show ?thesis using Suc.prems Suc.IH [of "par p y" k] by simp
    qed
  qed
  with assms show ?thesis by (auto simp: rooted_def)
qed

lemma par_set: "par (dict_set x z p) y = (if y = x then z else par p y)"
  by (simp add: par_def dict_get_set)

text \<open>Path halving keeps every root and lengthens no climb.\<close>

lemma halving_height:
  assumes "reaches p n y r"
  shows "\<exists>m \<le> n. reaches (dict_set x (par p (par p x)) p) m y r"
  using assms
proof (induction n arbitrary: y rule: less_induct)
  case (less n)
  let ?q = "dict_set x (par p (par p x)) p"
  have fix_r: "par ?q r = r" using less.prems by (auto simp: reaches_def par_set)
  show ?case
  proof (cases n)
    case 0
    with less.prems fix_r show ?thesis by auto
  next
    case (Suc k)
    with less.prems have k: "reaches p k (par p y) r" by simp
    show ?thesis
    proof (cases "y = x")
      case False
      have "\<exists>m \<le> k. reaches ?q m (par p y) r" using less.IH [of k] k Suc by simp
      then obtain m where "m \<le> k" "reaches ?q (Suc m) y r" using False by (auto simp: par_set)
      then show ?thesis using Suc by (intro exI [of _ "Suc m"]) simp
    next
      case True
      have "\<exists>m < n. reaches ?q m (par p (par p x)) r"
      proof (cases k)
        case 0
        with k True have "par p (par p x) = r" by simp
        then show ?thesis using fix_r Suc by (intro exI [of _ 0]) simp
      next
        case (Suc j)
        then have "\<exists>m \<le> j. reaches ?q m (par p (par p x)) r"
          using less.IH [of j] k True \<open>n = Suc k\<close> by simp
        then obtain m where "m \<le> j" "reaches ?q m (par p (par p x)) r" by blast
        then show ?thesis using Suc \<open>n = Suc k\<close> by (intro exI [of _ m]) simp
      qed
      then obtain m where "m < n" "reaches ?q (Suc m) x r" by (auto simp: par_set)
      then show ?thesis using True by (intro exI [of _ "Suc m"]) simp
    qed
  qed
qed

lemma halving_keeps_roots: "rooted p y r \<Longrightarrow> rooted (dict_set x (par p (par p x)) p) y r"
  unfolding rooted_def using halving_height by blast

definition same_keys :: "(string, string) dict \<Rightarrow> (string, string) dict \<Rightarrow> bool" where
  "same_keys p q = (dom (dict_get q) = dom (dict_get p))"

definition grows :: "(string, string) dict \<Rightarrow> (string, string) dict \<Rightarrow> bool" where
  "grows p q = (uf_inv q \<and> same_keys p q \<and> (\<forall>y r. rooted p y r \<longrightarrow> rooted q y r))"

lemma grows_refl: "uf_inv p \<Longrightarrow> grows p p"
  by (simp add: grows_def same_keys_def)

lemma grows_trans: "grows p q \<Longrightarrow> grows q s \<Longrightarrow> grows p s"
  by (auto simp: grows_def same_keys_def)

lemma uf_inv_dom: "uf_inv p \<Longrightarrow> x \<in> dom (dict_get p) \<Longrightarrow> par p x \<in> dom (dict_get p)"
  by (auto simp: uf_inv_def par_def)

lemma uf_inv_rooted: "uf_inv p \<Longrightarrow> x \<in> dom (dict_get p) \<Longrightarrow> \<exists>r. rooted p x r"
  by (auto simp: uf_inv_def)

lemma reaches_dom: "uf_inv p \<Longrightarrow> x \<in> dom (dict_get p) \<Longrightarrow> reaches p n x r \<Longrightarrow> r \<in> dom (dict_get p)"
proof (induction n arbitrary: x)
  case (Suc n)
  show ?case by (rule Suc.IH [OF Suc.prems(1) uf_inv_dom [OF Suc.prems(1,2)]]) (use Suc.prems(3) in simp)
qed simp

lemma rooted_dom: "uf_inv p \<Longrightarrow> x \<in> dom (dict_get p) \<Longrightarrow> rooted p x r \<Longrightarrow> r \<in> dom (dict_get p)"
  unfolding rooted_def using reaches_dom by blast

lemma uf_invI:
  assumes "\<And>x. x \<in> dom (dict_get p) \<Longrightarrow> par p x \<in> dom (dict_get p) \<and> (\<exists>r. rooted p x r)"
  shows "uf_inv p"
  unfolding uf_inv_def
proof (intro allI impI)
  fix x y
  assume "dict_get p x = Some y"
  with assms [of x] show "dict_get p y \<noteq> None \<and> (\<exists>r. rooted p x r)" by (auto simp: par_def)
qed

lemma halving_grows:
  assumes "uf_inv p" and "x \<in> dom (dict_get p)"
  shows "grows p (dict_set x (par p (par p x)) p)"
proof -
  let ?q = "dict_set x (par p (par p x)) p"
  have d: "dom (dict_get ?q) = dom (dict_get p)" using assms(2) by (auto simp: dict_get_set split: if_splits)
  have "par p (par p x) \<in> dom (dict_get p)" using assms uf_inv_dom by blast
  then have "uf_inv ?q"
    using assms uf_inv_dom [OF assms(1)] uf_inv_rooted [OF assms(1)] halving_keeps_roots [of p _ _ x]
    by (intro uf_invI) (auto simp: d par_set, blast+)
  then show ?thesis using d halving_keeps_roots by (auto simp: grows_def same_keys_def)
qed

text \<open>The loop ends, returns the root, and keeps the forest, its keys and its roots.\<close>

lemma uf_find_root:
  assumes "uf_inv p" and "x \<in> dom (dict_get p)" and "rooted p x r"
  shows "\<exists>q. uf_find p x = Some (Inr (r, q)) \<and> grows p q"
proof -
  have "reaches p n x r \<Longrightarrow> uf_inv p \<Longrightarrow> x \<in> dom (dict_get p) \<Longrightarrow>
      \<exists>q. uf_find p x = Some (Inr (r, q)) \<and> grows p q" for n
  proof (induction n arbitrary: p x rule: less_induct)
    case (less n)
    from less.prems(3) obtain y where y: "dict_get p x = Some y" by auto
    then have py: "par p x = y" by (simp add: par_def)
    show ?case
    proof (cases "y = x")
      case True
      with py have "par p x = x" by simp
      then have "r = x" using reaches_root less.prems(1) by blast
      with y True less.prems(2) show ?thesis by (auto simp: uf_find.simps [of p x] grows_refl)
    next
      case False
      from less.prems(2) y obtain z where z: "dict_get p y = Some z" by (auto simp: uf_inv_def)
      then have pz: "z = par p (par p x)" using py by (simp add: par_def)
      let ?q = "dict_set x z p"
      have g: "grows p ?q" using halving_grows less.prems(2,3) pz by blast
      obtain k where k: "n = Suc k" using False less.prems(1) py by (cases n) auto
      have "\<exists>m \<le> k. reaches p m z r"
      proof (cases k)
        case 0
        then show ?thesis using less.prems(1) k py pz by auto
      next
        case (Suc j)
        then show ?thesis using less.prems(1) k py pz by (intro exI [of _ j]) simp
      qed
      then obtain m where m: "m < n" "reaches ?q m z r"
        using halving_height [of p _ z r x] pz k by (meson le_imp_less_Suc le_trans)
      have "z \<in> dom (dict_get ?q)" using less.prems(2) z by (auto simp: uf_inv_def dict_get_set)
      then obtain q where q: "uf_find ?q z = Some (Inr (r, q))" "grows ?q q"
        using less.IH [OF m] g by (auto simp: grows_def)
      have "uf_find p x = uf_find ?q z" using y z False by (simp add: uf_find.simps [of p x])
      then show ?thesis using q grows_trans [OF g] by auto
    qed
  qed
  with assms show ?thesis by (auto simp: rooted_def)
qed

subsection \<open>Joining two trees\<close>

definition same_tree :: "(string, string) dict \<Rightarrow> string \<Rightarrow> string \<Rightarrow> bool" where
  "same_tree p a b = (\<exists>r. rooted p a r \<and> rooted p b r)"

lemma hang_root:
  assumes "par p left = left" and "par p right = right" and "left \<noteq> right" and "rooted p y r"
  shows "rooted (dict_set right left p) y (if r = right then left else r)"
proof -
  let ?q = "dict_set right left p"
  have l: "rooted ?q left left" using assms by (intro rooted_self) (simp add: par_set)
  then have rt: "rooted ?q right left" using rooted_par [of ?q right left] by (simp add: par_set)
  have "reaches p n y r \<Longrightarrow> rooted ?q y (if r = right then left else r)" for n
  proof (induction n arbitrary: y)
    case 0
    then show ?case using rt by (auto simp: par_set intro: rooted_self)
  next
    case (Suc n)
    show ?case
    proof (cases "y = right")
      case True
      then have "r = right" using reaches_root [OF assms(2)] Suc.prems by blast
      then show ?thesis using rt True by simp
    next
      case False
      have "rooted ?q (par p y) (if r = right then left else r)" by (rule Suc.IH) (use Suc.prems in simp)
      then show ?thesis using False rooted_par [of ?q y] by (simp add: par_set)
    qed
  qed
  with assms(4) show ?thesis by (auto simp: rooted_def)
qed

definition sound_for :: "(string \<times> string) set \<Rightarrow> (string, string) dict \<Rightarrow> bool" where
  "sound_for E p = (\<forall>a b. a \<in> dom (dict_get p) \<longrightarrow> b \<in> dom (dict_get p) \<longrightarrow> same_tree p a b \<longrightarrow> (a, b) \<in> E)"

definition coarser :: "(string, string) dict \<Rightarrow> (string, string) dict \<Rightarrow> bool" where
  "coarser p q = (uf_inv q \<and> same_keys p q \<and> (\<forall>a b. same_tree p a b \<longrightarrow> same_tree q a b))"

lemma coarser_trans: "coarser p q \<Longrightarrow> coarser q s \<Longrightarrow> coarser p s"
  by (auto simp: coarser_def same_keys_def)

lemma grows_coarser: "grows p q \<Longrightarrow> coarser p q"
  by (auto simp: grows_def coarser_def same_tree_def)

lemma grows_sound:
  assumes "grows p q" and "uf_inv p" and "sound_for E p"
  shows "sound_for E q"
  unfolding sound_for_def
proof (intro allI impI)
  fix a b
  assume ab: "a \<in> dom (dict_get q)" "b \<in> dom (dict_get q)" "same_tree q a b"
  then have d: "a \<in> dom (dict_get p)" "b \<in> dom (dict_get p)" using assms(1) by (auto simp: grows_def same_keys_def)
  then obtain r s where "rooted p a r" "rooted p b s" using uf_inv_rooted [OF assms(2)] by blast
  moreover from this have "rooted q a r" "rooted q b s" using assms(1) by (auto simp: grows_def)
  then have "r = s" using ab(3) rooted_unique unfolding same_tree_def by metis
  ultimately show "(a, b) \<in> E" using d assms(3) by (auto simp: sound_for_def same_tree_def)
qed

lemma hang_coarser:
  assumes "uf_inv p" and "l \<in> dom (dict_get p)" and "r \<in> dom (dict_get p)"
    and "par p l = l" and "par p r = r" and "l \<noteq> r"
  shows "coarser p (dict_set r l p) \<and> same_tree (dict_set r l p) l r"
proof -
  let ?q = "dict_set r l p"
  note hang = hang_root [OF assms(4,5,6)]
  have d: "dom (dict_get ?q) = dom (dict_get p)" using assms(3) by (auto simp: dict_get_set split: if_splits)
  have "uf_inv ?q"
  proof (rule uf_invI, unfold d, intro conjI)
    fix x
    assume x: "x \<in> dom (dict_get p)"
    show "par ?q x \<in> dom (dict_get p)" using x assms(2) uf_inv_dom [OF assms(1)] by (simp add: par_set)
    show "\<exists>s. rooted ?q x s" using uf_inv_rooted [OF assms(1) x] hang by blast
  qed
  then have "coarser p ?q" using d hang unfolding coarser_def same_keys_def same_tree_def by blast
  moreover have "same_tree ?q l r"
    using hang [OF rooted_self [OF assms(4)]] hang [OF rooted_self [OF assms(5)]] assms(6)
    by (auto simp: same_tree_def)
  ultimately show ?thesis by simp
qed

lemma hang_sound:
  assumes "uf_inv p" and "l \<in> dom (dict_get p)" and "r \<in> dom (dict_get p)"
    and "par p l = l" and "par p r = r" and "l \<noteq> r"
    and E: "sound_for E p" "sym E" "trans E" and lr: "(l, r) \<in> E"
  shows "sound_for E (dict_set r l p)"
  unfolding sound_for_def
proof (intro allI impI)
  let ?q = "dict_set r l p"
  fix a b
  assume ab: "a \<in> dom (dict_get ?q)" "b \<in> dom (dict_get ?q)" "same_tree ?q a b"
  then have d: "a \<in> dom (dict_get p)" "b \<in> dom (dict_get p)"
    using assms(3) by (auto simp: dict_get_set split: if_splits)
  then obtain s t where st: "rooted p a s" "rooted p b t" using uf_inv_rooted [OF assms(1)] by blast
  have sd: "s \<in> dom (dict_get p)" "t \<in> dom (dict_get p)" using rooted_dom [OF assms(1)] d st by blast+
  have up: "(a, s) \<in> E" "(b, t) \<in> E"
    using E(1) d sd st rooted_self [OF rooted_fixed [OF st(1)]] rooted_self [OF rooted_fixed [OF st(2)]]
    by (auto simp: sound_for_def same_tree_def)
  have "(if s = r then l else s) = (if t = r then l else t)"
    using hang_root [OF assms(4,5,6) st(1)] hang_root [OF assms(4,5,6) st(2)] ab(3) rooted_unique
    unfolding same_tree_def by metis
  then have "s = t \<or> (s = r \<and> t = l) \<or> (s = l \<and> t = r)" by (auto split: if_splits)
  then have "(s, t) \<in> E \<or> s = t" using lr E(2) by (auto dest: symD)
  then show "(a, b) \<in> E" using up E(2,3) by (metis symD transD)
qed

lemma uf_union_joins:
  assumes inv: "uf_inv p" and l: "l \<in> dom (dict_get p)"
    and E: "sound_for E p" "sym E" "trans E"
    and lr: "\<And>r. right = Some r \<Longrightarrow> r \<in> dom (dict_get p) \<Longrightarrow> (l, r) \<in> E"
  shows "\<exists>q. uf_union l right p = Some (Inr q) \<and> coarser p q \<and> sound_for E q \<and>
     (\<forall>r. right = Some r \<longrightarrow> r \<in> dom (dict_get p) \<longrightarrow> same_tree q l r)"
proof (cases "right = None \<or> (\<exists>r. right = Some r \<and> dict_get p r = None)")
  case True
  then have "uf_union l right p = Some (Inr p)" by (auto simp: uf_union_def)
  then show ?thesis using True E(1) grows_coarser [OF grows_refl [OF inv]] by auto
next
  case False
  then obtain r where r: "right = Some r" "r \<in> dom (dict_get p)" by (metis domIff not_None_eq)
  obtain rl where rl: "rooted p l rl" using uf_inv_rooted [OF inv l] by blast
  obtain p1 where p1: "uf_find p l = Some (Inr (rl, p1))" "grows p p1"
    using uf_find_root [OF inv l rl] by blast
  have inv1: "uf_inv p1" and r1: "r \<in> dom (dict_get p1)" using p1(2) r(2) by (auto simp: grows_def same_keys_def)
  obtain rr where rr: "rooted p1 r rr" using uf_inv_rooted [OF inv1 r1] by blast
  obtain p2 where p2: "uf_find p1 r = Some (Inr (rr, p2))" "grows p1 p2"
    using uf_find_root [OF inv1 r1 rr] by blast
  have g: "grows p p2" using grows_trans [OF p1(2) p2(2)] .
  then have inv2: "uf_inv p2" and keys: "l \<in> dom (dict_get p2)" "r \<in> dom (dict_get p2)"
    using l r(2) by (auto simp: grows_def same_keys_def)
  have roots: "rooted p2 l rl" "rooted p2 r rr" using rl rr g p2(2) by (auto simp: grows_def)
  have s2: "sound_for E p2" by (rule grows_sound [OF g inv E(1)])
  note ends = rooted_dom [OF inv2 keys(1) roots(1)] rooted_dom [OF inv2 keys(2) roots(2)]
    rooted_fixed [OF roots(1)] rooted_fixed [OF roots(2)]
  have tops: "same_tree p2 l rl" "same_tree p2 r rr"
    using roots rooted_self [OF ends(3)] rooted_self [OF ends(4)] by (auto simp: same_tree_def)
  let ?q = "if rl \<noteq> rr then dict_set rr rl p2 else p2"
  have u: "uf_union l right p = Some (Inr ?q)" using r p1 p2 by (auto simp: uf_union_def)
  show ?thesis
  proof (cases "rl = rr")
    case True
    with u s2 grows_coarser [OF g] roots r show ?thesis by (auto simp: same_tree_def)
  next
    case False
    have "(l, r) \<in> E" using lr r by blast
    moreover have "(l, rl) \<in> E" "(r, rr) \<in> E" using s2 keys ends tops by (auto simp: sound_for_def)
    ultimately have "(rl, rr) \<in> E" using E(2,3) by (meson symD transD)
    then have "sound_for E (dict_set rr rl p2)" using hang_sound inv2 ends False s2 E(2,3) by blast
    moreover have h: "coarser p2 (dict_set rr rl p2) \<and> same_tree (dict_set rr rl p2) rl rr"
      using hang_coarser inv2 ends False by blast
    then have "same_tree (dict_set rr rl p2) l rl" "same_tree (dict_set rr rl p2) r rr"
      using tops by (auto simp: coarser_def)
    then have "same_tree (dict_set rr rl p2) l r"
      using h rooted_unique unfolding same_tree_def by metis
    ultimately show ?thesis using u h False coarser_trans [OF grows_coarser [OF g]] r by auto
  qed
qed

subsection \<open>All links and the components\<close>

definition ids_of :: "document_ref list \<Rightarrow> string set" where
  "ids_of ds = doc_file_id ` set ds"

definition doc_links :: "document_ref list \<Rightarrow> (string \<times> string) set" where
  "doc_links ds = {(doc_file_id d, f) |d f. d \<in> set ds \<and> f \<in> ids_of ds \<and>
     (predecessor_file_id d = Some f \<or> successor_file_id d = Some f)}"

definition tied :: "document_ref list \<Rightarrow> (string \<times> string) set" where
  "tied ds = (doc_links ds \<union> (doc_links ds)\<inverse>)\<^sup>*"

lemma tied_equiv: "sym (tied ds)" "trans (tied ds)" "(x, x) \<in> tied ds"
  by (auto simp: tied_def sym_Un_converse sym_rtrancl trans_rtrancl)

lemma initial_parents_get:
  "dict_get (initial_parents ds) x = (if x \<in> ids_of ds then Some x else None)"
proof -
  have "dict_get (fold (\<lambda>d p. dict_set (doc_file_id d) (doc_file_id d) p) ds p) x =
      (if x \<in> ids_of ds then Some x else dict_get p x)" for p
    by (induction ds arbitrary: p) (auto simp: ids_of_def dict_get_set)
  then show ?thesis by (simp add: initial_parents_def)
qed

lemma initial_parents_inv:
  "uf_inv (initial_parents ds)" "dom (dict_get (initial_parents ds)) = ids_of ds"
  "sound_for (tied ds) (initial_parents ds)"
proof -
  have p: "par (initial_parents ds) x = x" for x by (simp add: par_def initial_parents_get)
  then have r: "rooted (initial_parents ds) x y \<longleftrightarrow> y = x" for x y
    using rooted_self [OF p] rooted_unique by blast
  show d: "dom (dict_get (initial_parents ds)) = ids_of ds"
    by (auto simp: initial_parents_get split: if_splits)
  show "uf_inv (initial_parents ds)" by (rule uf_invI) (auto simp: p r)
  show "sound_for (tied ds) (initial_parents ds)"
    by (auto simp: sound_for_def same_tree_def r tied_equiv)
qed

lemma uf_link_all_joins:
  assumes "set ds \<subseteq> set bs" and "uf_inv p" and "dom (dict_get p) = ids_of bs"
    and "sound_for (tied bs) p"
  shows "\<exists>q. uf_link_all ds p = Some (Inr q) \<and> coarser p q \<and> sound_for (tied bs) q \<and>
     (\<forall>d \<in> set ds. \<forall>f \<in> ids_of bs.
        predecessor_file_id d = Some f \<or> successor_file_id d = Some f \<longrightarrow> same_tree q (doc_file_id d) f)"
  using assms
proof (induction ds arbitrary: p)
  case Nil
  then show ?case using grows_coarser [OF grows_refl] by auto
next
  case (Cons d ds)
  let ?E = "tied bs"
  have d: "doc_file_id d \<in> ids_of bs" using Cons.prems(1) by (auto simp: ids_of_def)
  have link: "(doc_file_id d, f) \<in> ?E"
    if "f \<in> ids_of bs" "predecessor_file_id d = Some f \<or> successor_file_id d = Some f" for f
    using that Cons.prems(1) unfolding tied_def doc_links_def by (intro r_into_rtrancl) auto
  have "\<exists>p1. uf_union (doc_file_id d) (predecessor_file_id d) p = Some (Inr p1) \<and> coarser p p1 \<and>
      sound_for ?E p1 \<and> (\<forall>f. predecessor_file_id d = Some f \<longrightarrow> f \<in> dom (dict_get p) \<longrightarrow>
        same_tree p1 (doc_file_id d) f)"
    by (rule uf_union_joins [OF Cons.prems(2) _ Cons.prems(4) tied_equiv(1,2)])
       (simp_all add: d link Cons.prems(3))
  then obtain p1 where p1: "uf_union (doc_file_id d) (predecessor_file_id d) p = Some (Inr p1)"
      "coarser p p1" "sound_for ?E p1"
      "\<And>f. predecessor_file_id d = Some f \<Longrightarrow> f \<in> ids_of bs \<Longrightarrow> same_tree p1 (doc_file_id d) f"
    unfolding Cons.prems(3) by blast
  then have i1: "uf_inv p1" "dom (dict_get p1) = ids_of bs"
    using Cons.prems(3) by (auto simp: coarser_def same_keys_def)
  have "\<exists>p2. uf_union (doc_file_id d) (successor_file_id d) p1 = Some (Inr p2) \<and> coarser p1 p2 \<and>
      sound_for ?E p2 \<and> (\<forall>f. successor_file_id d = Some f \<longrightarrow> f \<in> dom (dict_get p1) \<longrightarrow>
        same_tree p2 (doc_file_id d) f)"
    by (rule uf_union_joins [OF i1(1) _ p1(3) tied_equiv(1,2)]) (simp_all add: d link i1(2))
  then obtain p2 where p2: "uf_union (doc_file_id d) (successor_file_id d) p1 = Some (Inr p2)"
      "coarser p1 p2" "sound_for ?E p2"
      "\<And>f. successor_file_id d = Some f \<Longrightarrow> f \<in> ids_of bs \<Longrightarrow> same_tree p2 (doc_file_id d) f"
    unfolding i1(2) by blast
  then have i2: "uf_inv p2" "dom (dict_get p2) = ids_of bs"
    using i1(2) by (auto simp: coarser_def same_keys_def)
  obtain q where q: "uf_link_all ds p2 = Some (Inr q)" "coarser p2 q" "sound_for ?E q"
      "\<forall>e \<in> set ds. \<forall>f \<in> ids_of bs. predecessor_file_id e = Some f \<or> successor_file_id e = Some f \<longrightarrow>
         same_tree q (doc_file_id e) f"
    using Cons.IH [OF _ i2 p2(3)] Cons.prems(1) by auto
  have "coarser p q" using coarser_trans [OF coarser_trans [OF p1(2) p2(2)] q(2)] .
  moreover have "same_tree q (doc_file_id d) f"
    if "f \<in> ids_of bs" "predecessor_file_id d = Some f \<or> successor_file_id d = Some f" for f
    using that p1(4) p2(2,4) q(2) unfolding coarser_def by blast
  ultimately show ?case using p1(1) p2(1) q by auto
qed

lemma uf_collect_groups:
  assumes "uf_inv p" and "\<And>d. d \<in> set ds \<Longrightarrow> doc_file_id d \<in> dom (dict_get p) \<and> rooted p (doc_file_id d) (tp d)"
  shows "uf_collect ds p comps = Some (Inr (fold (\<lambda>d c. dict_append (tp d) d c) ds comps))"
  using assms
proof (induction ds arbitrary: p comps)
  case (Cons d ds)
  obtain q where q: "uf_find p (doc_file_id d) = Some (Inr (tp d, q))" "grows p q"
    using uf_find_root [OF Cons.prems(1)] Cons.prems(2) [of d] by auto
  have "uf_collect ds q (dict_append (tp d) d comps) =
      Some (Inr (fold (\<lambda>d c. dict_append (tp d) d c) ds (dict_append (tp d) d comps)))"
    using q(2) Cons.prems(2) by (intro Cons.IH) (auto simp: grows_def same_keys_def)
  with q(1) show ?case by simp
qed simp

lemma mset_dict_append: "mset (concat (dict_values (dict_append k x d))) = add_mset x (mset (concat (dict_values d)))"
  unfolding dict_append_def by (induction d) (auto split: option.splits)

lemma mset_group_by: "mset (concat (dict_values (group_by key xs))) = mset xs"
proof -
  have "mset (concat (dict_values (fold (\<lambda>x d. dict_append (key x) x d) xs d))) =
      mset (concat (dict_values d)) + mset xs" for d
    by (induction xs arbitrary: d) (simp_all add: mset_dict_append)
  then show ?thesis by (simp add: group_by_def)
qed

lemma group_by_together:
  "(\<exists>c \<in> set (dict_values (group_by key xs)). a \<in> set c \<and> b \<in> set c) \<longleftrightarrow>
   a \<in> set xs \<and> b \<in> set xs \<and> key a = key b"
proof
  assume "\<exists>c \<in> set (dict_values (group_by key xs)). a \<in> set c \<and> b \<in> set c"
  then show "a \<in> set xs \<and> b \<in> set xs \<and> key a = key b" by (auto dest!: group_by_entry)
next
  assume ab: "a \<in> set xs \<and> b \<in> set xs \<and> key a = key b"
  then have "dict_get (group_by key xs) (key a) = Some (filter (\<lambda>x. key x = key a) xs)"
    by (auto simp: group_by_get Let_def filter_empty_conv)
  then have "filter (\<lambda>x. key x = key a) xs \<in> set (dict_values (group_by key xs))"
    by (rule dict_get_values)
  with ab show "\<exists>c \<in> set (dict_values (group_by key xs)). a \<in> set c \<and> b \<in> set c" by force
qed

lemma components_exist:
  "\<exists>comps. blank_components bs = Some (Inr comps) \<and> mset (concat comps) = mset bs \<and> [] \<notin> set comps \<and>
     (\<forall>a b. (\<exists>c \<in> set comps. a \<in> set c \<and> b \<in> set c) \<longleftrightarrow>
        a \<in> set bs \<and> b \<in> set bs \<and> (doc_file_id a, doc_file_id b) \<in> tied bs)"
proof -
  obtain q where q: "uf_link_all bs (initial_parents bs) = Some (Inr q)" "coarser (initial_parents bs) q"
      "sound_for (tied bs) q"
      "\<forall>d \<in> set bs. \<forall>f \<in> ids_of bs. predecessor_file_id d = Some f \<or> successor_file_id d = Some f \<longrightarrow>
         same_tree q (doc_file_id d) f"
    using uf_link_all_joins [OF subset_refl initial_parents_inv] by blast
  then have inv: "uf_inv q" and dm: "dom (dict_get q) = ids_of bs"
    using initial_parents_inv(2) by (auto simp: coarser_def same_keys_def)
  define tp :: "document_ref \<Rightarrow> string" where "tp d = (SOME r. rooted q (doc_file_id d) r)" for d
  have tp: "rooted q (doc_file_id d) (tp d)" if "d \<in> set bs" for d
  proof -
    have "doc_file_id d \<in> dom (dict_get q)" using that dm by (auto simp: ids_of_def)
    from uf_inv_rooted [OF inv this] show ?thesis unfolding tp_def by (rule someI_ex)
  qed
  have collect: "uf_collect bs q [] = Some (Inr (group_by tp bs))"
    unfolding group_by_def using tp dm by (intro uf_collect_groups [OF inv]) (auto simp: ids_of_def)
  have same_iff: "tp a = tp b \<longleftrightarrow> same_tree q (doc_file_id a) (doc_file_id b)"
    if "a \<in> set bs" "b \<in> set bs" for a b
    using tp [OF that(1)] tp [OF that(2)] rooted_unique unfolding same_tree_def by metis
  have step: "same_tree q x y" if "(x, y) \<in> doc_links bs" for x y
    using that q(4) by (auto simp: doc_links_def)
  have same_sym: "same_tree q y x" if "same_tree q x y" for x y using that by (auto simp: same_tree_def)
  have same_trans: "same_tree q x z" if "same_tree q x y" "same_tree q y z" for x y z
    using that rooted_unique unfolding same_tree_def by metis
  have complete: "same_tree q x y" if "(x, y) \<in> tied bs" "x \<in> ids_of bs" for x y
    using that unfolding tied_def
  proof (induction rule: rtrancl_induct)
    case base
    then show ?case using uf_inv_rooted [OF inv] dm by (auto simp: same_tree_def)
  next
    case (step y z)
    then have "same_tree q y z" using \<open>\<And>x y. (x, y) \<in> doc_links bs \<Longrightarrow> same_tree q x y\<close> same_sym by blast
    with step.IH [OF step.prems] same_trans show ?case by blast
  qed
  have iff: "tp a = tp b \<longleftrightarrow> (doc_file_id a, doc_file_id b) \<in> tied bs"
    if ab: "a \<in> set bs" "b \<in> set bs" for a b
  proof -
    have "doc_file_id a \<in> ids_of bs" "doc_file_id b \<in> ids_of bs" using ab by (auto simp: ids_of_def)
    then show ?thesis using same_iff [OF ab] complete q(3) dm unfolding sound_for_def by blast
  qed
  have "blank_components bs = Some (Inr (dict_values (group_by tp bs)))"
    using q(1) collect by (simp add: blank_components_def)
  moreover have "[] \<notin> set (dict_values (group_by tp bs))" by (auto dest: group_by_entry)
  ultimately show ?thesis using mset_group_by [of tp bs] group_by_together [of tp bs] iff by metis
qed

end
