(* ===== verification/File_Names.thy ===== *)
theory File_Names
  imports Models Py_Text
begin

section \<open>Revision marks in file names (application/revision\_resolver.py)\<close>

text \<open>
  A file name may carry the revision: a mark (the Russian abbreviations for change, correction and
  edition) at the start or after a separator, optionally followed by one or two digits.
  \<open>scan_marks\<close> reads a name from left to right the way \<open>re.findall\<close> and \<open>re.sub\<close> do with
  \<open>_FILENAME_MARK\<close>: a letter of the text is passed over where no mark starts, a mark is consumed
  whole. The pattern's alternatives are tried in the order of the pattern; giving back a digit can
  never help, because a digit may not follow.
\<close>

definition is_sep :: "char \<Rightarrow> bool" where
  "is_sep c = (is_space c \<or> c = CHR ''.'' \<or> c = CHR ''_'' \<or> c = CHR ''-'')"

definition izm :: string where
  "izm = cyr [232, 231, 236]"

definition mark_words :: "string list" where
  "mark_words = [izm, cyr [234, 238, 240, 240], cyr [234, 238, 240], cyr [240, 229, 228]]"

definition after_word :: "string \<Rightarrow> (string option \<times> string) option" where
  "after_word s =
     (let t = dropWhile is_sep s; ds = takeWhile is_dec t
      in if 1 \<le> length ds \<and> length ds \<le> 2 then Some (Some ds, drop (length ds) t)
         else if (case s of [] \<Rightarrow> False | c # r \<Rightarrow> is_dec c) then None
         else Some (None, s))"

fun try_words :: "string list \<Rightarrow> string \<Rightarrow> (string \<times> string option \<times> string) option" where
  "try_words [] s = None"
| "try_words (w # ws) s =
     (if starts_with (str_lower s) w then
        (case after_word (drop (length w) s) of
           Some (n, r) \<Rightarrow> Some (w, n, r)
         | None \<Rightarrow> try_words ws s)
      else try_words ws s)"

definition mark_at :: "bool \<Rightarrow> string \<Rightarrow> (string \<times> string option \<times> string) option" where
  "mark_at at_start s =
     (case (if at_start then try_words mark_words s else None) of
        Some m \<Rightarrow> Some m
      | None \<Rightarrow> (case s of [] \<Rightarrow> None | c # r \<Rightarrow> if is_sep c then try_words mark_words r else None))"

lemma after_word_length: "after_word s = Some (n, r) \<Longrightarrow> length r \<le> length s"
  using length_dropWhile_le [of is_sep s]
  by (auto simp: after_word_def Let_def split: if_splits)

lemma try_words_length:
  "try_words ws s = Some (w, n, r) \<Longrightarrow> [] \<notin> set ws \<Longrightarrow> w \<in> set ws \<and> length r < length s"
proof (induction ws)
  case (Cons v ws)
  show ?case
  proof (cases "starts_with (str_lower s) v \<and> after_word (drop (length v) s) \<noteq> None")
    case True
    with Cons.prems(1) have w: "w = v" and aw: "after_word (drop (length v) s) = Some (n, r)" by auto
    from True have "length v \<le> length s"
      by (auto simp: starts_with_iff str_lower_def dest: arg_cong [of _ _ length])
    moreover have "v \<noteq> []" using Cons.prems(2) by auto
    ultimately have "length (drop (length v) s) < length s" by (cases v) auto
    with after_word_length [OF aw] w show ?thesis by simp
  next
    case False
    then have "try_words ws s = Some (w, n, r)" using Cons.prems(1) by (auto split: if_splits option.splits)
    with Cons show ?thesis by auto
  qed
qed simp

lemma mark_words_nonempty: "[] \<notin> set mark_words"
  by (simp add: mark_words_def izm_def cyr_def)

lemma mark_at_length: "mark_at b s = Some (w, n, r) \<Longrightarrow> w \<in> set mark_words \<and> length r < length s"
  using try_words_length [OF _ mark_words_nonempty]
  by (fastforce simp: mark_at_def split: option.splits list.splits if_splits)

datatype piece = Letter char | Mark string "string option"

function scan_marks :: "bool \<Rightarrow> string \<Rightarrow> piece list" where
  "scan_marks at_start s =
     (case mark_at at_start s of
        Some (w, n, r) \<Rightarrow> Mark w n # scan_marks False r
      | None \<Rightarrow> (case s of [] \<Rightarrow> [] | c # r \<Rightarrow> Letter c # scan_marks False r))"
  by pat_completeness auto

termination
  by (relation "measure (\<lambda>(b, s). length s)") (auto dest: mark_at_length)

declare scan_marks.simps [simp del]

fun marks_of :: "piece list \<Rightarrow> (string \<times> string option) list" where
  "marks_of [] = []"
| "marks_of (Letter c # ps) = marks_of ps"
| "marks_of (Mark w n # ps) = (w, n) # marks_of ps"

fun blank_marks :: "piece list \<Rightarrow> string" where
  "blank_marks [] = []"
| "blank_marks (Letter c # ps) = c # blank_marks ps"
| "blank_marks (Mark w n # ps) = CHR '' '' # blank_marks ps"

text \<open>\<open>_COPY_SUFFIX.sub\<close>: a copy number in brackets at the end, with the blanks around it.\<close>

definition cut_copy_suffix :: "string \<Rightarrow> string" where
  "cut_copy_suffix s =
     (case dropWhile is_space (rev s) of
        c # d # e # r \<Rightarrow>
          if c = CHR '')'' \<and> is_dec d \<and> e = CHR ''('' then rev (dropWhile is_space r)
          else (case r of
                  f # q \<Rightarrow>
                    if c = CHR '')'' \<and> is_dec d \<and> is_dec e \<and> f = CHR ''('' then rev (dropWhile is_space q)
                    else s
                | [] \<Rightarrow> s)
      | _ \<Rightarrow> s)"

text \<open>\<open>replace\<close> of backslashes, then the part after the last slash, then the part before the last point.\<close>

definition file_stem :: "string \<Rightarrow> string" where
  "file_stem name =
     (let path = map (\<lambda>c. if c = char_of (92 :: nat) then CHR ''/'' else c) name;
          base = (case rsplit1 (CHR ''/'') path of None \<Rightarrow> path | Some (a, b) \<Rightarrow> b)
      in (case rsplit1 (CHR ''.'') base of None \<Rightarrow> base | Some (a, b) \<Rightarrow> a))"

definition is_key_char :: "char \<Rightarrow> bool" where
  "is_key_char c =
     (let n = (of_char c :: nat)
      in (48 \<le> n \<and> n \<le> 57) \<or> (97 \<le> n \<and> n \<le> 122) \<or> (224 \<le> n \<and> n \<le> 255) \<or> n = 184)"

definition volume_key :: "string \<Rightarrow> string" where
  "volume_key name =
     filter is_key_char (str_lower (blank_marks (scan_marks True (cut_copy_suffix (file_stem name)))))"

record name_mark =
  mark_kind :: string
  mark_number :: "nat option"

definition mark_scale :: "string \<Rightarrow> string" where
  "mark_scale w = (if take 3 w = izm then ''change'' else ''correction'')"

definition name_mark_of :: "document_ref \<Rightarrow> name_mark" where
  "name_mark_of d =
     (let rev_no = strip (revision d)
      in if isdigit rev_no then
           \<lparr>mark_kind = (if revision_kind d \<in> {''change'', ''correction''} then revision_kind d
                          else ''correction''),
            mark_number = Some (nat_of_digits rev_no)\<rparr>
         else
           (let found = marks_of (scan_marks True (cut_copy_suffix (file_stem (source_name d))));
                folded = remdups (map (\<lambda>(w, n). mark_scale w) found);
                number = (case filter (\<lambda>(w, n). n \<noteq> None) found of
                            [] \<Rightarrow> None
                          | (w, n) # rest \<Rightarrow> map_option nat_of_digits n)
            in if length folded > 1 then \<lparr>mark_kind = ''mixed'', mark_number = None\<rparr>
               else case folded of
                 [] \<Rightarrow> \<lparr>mark_kind = ''none'',
                       mark_number = (if blank (source_name d) then None else Some 0)\<rparr>
               | kind # _ \<Rightarrow> \<lparr>mark_kind = kind, mark_number = number\<rparr>))"

lemma mark_kind_cases: "mark_kind (name_mark_of d) \<in> {''change'', ''correction'', ''mixed'', ''none''}"
proof (cases "isdigit (strip (revision d))")
  case True
  then show ?thesis by (simp add: name_mark_of_def)
next
  case False
  let ?f = "remdups (map (\<lambda>(w, n). mark_scale w)
    (marks_of (scan_marks True (cut_copy_suffix (file_stem (source_name d))))))"
  have two: "set ?f \<subseteq> {''change'', ''correction''}" by (auto simp: mark_scale_def)
  consider "length ?f > 1" | "?f = []" | k where "?f = [k]"
    by (cases ?f; cases "tl ?f") auto
  then show ?thesis
  proof cases
    case 3
    with two have "k \<in> {''change'', ''correction''}" by simp
    moreover from False 3 have "mark_kind (name_mark_of d) = k" by (simp add: name_mark_of_def Let_def)
    ultimately show ?thesis by auto
  qed (use False in \<open>simp_all add: name_mark_of_def Let_def\<close>)
qed

subsection \<open>A chain of revisions read from the names\<close>

text \<open>\<open>by_number\<close> with the loop's early returns; the second component is the conflict.\<close>

fun number_docs ::
    "(document_ref \<times> name_mark) list \<Rightarrow> (nat, document_ref) dict \<Rightarrow> string + (nat, document_ref) dict" where
  "number_docs [] by_number = Inr by_number"
| "number_docs ((d, m) # rest) by_number =
     (case mark_number m of
        None \<Rightarrow> Inl ''revision number in the name not read''
      | Some n \<Rightarrow>
          (case dict_get by_number n of
             Some prev \<Rightarrow>
               if doc_file_hash prev \<noteq> doc_file_hash d then Inl ''one revision number for different files''
               else number_docs rest (dict_set n d by_number)
           | None \<Rightarrow> number_docs rest (dict_set n d by_number)))"

definition link_chain :: "document_ref list \<Rightarrow> document_ref list" where
  "link_chain ordered =
     map (\<lambda>i. (ordered ! i)
            \<lparr>predecessor_file_id := (if i = 0 then None else Some (doc_file_id (ordered ! (i - 1)))),
             successor_file_id := (if i + 1 < length ordered then Some (doc_file_id (ordered ! (i + 1)))
                                   else None)\<rparr>)
         [0..<length ordered]"

definition chain_by_filename :: "document_ref list \<Rightarrow> document_ref list \<times> string option" where
  "chain_by_filename docs =
     (let marks = map name_mark_of docs; kinds = map mark_kind marks
      in if ''mixed'' \<in> set kinds then (docs, Some ''name mixes change and correction marks'')
         else if ''change'' \<in> set kinds \<and> (''correction'' \<in> set kinds \<or> ''stamp'' \<in> set kinds) then
           (docs, Some ''change and correction marks are not ordered'')
         else case number_docs (zip docs marks) [] of
           Inl conflict \<Rightarrow> (docs, Some conflict)
         | Inr by_number \<Rightarrow>
             (link_chain (map (\<lambda>n. the (dict_get by_number n)) (sort (dict_keys by_number))), None))"

lemma number_docs_Inr:
  assumes "number_docs dms acc = Inr bn" and "wf_dict acc"
  shows "wf_dict bn \<and>
    (\<forall>n d. dict_get bn n = Some d \<longrightarrow>
       dict_get acc n = Some d \<or> (\<exists>m. (d, m) \<in> set dms \<and> mark_number m = Some n)) \<and>
    (\<forall>d m. (d, m) \<in> set dms \<longrightarrow>
       (\<exists>n d'. mark_number m = Some n \<and> dict_get bn n = Some d' \<and> doc_file_hash d' = doc_file_hash d)) \<and>
    (\<forall>n d. dict_get acc n = Some d \<longrightarrow> (\<exists>d'. dict_get bn n = Some d' \<and> doc_file_hash d' = doc_file_hash d))"
  using assms
proof (induction dms acc rule: number_docs.induct)
  case (1 acc)
  then show ?case by simp
next
  case (2 d m rest acc)
  from "2.prems"(1) obtain n where n: "mark_number m = Some n" by (cases "mark_number m") auto
  have same: "dict_get acc n = Some prev \<Longrightarrow> doc_file_hash prev = doc_file_hash d" for prev
    using "2.prems"(1) n by (auto split: if_splits)
  have rest: "number_docs rest (dict_set n d acc) = Inr bn"
    using "2.prems"(1) n by (auto split: option.splits if_splits)
  have ih: "wf_dict bn \<and>
    (\<forall>k e. dict_get bn k = Some e \<longrightarrow>
       dict_get (dict_set n d acc) k = Some e \<or> (\<exists>m. (e, m) \<in> set rest \<and> mark_number m = Some k)) \<and>
    (\<forall>e m. (e, m) \<in> set rest \<longrightarrow>
       (\<exists>k d'. mark_number m = Some k \<and> dict_get bn k = Some d' \<and> doc_file_hash d' = doc_file_hash e)) \<and>
    (\<forall>k e. dict_get (dict_set n d acc) k = Some e \<longrightarrow>
       (\<exists>d'. dict_get bn k = Some d' \<and> doc_file_hash d' = doc_file_hash e))"
    using "2.IH" n rest same "2.prems"(2) by (cases "dict_get acc n") auto
  show ?case
  proof (intro conjI allI impI)
    show "wf_dict bn" using ih by blast
  next
    fix k e
    assume "dict_get bn k = Some e"
    then have "dict_get (dict_set n d acc) k = Some e \<or> (\<exists>m. (e, m) \<in> set rest \<and> mark_number m = Some k)"
      using ih by blast
    then show "dict_get acc k = Some e \<or> (\<exists>m'. (e, m') \<in> set ((d, m) # rest) \<and> mark_number m' = Some k)"
      using n by (auto simp: dict_get_set split: if_splits)
  next
    fix e q
    assume "(e, q) \<in> set ((d, m) # rest)"
    then consider "e = d" "q = m" | "(e, q) \<in> set rest" by auto
    then show "\<exists>k d'. mark_number q = Some k \<and> dict_get bn k = Some d' \<and> doc_file_hash d' = doc_file_hash e"
    proof cases
      case 1
      have "dict_get (dict_set n d acc) n = Some d" by simp
      then show ?thesis using ih n 1 by blast
    qed (use ih in blast)
  next
    fix k e
    assume k: "dict_get acc k = Some e"
    show "\<exists>d'. dict_get bn k = Some d' \<and> doc_file_hash d' = doc_file_hash e"
    proof (cases "k = n")
      case True
      have "dict_get (dict_set n d acc) n = Some d" by simp
      then have "\<exists>d'. dict_get bn n = Some d' \<and> doc_file_hash d' = doc_file_hash d" using ih by blast
      then show ?thesis using same k True by auto
    next
      case False
      then have "dict_get (dict_set n d acc) k = Some e" using k by simp
      then show ?thesis using ih by blast
    qed
  qed
qed

end
