(* ===== verification/Revision_Resolver.thy ===== *)
theory Revision_Resolver
  imports Blank_Components File_Names
begin

section \<open>The revision resolver (application/revision\_resolver.py)\<close>

text \<open>
  Chooses the etalon of a stage: the one revision of one code a comparison may refer to. A
  conflict is the exception \<open>RevisionConflict\<close>; \<open>resolve_heads_by_identity\<close> turns it into
  \<open>CLARIFICATION_REQUIRED\<close> for that code alone. \<open>env\<close> is the value of \<open>KONTUR_ETALON_POLICY\<close>.
  A conflict reason is its fixed text with the interpolated values.
\<close>

type_synonym reason = "string \<times> string list"
type_synonym identity = "string \<times> string \<times> string"

datatype resolve_status = RESOLVED | RS_MISSING_EVIDENCE | RS_CLARIFICATION_REQUIRED

record resolved_revision =
  rr_document :: document_ref
  is_stale :: bool

record revision_resolution =
  res_status :: resolve_status
  resolved :: "resolved_revision option"
  conflict_reason :: "reason option"

definition no_etalon :: "resolve_status \<Rightarrow> string \<Rightarrow> string list \<Rightarrow> revision_resolution" where
  "no_etalon st t vs = \<lparr>res_status = st, resolved = None, conflict_reason = Some (t, vs)\<rparr>"

definition etalon_policy :: "string option \<Rightarrow> string" where
  "etalon_policy env =
     (let raw = str_lower (strip (case env of None \<Rightarrow> ''sole_head'' | Some v \<Rightarrow> v))
      in if raw = ''sole_head'' then ''sole_head'' else ''strict'')"

definition eligible :: "document_ref \<Rightarrow> bool" where
  "eligible d = (approval_status d \<noteq> NOT_APPROVED)"

definition identity_key :: "document_ref \<Rightarrow> identity option" where
  "identity_key d =
     (if document_code d = [] then None
      else Some (document_code d, or_str (sheet d) [], or_str (discipline d) []))"

definition known_keys :: "document_ref list \<Rightarrow> identity list" where
  "known_keys docs = remdups (List.map_filter identity_key docs)"

definition reject_mixed_identities :: "document_ref list \<Rightarrow> doc_stage \<Rightarrow> unit result" where
  "reject_mixed_identities docs stage =
     (let known = known_keys docs
      in if length known > 1 then
           raise RevisionConflict ''several documents of the stage, not a chain of one code''
             (doc_stage_value stage # sort (remdups (map fst known)))
         else if known \<noteq> [] \<and> list_ex (\<lambda>d. identity_key d = None) docs then
           raise RevisionConflict ''the code of some files of the stage is not read''
             [doc_stage_value stage]
         else Inr ())"

definition check_stale_revision :: "document_ref \<Rightarrow> document_ref list \<Rightarrow> bool" where
  "check_stale_revision candidate docs =
     list_ex (\<lambda>d. doc_stage d = doc_stage candidate \<and> doc_file_id d \<noteq> doc_file_id candidate \<and>
        eligible d \<and> predecessor_file_id d = Some (doc_file_id candidate)) docs"

definition overlay_inspector_approval :: "approval_status \<Rightarrow> bool \<Rightarrow> approval_status" where
  "overlay_inspector_approval stamp inspector_selected =
     (if stamp = NOT_APPROVED then NOT_APPROVED
      else if inspector_selected then APPROVED else stamp)"

definition approval_with_basis ::
    "approval_status \<Rightarrow> approval_basis \<Rightarrow> bool \<Rightarrow> approval_status \<times> approval_basis" where
  "approval_with_basis stamp basis inspector_selected =
     (let status = overlay_inspector_approval stamp inspector_selected
      in if inspector_selected \<and> stamp = UNKNOWN \<and> status = APPROVED then (status, INSPECTOR_SELECT)
         else (status, basis))"

definition resolved_as :: "document_ref \<Rightarrow> document_ref list \<Rightarrow> revision_resolution" where
  "resolved_as d pool =
     \<lparr>res_status = RESOLVED,
      resolved = Some \<lparr>rr_document = d, is_stale = check_stale_revision d pool\<rparr>,
      conflict_reason = None\<rparr>"

definition finish_head ::
    "string option \<Rightarrow> document_ref \<Rightarrow> document_ref list \<Rightarrow> bool \<Rightarrow> revision_resolution" where
  "finish_head env chosen pool inspector_selected =
     (if inspector_selected \<and> doc_stage chosen = PD \<and> approval_status chosen = UNKNOWN then
        (let (status, basis) = approval_with_basis (approval_status chosen) (approval_basis chosen) True
         in resolved_as (chosen\<lparr>approval_status := status, approval_basis := basis\<rparr>) pool)
      else if doc_stage chosen = PD \<and> approval_status chosen = UNKNOWN then
        (let approved_other = list_ex (\<lambda>d. doc_file_id d \<noteq> doc_file_id chosen \<and>
                                           approval_status d = APPROVED) pool
         in if etalon_policy env = ''sole_head'' \<and> \<not> approved_other then
              resolved_as (chosen\<lparr>approval_basis := SOLE_HEAD\<rparr>) pool
            else no_etalon RS_CLARIFICATION_REQUIRED ''no approval data'' [])
      else resolved_as chosen pool)"

text \<open>The documents an anchor restricts the stage to.\<close>

definition anchored ::
    "document_ref \<Rightarrow> document_ref list \<Rightarrow> document_ref list result option" where
  "anchored anchor stage_docs =
     (case identity_key anchor of
        Some key \<Rightarrow> Some (Inr (filter (\<lambda>d. identity_key d = Some key) stage_docs))
      | None \<Rightarrow>
          map_option (map_sum id (\<lambda>comps.
              case find (list_ex (\<lambda>d. doc_file_id d = doc_file_id anchor)) comps of
                Some c \<Rightarrow> c | None \<Rightarrow> []))
            (blank_components (filter (\<lambda>d. identity_key d = None) stage_docs)))"

definition heads_of :: "document_ref list \<Rightarrow> document_ref list" where
  "heads_of pool =
     filter (\<lambda>d. case successor_file_id d of None \<Rightarrow> True
                 | Some s \<Rightarrow> s \<notin> set (map doc_file_id pool)) pool"

text \<open>Steps 3 to 8, once the documents of the chain are known.\<close>

definition resolve_pool ::
    "string option \<Rightarrow> document_ref list \<Rightarrow> doc_stage \<Rightarrow> string list \<Rightarrow> revision_resolution result" where
  "resolve_pool env stage_docs stage selected_ids =
     (if stage_docs = [] then
        Inr (no_etalon RS_MISSING_EVIDENCE ''no documents of the stage'' [doc_stage_value stage])
      else
        (let pool = filter eligible stage_docs
         in if pool = [] then
              Inr (no_etalon RS_CLARIFICATION_REQUIRED ''no revision without an explicit refusal''
                     [doc_stage_value stage, show_nat (length stage_docs)])
            else
              bindr (reject_mixed_identities stage_docs stage) (\<lambda>_.
                (let selected = filter (\<lambda>d. doc_file_id d \<in> set selected_ids) pool
                 in case selected of
                      [d] \<Rightarrow> Inr (finish_head env d pool True)
                    | d # e # ds \<Rightarrow>
                        raise RevisionConflict ''several inspector choices''
                          (doc_stage_value stage # map doc_file_id selected)
                    | [] \<Rightarrow>
                        (let heads = heads_of pool
                         in case heads of
                              [] \<Rightarrow> raise RevisionConflict ''cycle in the revision graph''
                                     (doc_stage_value stage # map doc_file_id pool)
                            | [d] \<Rightarrow> Inr (finish_head env d pool False)
                            | d # e # ds \<Rightarrow>
                                raise RevisionConflict ''several revisions without a single successor''
                                  (doc_stage_value stage # map doc_file_id heads))))))"

definition resolve_revision ::
    "string option \<Rightarrow> document_ref list \<Rightarrow> doc_stage \<Rightarrow> document_ref option \<Rightarrow> string list \<Rightarrow>
     revision_resolution result option" where
  "resolve_revision env documents stage anchor selected_ids =
     (let stage_docs = filter (\<lambda>d. doc_stage d = stage) documents
      in case anchor of
           None \<Rightarrow> Some (resolve_pool env stage_docs stage selected_ids)
         | Some a \<Rightarrow>
             if doc_stage a \<noteq> stage then
               Some (Inr (no_etalon RS_MISSING_EVIDENCE ''the anchor is of another stage''
                 [doc_file_id a, doc_stage_value (doc_stage a), doc_stage_value stage]))
             else
               map_option (\<lambda>r. bindr r (\<lambda>docs. resolve_pool env docs stage selected_ids))
                 (anchored a stage_docs))"

subsection \<open>One head per identity\<close>

definition filename_group_conflict :: "document_ref list \<Rightarrow> doc_stage \<Rightarrow> string option" where
  "filename_group_conflict docs stage =
     (if stage = ID \<or> length docs < 2 then None
      else if list_ex (\<lambda>d. blank (source_name d)) docs then None
      else
        (let keys = remdups (map (\<lambda>d. volume_key (source_name d)) docs)
         in if length keys \<noteq> 1 \<or> hd keys = [] then None
            else if list_ex (\<lambda>d. truthy (predecessor_file_id d) \<or> truthy (successor_file_id d)) docs then None
            else snd (chain_by_filename docs)))"

text \<open>The loose single files are clustered by volume; the rest is kept in the order of the loops.\<close>

definition is_loose :: "document_ref list \<Rightarrow> bool" where
  "is_loose c = (case c of [d] \<Rightarrow> \<not> blank (source_name d) | _ \<Rightarrow> False)"

definition cluster_docs :: "document_ref list \<Rightarrow> document_ref list" where
  "cluster_docs docs =
     (if length docs = 1 then docs
      else case chain_by_filename docs of
        (linked, None) \<Rightarrow> linked
      | (linked, Some conflict) \<Rightarrow> docs)"

definition blank_filename_groups ::
    "document_ref list \<Rightarrow> doc_stage \<Rightarrow> document_ref list list result option" where
  "blank_filename_groups blanks stage =
     map_option (map_sum id (\<lambda>components.
       if stage = ID then components
       else
         (let kept = filter (\<lambda>c. \<not> is_loose c) components;
              loose = map hd (filter is_loose components);
              unnamed = filter (\<lambda>d. volume_key (source_name d) = []) loose;
              named = filter (\<lambda>d. volume_key (source_name d) \<noteq> []) loose;
              clusters = dict_values (group_by (\<lambda>d. volume_key (source_name d)) named)
          in kept @ map (\<lambda>d. [d]) unnamed @ map cluster_docs clusters)))
       (blank_components blanks)"

record identity_head =
  head_key :: "identity option"
  head_file_ids :: "string list"
  head_resolution :: revision_resolution

definition head_of_group ::
    "string option \<Rightarrow> doc_stage \<Rightarrow> string list \<Rightarrow> identity option \<times> document_ref list \<Rightarrow> identity_head result" where
  "head_of_group env stage selected_ids kg =
     (let (key, docs) = kg;
          chosen = filter (\<lambda>i. i \<in> set selected_ids) (map doc_file_id docs);
          attempt = (case filename_group_conflict docs stage of
             Some c \<Rightarrow> raise RevisionConflict c []
           | None \<Rightarrow> resolve_pool env (filter (\<lambda>d. doc_stage d = stage) docs) stage chosen)
      in bindr (case attempt of
                  Inl e \<Rightarrow>
                    if exc_cls e = RevisionConflict then
                      Inr (no_etalon RS_CLARIFICATION_REQUIRED (exc_text e) (exc_args e))
                    else Inl e
                | Inr r \<Rightarrow> Inr r)
           (\<lambda>r. Inr \<lparr>head_key = key, head_file_ids = map doc_file_id docs, head_resolution = r\<rparr>))"

definition resolve_heads_by_identity ::
    "string option \<Rightarrow> document_ref list \<Rightarrow> doc_stage \<Rightarrow> string list \<Rightarrow> identity_head list result option" where
  "resolve_heads_by_identity env documents stage selected_ids =
     (let stage_docs = filter (\<lambda>d. doc_stage d = stage) documents;
          coded = filter (\<lambda>d. identity_key d \<noteq> None) stage_docs;
          blanks = filter (\<lambda>d. identity_key d = None) stage_docs;
          groups = group_by (\<lambda>d. the (identity_key d)) coded
      in map_option (\<lambda>r. bindr r (\<lambda>blank_groups.
           traverse (head_of_group env stage selected_ids)
             (map (\<lambda>(k, g). (Some k, g)) groups @ map (\<lambda>g. (None, g)) blank_groups)))
         (blank_filename_groups blanks stage))"

subsection \<open>What the resolver promises\<close>

lemma reject_mixed_Inl: "reject_mixed_identities docs stage = Inl e \<Longrightarrow> exc_cls e = RevisionConflict"
  by (auto simp: reject_mixed_identities_def Let_def split: if_splits)

lemma resolve_pool_Inl: "resolve_pool env docs stage sel = Inl e \<Longrightarrow> exc_cls e = RevisionConflict"
  by (auto simp: resolve_pool_def Let_def bindr_eq_Inl dest: reject_mixed_Inl split: if_splits list.splits)

definition head_candidate :: "document_ref list \<Rightarrow> string list \<Rightarrow> document_ref \<Rightarrow> bool \<Rightarrow> bool" where
  "head_candidate docs sel d chosen =
     (let pool = filter eligible docs; selected = filter (\<lambda>d. doc_file_id d \<in> set sel) pool
      in if chosen then selected = [d] else selected = [] \<and> heads_of pool = [d])"

lemma resolve_pool_unfold:
  assumes "docs \<noteq> []" and "filter eligible docs \<noteq> []" and "reject_mixed_identities docs stage = Inr u"
  shows "resolve_pool env docs stage sel =
    (case filter (\<lambda>d. doc_file_id d \<in> set sel) (filter eligible docs) of
       [d] \<Rightarrow> Inr (finish_head env d (filter eligible docs) True)
     | d # e # ds \<Rightarrow> raise RevisionConflict ''several inspector choices''
         (doc_stage_value stage # map doc_file_id (filter (\<lambda>d. doc_file_id d \<in> set sel) (filter eligible docs)))
     | [] \<Rightarrow>
         (case heads_of (filter eligible docs) of
            [] \<Rightarrow> raise RevisionConflict ''cycle in the revision graph''
                   (doc_stage_value stage # map doc_file_id (filter eligible docs))
          | [d] \<Rightarrow> Inr (finish_head env d (filter eligible docs) False)
          | d # e # ds \<Rightarrow> raise RevisionConflict ''several revisions without a single successor''
              (doc_stage_value stage # map doc_file_id (heads_of (filter eligible docs)))))"
  using assms unfolding resolve_pool_def Let_def by (simp only: if_False bindr_simps)

lemma resolve_pool_cases:
  assumes "resolve_pool env docs stage sel = Inr r"
  shows "docs = [] \<or> filter eligible docs = [] \<or>
    (\<exists>u d chosen. reject_mixed_identities docs stage = Inr u \<and> head_candidate docs sel d chosen \<and>
       r = finish_head env d (filter eligible docs) chosen)"
proof (rule ccontr)
  assume "\<not> ?thesis"
  then have ne: "docs \<noteq> []" "filter eligible docs \<noteq> []" and
    no: "\<And>u d chosen. reject_mixed_identities docs stage = Inr u \<Longrightarrow> head_candidate docs sel d chosen \<Longrightarrow>
      r \<noteq> finish_head env d (filter eligible docs) chosen" by blast+
  obtain u where u: "reject_mixed_identities docs stage = Inr u"
    using assms ne by (cases "reject_mixed_identities docs stage") (auto simp: resolve_pool_def)
  from assms no [OF u, of "hd (filter (\<lambda>d. doc_file_id d \<in> set sel) (filter eligible docs))" True]
    no [OF u, of "hd (heads_of (filter eligible docs))" False] show False
    unfolding resolve_pool_unfold [OF ne u]
    by (auto simp: head_candidate_def Let_def simp del: filter_filter split: list.splits)
qed

lemma resolve_pool_Inr:
  assumes "resolve_pool env docs stage sel = Inr r"
  shows "(res_status r \<noteq> RESOLVED \<and> resolved r = None) \<or>
    (\<exists>d chosen. head_candidate docs sel d chosen \<and> r = finish_head env d (filter eligible docs) chosen)"
proof (cases "docs = [] \<or> filter eligible docs = []")
  case True
  with assms show ?thesis by (cases "docs = []") (auto simp: resolve_pool_def no_etalon_def Let_def)
next
  case False
  with resolve_pool_cases [OF assms] show ?thesis by blast
qed

lemma heads_of_subset: "set (heads_of pool) \<subseteq> set pool"
  by (auto simp: heads_of_def)

lemma head_candidate_mem:
  assumes "head_candidate docs sel d chosen"
  shows "d \<in> set docs \<and> eligible d \<and> (chosen \<longrightarrow> doc_file_id d \<in> set sel) \<and>
    (\<not> chosen \<longrightarrow> d \<in> set (heads_of (filter eligible docs)))"
proof (cases chosen)
  case True
  with assms have "filter (\<lambda>d. doc_file_id d \<in> set sel) (filter eligible docs) = [d]"
    by (simp add: head_candidate_def)
  then have "d \<in> set (filter (\<lambda>d. doc_file_id d \<in> set sel) (filter eligible docs))" by simp
  with True show ?thesis by simp
next
  case False
  with assms have h: "heads_of (filter eligible docs) = [d]" by (simp add: head_candidate_def)
  then have "d \<in> set (filter eligible docs)" using heads_of_subset [of "filter eligible docs"] by simp
  with h False show ?thesis by simp
qed

text \<open>What \<open>finish_head\<close> may change of the chosen document: its approval, never its identity.\<close>

definition approval_rule :: "string option \<Rightarrow> document_ref \<Rightarrow> bool \<Rightarrow> document_ref \<Rightarrow> bool" where
  "approval_rule env d chosen e =
     (if doc_stage d = PD \<and> approval_status d = UNKNOWN then
        (if chosen then e = d\<lparr>approval_status := APPROVED, approval_basis := INSPECTOR_SELECT\<rparr>
         else etalon_policy env = ''sole_head'' \<and> e = d\<lparr>approval_basis := SOLE_HEAD\<rparr>)
      else e = d)"

lemma finish_head_rule:
  assumes "finish_head env d pool chosen = r"
  shows "(res_status r = RESOLVED \<and>
      (\<exists>x. resolved r = Some x \<and> approval_rule env d chosen (rr_document x) \<and>
           (chosen \<or> doc_stage d \<noteq> PD \<or> approval_status d \<noteq> UNKNOWN \<or>
            \<not> (\<exists>o' \<in> set pool. doc_file_id o' \<noteq> doc_file_id d \<and> approval_status o' = APPROVED)))) \<or>
    (res_status r = RS_CLARIFICATION_REQUIRED \<and> resolved r = None \<and> \<not> chosen \<and>
       doc_stage d = PD \<and> approval_status d = UNKNOWN)"
  using assms
  by (cases chosen; cases "doc_stage d = PD"; cases "approval_status d = UNKNOWN")
     (auto simp: finish_head_def resolved_as_def no_etalon_def approval_rule_def approval_with_basis_def
       overlay_inspector_approval_def list_ex_iff Let_def split: if_splits)

lemma find_mem: "find P xs = Some x \<Longrightarrow> x \<in> set xs"
  by (auto simp: find_Some_iff)

lemma anchored_total: "\<exists>docs. anchored a docs0 = Some (Inr docs) \<and> set docs \<subseteq> set docs0"
proof (cases "identity_key a")
  case None
  let ?bs = "filter (\<lambda>d. identity_key d = None) docs0"
  obtain comps where c: "blank_components ?bs = Some (Inr comps)" "mset (concat comps) = mset ?bs"
    using components_exist by blast
  have "set (concat comps) = set ?bs" using c(2) by (metis set_mset_mset)
  then have "c \<in> set comps \<Longrightarrow> set c \<subseteq> set docs0" for c by fastforce
  with c(1) None show ?thesis
    by (cases "find (list_ex (\<lambda>d. doc_file_id d = doc_file_id a)) comps")
       (auto simp: anchored_def dest: find_mem)
next
  case (Some key)
  then show ?thesis by (auto simp: anchored_def)
qed

lemma resolve_revision_total:
  "\<exists>r. resolve_revision env docs stage anchor sel = Some r \<and> (\<forall>e. r = Inl e \<longrightarrow> exc_cls e = RevisionConflict)"
proof (cases anchor)
  case None
  then show ?thesis using resolve_pool_Inl by (auto simp: resolve_revision_def)
next
  case (Some a)
  obtain ds where "anchored a (filter (\<lambda>d. doc_stage d = stage) docs) = Some (Inr ds)"
    using anchored_total by blast
  with Some show ?thesis using resolve_pool_Inl by (auto simp: resolve_revision_def)
qed

lemma resolve_revision_pool:
  assumes "resolve_revision env docs stage anchor sel = Some (Inr r)" and "res_status r = RESOLVED"
  shows "\<exists>ds. set ds \<subseteq> set (filter (\<lambda>d. doc_stage d = stage) docs) \<and> resolve_pool env ds stage sel = Inr r"
proof (cases anchor)
  case None
  with assms have "resolve_pool env (filter (\<lambda>d. doc_stage d = stage) docs) stage sel = Inr r"
    by (simp add: resolve_revision_def)
  then show ?thesis by blast
next
  case (Some a)
  with assms have st: "doc_stage a = stage" by (auto simp: resolve_revision_def no_etalon_def split: if_splits)
  obtain ds where "anchored a (filter (\<lambda>d. doc_stage d = stage) docs) = Some (Inr ds)"
      "set ds \<subseteq> set (filter (\<lambda>d. doc_stage d = stage) docs)"
    using anchored_total by blast
  with Some st assms show ?thesis by (auto simp: resolve_revision_def)
qed

subsection \<open>The order of the documents\<close>

lemma finish_head_set:
  assumes "set pool = set pool'"
  shows "finish_head env d pool chosen = finish_head env d pool' chosen"
proof -
  have ex: "list_ex P pool = list_ex P pool'" for P by (simp add: list_ex_iff assms)
  show ?thesis by (simp add: finish_head_def resolved_as_def check_stale_revision_def ex)
qed

lemma known_keys_set: "set (known_keys docs) = {k. \<exists>d \<in> set docs. identity_key d = Some k}"
  by (force simp: known_keys_def List.map_filter_def image_iff)

lemma length_known_keys: "length (known_keys docs) = card {k. \<exists>d \<in> set docs. identity_key d = Some k}"
proof -
  have "distinct (known_keys docs)" by (simp add: known_keys_def)
  from distinct_card [OF this] show ?thesis by (simp add: known_keys_set)
qed

lemma reject_mixed_set:
  assumes "set docs = set docs'" and "reject_mixed_identities docs stage = Inr u"
  shows "reject_mixed_identities docs' stage = Inr u"
proof -
  have "known_keys docs = [] \<longleftrightarrow> known_keys docs' = []"
    using known_keys_set [of docs] known_keys_set [of docs'] assms(1) by (metis set_empty)
  moreover have "length (known_keys docs) = length (known_keys docs')"
    by (simp add: length_known_keys assms(1))
  ultimately show ?thesis using assms by (auto simp: reject_mixed_identities_def Let_def list_ex_iff split: if_splits)
qed

lemma mset_single_list: "mset xs = mset [d] \<Longrightarrow> xs = [d]"
  by simp

lemma heads_of_mset:
  assumes "mset pool = mset pool'"
  shows "mset (heads_of pool) = mset (heads_of pool')"
proof -
  have "set (map doc_file_id pool) = set (map doc_file_id pool')" using mset_eq_setD [OF assms] by simp
  then show ?thesis unfolding heads_of_def by (simp only: mset_filter assms)
qed

lemma head_candidate_mset:
  assumes "mset docs = mset docs'" and "head_candidate docs sel d chosen"
  shows "head_candidate docs' sel d chosen"
proof -
  have pool: "mset (filter eligible docs) = mset (filter eligible docs')" using assms(1) by (simp add: mset_filter)
  let ?s = "filter (\<lambda>d. doc_file_id d \<in> set sel)"
  have ms: "mset (?s (filter eligible docs)) = mset (?s (filter eligible docs'))"
    using pool by (simp only: mset_filter)
  show ?thesis
  proof (cases chosen)
    case True
    with assms(2) have "?s (filter eligible docs) = [d]" by (simp add: head_candidate_def)
    with ms have "?s (filter eligible docs') = [d]" by (metis mset_single_list)
    with True show ?thesis by (simp add: head_candidate_def)
  next
    case False
    with assms(2) have "?s (filter eligible docs) = []" "heads_of (filter eligible docs) = [d]"
      by (simp_all add: head_candidate_def)
    with ms heads_of_mset [OF pool] have "?s (filter eligible docs') = []" "heads_of (filter eligible docs') = [d]"
      by (metis mset_zero_iff, metis mset_single_list)
    with False show ?thesis by (simp add: head_candidate_def)
  qed
qed

lemma head_candidate_resolves:
  assumes "head_candidate docs sel d chosen" and "reject_mixed_identities docs stage = Inr u"
  shows "resolve_pool env docs stage sel = Inr (finish_head env d (filter eligible docs) chosen)"
proof -
  have "d \<in> set docs" "eligible d" using head_candidate_mem [OF assms(1)] by simp_all
  then have ne: "docs \<noteq> []" "filter eligible docs \<noteq> []" by (auto simp: filter_empty_conv)
  show ?thesis using assms(1)
    by (cases chosen) (auto simp add: resolve_pool_unfold [OF ne assms(2)] head_candidate_def Let_def simp del: filter_filter)
qed

lemma resolve_pool_mset:
  assumes "mset docs = mset docs'" and "resolve_pool env docs stage sel = Inr r"
  shows "resolve_pool env docs' stage sel = Inr r"
proof -
  have sets: "set docs = set docs'" and len: "length docs = length docs'"
    using assms(1) by (metis mset_eq_setD, metis mset_eq_length)
  have emp: "docs = [] \<longleftrightarrow> docs' = []" "filter eligible docs = [] \<longleftrightarrow> filter eligible docs' = []"
    using sets by (auto simp: filter_empty_conv)
  from resolve_pool_cases [OF assms(2)] show ?thesis
  proof (elim disjE exE conjE)
    fix u d chosen
    assume u: "reject_mixed_identities docs stage = Inr u" and h: "head_candidate docs sel d chosen"
      and r: "r = finish_head env d (filter eligible docs) chosen"
    have "resolve_pool env docs' stage sel = Inr (finish_head env d (filter eligible docs') chosen)"
      using head_candidate_resolves head_candidate_mset [OF assms(1) h] reject_mixed_set [OF sets u] by blast
    with r sets show ?thesis using finish_head_set [of "filter eligible docs" "filter eligible docs'"] by simp
  qed (use assms emp len in \<open>auto simp: resolve_pool_def\<close>)
qed

subsection \<open>The heads cover the stage\<close>

definition same_but_links :: "document_ref \<Rightarrow> document_ref \<Rightarrow> bool" where
  "same_but_links d e =
     (e = d\<lparr>predecessor_file_id := predecessor_file_id e, successor_file_id := successor_file_id e\<rparr>)"

lemma same_but_links_refl [simp]: "same_but_links d d"
  by (simp add: same_but_links_def)

lemma same_but_links_fields:
  "same_but_links d e \<Longrightarrow> doc_file_id e = doc_file_id d \<and> doc_file_hash e = doc_file_hash d \<and>
   doc_stage e = doc_stage d \<and> identity_key e = identity_key d"
  unfolding same_but_links_def identity_key_def
  by (metis document_ref.select_convs document_ref.surjective document_ref.update_convs(11,12))

lemma link_chain_mem: "e \<in> set (link_chain ds) \<Longrightarrow> \<exists>d \<in> set ds. same_but_links d e"
  by (force simp: link_chain_def same_but_links_def)

lemma link_chain_covers:
  assumes "d \<in> set ds"
  shows "\<exists>e \<in> set (link_chain ds). same_but_links d e"
proof -
  from assms obtain i where "i < length ds" "d = ds ! i" by (auto simp: in_set_conv_nth)
  then show ?thesis
    by (auto simp: link_chain_def same_but_links_def intro!: bexI [where x = i])
qed

lemma chain_by_filename_mem:
  assumes "chain_by_filename ds = (linked, None)"
  shows "(\<forall>e \<in> set linked. \<exists>d \<in> set ds. same_but_links d e) \<and>
    (\<forall>d \<in> set ds. \<exists>e \<in> set linked. doc_file_hash e = doc_file_hash d)"
proof -
  from assms obtain bn where bn: "number_docs (zip ds (map name_mark_of ds)) [] = Inr bn"
    and linked: "linked = link_chain (map (\<lambda>n. the (dict_get bn n)) (sort (dict_keys bn)))"
    by (auto simp: chain_by_filename_def Let_def split: if_splits sum.splits)
  let ?o = "map (\<lambda>n. the (dict_get bn n)) (sort (dict_keys bn))"
  note nd = number_docs_Inr [OF bn wf_dict_Nil]
  have keys: "n \<in> set (dict_keys bn) \<longleftrightarrow> (\<exists>d. dict_get bn n = Some d)" for n
    by (metis domD domI dom_map_of_conv_image_fst set_map)
  have os: "set ?o = {d. \<exists>n. dict_get bn n = Some d}" using keys by (force simp: image_iff)
  have "e \<in> set linked \<Longrightarrow> \<exists>d \<in> set ds. same_but_links d e" for e
  proof -
    assume "e \<in> set linked"
    then obtain d where "d \<in> set ?o" "same_but_links d e" using link_chain_mem linked by blast
    moreover from this os obtain n where "dict_get bn n = Some d" by auto
    then have "d \<in> set ds" using nd by (fastforce dest: set_zip_leftD)
    ultimately show ?thesis by blast
  qed
  moreover have "d \<in> set ds \<Longrightarrow> \<exists>e \<in> set linked. doc_file_hash e = doc_file_hash d" for d
  proof -
    assume "d \<in> set ds"
    then have "(d, name_mark_of d) \<in> set (zip ds (map name_mark_of ds))" by (auto simp: zip_map2 zip_same)
    then obtain n d' where "dict_get bn n = Some d'" "doc_file_hash d' = doc_file_hash d" using nd by blast
    moreover from this os have "d' \<in> set ?o" by blast
    then obtain e where "e \<in> set linked" "same_but_links d' e" using link_chain_covers linked by blast
    ultimately show ?thesis using same_but_links_fields [of d' e] by auto
  qed
  ultimately show ?thesis by blast
qed

lemma cluster_docs_mem:
  "(\<forall>e \<in> set (cluster_docs ds). \<exists>d \<in> set ds. same_but_links d e) \<and>
   (\<forall>d \<in> set ds. \<exists>e \<in> set (cluster_docs ds). doc_file_hash e = doc_file_hash d)"
  using chain_by_filename_mem [of ds] same_but_links_refl
  by (cases "chain_by_filename ds"; cases "snd (chain_by_filename ds)")
     (auto simp: cluster_docs_def intro: same_but_links_refl)

lemma is_loose_single: "is_loose c \<Longrightarrow> c = [hd c]"
  by (auto simp: is_loose_def split: list.splits)

lemma blank_filename_groups_cover:
  "\<exists>gs. blank_filename_groups bs stage = Some (Inr gs) \<and>
     (\<forall>g \<in> set gs. \<forall>e \<in> set g. \<exists>d \<in> set bs. same_but_links d e) \<and>
     (\<forall>d \<in> set bs. \<exists>g \<in> set gs. \<exists>e \<in> set g. doc_file_hash e = doc_file_hash d)"
proof -
  obtain comps where c: "blank_components bs = Some (Inr comps)" "mset (concat comps) = mset bs"
    using components_exist by blast
  have bs: "set bs = set (concat comps)" using c(2) by (metis set_mset_mset)
  let ?loose = "map hd (filter is_loose comps)"
  let ?named = "filter (\<lambda>d. volume_key (source_name d) \<noteq> []) ?loose"
  let ?clusters = "dict_values (group_by (\<lambda>d. volume_key (source_name d)) ?named)"
  let ?gs = "filter (\<lambda>c. \<not> is_loose c) comps @
    map (\<lambda>d. [d]) (filter (\<lambda>d. volume_key (source_name d) = []) ?loose) @ map cluster_docs ?clusters"
  have loose: "d \<in> set ?loose \<Longrightarrow> d \<in> set bs" for d
  proof -
    assume "d \<in> set ?loose"
    then obtain c where "c \<in> set comps" "is_loose c" "d = hd c" by auto
    then have "c \<in> set comps \<and> d \<in> set c" using is_loose_single [of c] by (metis list.set_intros(1))
    with bs show ?thesis by auto
  qed
  have clusters: "c \<in> set ?clusters \<Longrightarrow> set c \<subseteq> set ?named" for c
    by (auto dest!: group_by_entry)
  have origin: "\<exists>d \<in> set bs. same_but_links d e" if ge: "g \<in> set ?gs" "e \<in> set g" for g e
  proof -
    from ge(1) consider "g \<in> set comps" | d where "d \<in> set ?loose" "g = [d]"
      | k where "k \<in> set ?clusters" "g = cluster_docs k" by auto
    then show ?thesis
    proof cases
      case 1
      with ge(2) bs have "e \<in> set bs" by auto
      then show ?thesis using same_but_links_refl by blast
    next
      case (2 d)
      with ge(2) have "e \<in> set ?loose" by simp
      then show ?thesis using loose same_but_links_refl by blast
    next
      case (3 k)
      then obtain d where d: "d \<in> set k" "same_but_links d e" using ge(2) cluster_docs_mem by blast
      then have "d \<in> set ?loose" using clusters [OF 3(1)] by auto
      with d(2) show ?thesis using loose by blast
    qed
  qed
  have cover: "\<exists>g \<in> set ?gs. \<exists>e \<in> set g. doc_file_hash e = doc_file_hash d" if "d \<in> set bs" for d
  proof -
    from that bs obtain c where cd: "c \<in> set comps" "d \<in> set c" by auto
    have hd: "d \<in> set ?loose" if "is_loose c"
    proof -
      have "c = [hd c]" using that by (rule is_loose_single)
      with cd(2) have "d = hd c" by (metis empty_iff insert_iff list.set)
      with cd(1) that show ?thesis by auto
    qed
    consider "\<not> is_loose c" | "is_loose c" "volume_key (source_name d) = []"
      | "is_loose c" "volume_key (source_name d) \<noteq> []" by blast
    then show ?thesis
    proof cases
      case 1
      then have "c \<in> set ?gs" using cd by simp
      with cd(2) show ?thesis by blast
    next
      case 2
      then have "d \<in> set (filter (\<lambda>d. volume_key (source_name d) = []) ?loose)" using hd by simp
      then have "[d] \<in> set (map (\<lambda>d. [d]) (filter (\<lambda>d. volume_key (source_name d) = []) ?loose))" by simp
      then have gs: "[d] \<in> set ?gs" by (simp only: set_append Un_iff) blast
      show ?thesis by (rule bexI [OF _ gs]) simp
    next
      case 3
      then have "d \<in> set ?named" using hd by simp
      then have "\<exists>k \<in> set ?clusters. d \<in> set k \<and> d \<in> set k" by (subst group_by_together) blast
      then obtain k where "k \<in> set ?clusters" "d \<in> set k" by blast
      moreover from this have "cluster_docs k \<in> set ?gs" by (simp only: set_append set_map Un_iff) blast
      ultimately show ?thesis using cluster_docs_mem by metis
    qed
  qed
  show ?thesis
  proof (cases "stage = ID")
    case True
    then have "blank_filename_groups bs stage = Some (Inr comps)"
      using c(1) by (simp add: blank_filename_groups_def)
    moreover have "\<exists>d \<in> set bs. same_but_links d e" if "g \<in> set comps" "e \<in> set g" for g e
    proof -
      have "e \<in> set bs" using that bs by auto
      then show ?thesis using same_but_links_refl by blast
    qed
    moreover have "\<exists>g \<in> set comps. \<exists>e \<in> set g. doc_file_hash e = doc_file_hash d" if "d \<in> set bs" for d
      using that bs by auto
    ultimately show ?thesis by blast
  next
    case False
    then have "blank_filename_groups bs stage = Some (Inr ?gs)"
      using c(1) by (simp add: blank_filename_groups_def Let_def)
    with origin cover show ?thesis by blast
  qed
qed

lemma head_of_group_total:
  assumes "kg = (key, ds)"
  shows "\<exists>h. head_of_group env stage sel kg = Inr h \<and> head_key h = key \<and> head_file_ids h = map doc_file_id ds \<and>
    (\<forall>x. resolved (head_resolution h) = Some x \<longrightarrow>
       (\<exists>d \<in> set ds. doc_stage d = stage \<and> eligible d \<and> doc_file_id (rr_document x) = doc_file_id d \<and>
          identity_key (rr_document x) = identity_key d))"
proof -
  let ?ds = "filter (\<lambda>d. doc_stage d = stage) ds"
  let ?sel = "filter (\<lambda>i. i \<in> set sel) (map doc_file_id ds)"
  have none: "resolved (no_etalon RS_CLARIFICATION_REQUIRED t vs) = None" for t vs by (simp add: no_etalon_def)
  show ?thesis
  proof (cases "filename_group_conflict ds stage")
    case (Some c)
    then show ?thesis using assms none by (simp add: head_of_group_def)
  next
    case None
    show ?thesis
    proof (cases "resolve_pool env ?ds stage ?sel")
      case (Inl e)
      with None assms none resolve_pool_Inl [OF Inl] show ?thesis by (simp add: head_of_group_def Let_def)
    next
      case (Inr r)
      have "\<exists>d \<in> set ds. doc_stage d = stage \<and> eligible d \<and> doc_file_id (rr_document x) = doc_file_id d \<and>
          identity_key (rr_document x) = identity_key d" if x: "resolved r = Some x" for x
      proof -
        obtain d ch where d: "head_candidate ?ds ?sel d ch" "finish_head env d (filter eligible ?ds) ch = r"
          using resolve_pool_Inr [OF Inr] x by auto
        from finish_head_rule [OF d(2)] x have "approval_rule env d ch (rr_document x)" by auto
        then have "doc_file_id (rr_document x) = doc_file_id d \<and> identity_key (rr_document x) = identity_key d"
          by (auto simp: approval_rule_def identity_key_def split: if_splits)
        then show ?thesis using head_candidate_mem [OF d(1)] by auto
      qed
      with None Inr assms show ?thesis by (simp add: head_of_group_def Let_def)
    qed
  qed
qed

lemma heads_exist:
  "\<exists>hs. resolve_heads_by_identity env docs stage sel = Some (Inr hs) \<and>
     (\<forall>d. d \<in> set docs \<longrightarrow> doc_stage d = stage \<longrightarrow>
        (\<exists>h \<in> set hs. \<exists>e \<in> set docs. doc_file_id e \<in> set (head_file_ids h) \<and> doc_file_hash e = doc_file_hash d \<and>
           head_key h = identity_key d)) \<and>
     (\<forall>h x. h \<in> set hs \<longrightarrow> resolved (head_resolution h) = Some x \<longrightarrow>
        doc_file_id (rr_document x) \<in> set (head_file_ids h) \<and> identity_key (rr_document x) = head_key h)"
proof -
  let ?sd = "filter (\<lambda>d. doc_stage d = stage) docs"
  let ?coded = "filter (\<lambda>d. identity_key d \<noteq> None) ?sd"
  let ?blanks = "filter (\<lambda>d. identity_key d = None) ?sd"
  let ?key = "\<lambda>d. the (identity_key d)"
  obtain gs where gs: "blank_filename_groups ?blanks stage = Some (Inr gs)"
      "\<And>g e. g \<in> set gs \<Longrightarrow> e \<in> set g \<Longrightarrow> \<exists>d \<in> set ?blanks. same_but_links d e"
      "\<And>d. d \<in> set ?blanks \<Longrightarrow> \<exists>g \<in> set gs. \<exists>e \<in> set g. doc_file_hash e = doc_file_hash d"
    using blank_filename_groups_cover [of ?blanks stage] by metis
  let ?pairs = "map (\<lambda>(k, g). (Some k, g)) (group_by ?key ?coded) @ map (\<lambda>g. (None, g)) gs"
  have keyed: "identity_key e = k" if kg: "(k, g) \<in> set ?pairs" "e \<in> set g" for k g e
  proof (cases k)
    case None
    with kg have "g \<in> set gs" by auto
    then obtain d where "d \<in> set ?blanks" "same_but_links d e" using gs(2) kg(2) by blast
    with None show ?thesis using same_but_links_fields [of d e] by auto
  next
    case (Some k')
    with kg(1) have "(k', g) \<in> set (group_by ?key ?coded)" by auto
    with group_by_entry [OF this] kg(2) Some show ?thesis by auto
  qed
  obtain hs where hs: "traverse (head_of_group env stage sel) ?pairs = Inr hs"
    using traverse_total [of ?pairs "head_of_group env stage sel"] head_of_group_total by (metis surj_pair)
  have res: "resolve_heads_by_identity env docs stage sel = Some (Inr hs)"
    using gs(1) hs by (simp add: resolve_heads_by_identity_def Let_def)
  note fwd = traverse_fwd [OF hs]
  have bwd: "\<exists>k g. (k, g) \<in> set ?pairs \<and> head_of_group env stage sel (k, g) = Inr h" if "h \<in> set hs" for h
    using traverse_bwd [OF hs that] by (metis surj_pair)
  have head: "head_key h = k \<and> head_file_ids h = map doc_file_id g \<and>
      (\<forall>x. resolved (head_resolution h) = Some x \<longrightarrow>
         (\<exists>d \<in> set g. doc_file_id (rr_document x) = doc_file_id d \<and> identity_key (rr_document x) = identity_key d))"
    if "head_of_group env stage sel (k, g) = Inr h" for k g h
    using head_of_group_total [OF refl, of env stage sel k g] that by auto
  have cover: "\<exists>h \<in> set hs. \<exists>e \<in> set docs. doc_file_id e \<in> set (head_file_ids h) \<and>
      doc_file_hash e = doc_file_hash d \<and> head_key h = identity_key d"
    if d: "d \<in> set docs" "doc_stage d = stage" for d
  proof (cases "identity_key d")
    case None
    with d obtain g e where g: "g \<in> set gs" "e \<in> set g" "doc_file_hash e = doc_file_hash d" using gs(3) [of d] by auto
    obtain b where b: "b \<in> set ?blanks" "same_but_links b e" using gs(2) g by blast
    obtain h where h: "h \<in> set hs" "head_of_group env stage sel (None, g) = Inr h" using fwd [of "(None, g)"] g(1) by auto
    have hh: "head_key h = None" "head_file_ids h = map doc_file_id g" using head [OF h(2)] by simp_all
    have "doc_file_id e \<in> set (head_file_ids h)" using hh(2) g(2) by simp
    then have "doc_file_id b \<in> set (head_file_ids h)" using same_but_links_fields [OF b(2)] by simp
    moreover have "b \<in> set docs" "doc_file_hash b = doc_file_hash d"
      using b g(3) same_but_links_fields [OF b(2)] by auto
    ultimately show ?thesis using h(1) None hh(1) by metis
  next
    case (Some k)
    let ?g = "filter (\<lambda>x. ?key x = k) ?coded"
    have dg: "d \<in> set ?g" using d Some by (cases k) simp
    then have "?g \<noteq> []" by (intro notI) (simp only: list.set empty_iff)
    then have "dict_get (group_by ?key ?coded) k = Some ?g"
      unfolding group_by_get Let_def by (simp only: if_False)
    then have "(k, ?g) \<in> set (group_by ?key ?coded)" by (rule map_of_SomeD)
    then have "(Some k, ?g) \<in> set ?pairs"
      by (simp only: set_append set_map) (rule UnI1, erule rev_image_eqI, simp)
    then obtain h where h: "h \<in> set hs" "head_of_group env stage sel (Some k, ?g) = Inr h" using fwd by blast
    have hk: "head_key h = Some k" "head_file_ids h = map doc_file_id ?g" using head [OF h(2)] by simp_all
    have "doc_file_id d \<in> set (map doc_file_id ?g)" using dg by (simp only: set_map) (rule imageI)
    then have "doc_file_id d \<in> set (head_file_ids h)" by (simp only: hk(2))
    then show ?thesis using h(1) d(1) Some hk(1) by metis
  qed
  have own: "doc_file_id (rr_document x) \<in> set (head_file_ids h) \<and> identity_key (rr_document x) = head_key h"
    if hx: "h \<in> set hs" "resolved (head_resolution h) = Some x" for h x
  proof -
    obtain k g where kg: "(k, g) \<in> set ?pairs" "head_of_group env stage sel (k, g) = Inr h" using bwd hx(1) by blast
    from head [OF kg(2)] hx(2) obtain d where "d \<in> set g" "doc_file_id (rr_document x) = doc_file_id d"
        "identity_key (rr_document x) = identity_key d" by blast
    then show ?thesis using head [OF kg(2)] keyed [OF kg(1)] by auto
  qed
  show ?thesis using res cover own by blast
qed

subsection \<open>Properties\<close>

text \<open>
  C34. Files without a code form one chain exactly when explicit predecessor or successor links
  connect them: the union-find with path halving ends on every package, raises no exception, loses
  or doubles no file, and puts two files together exactly when links connect their ids.
\<close>

theorem blank_components_are_link_components:
  "\<exists>comps. blank_components bs = Some (Inr comps) \<and> mset (concat comps) = mset bs \<and> [] \<notin> set comps \<and>
     (\<forall>a b. (\<exists>c \<in> set comps. a \<in> set c \<and> b \<in> set c) =
        (a \<in> set bs \<and> b \<in> set bs \<and> (doc_file_id a, doc_file_id b) \<in> (doc_links bs \<union> (doc_links bs)\<inverse>)\<^sup>*))"
  using components_exist unfolding tied_def .

text \<open>
  C33. The resolver always answers, and what it resolves is an etalon a comparison may use: a
  document of the requested stage without an explicit refusal, unchanged except for its approval.
  A design document without an approval stamp is taken only if the inspector chose that file
  (it becomes approved by the inspector) or, under the policy \<open>sole_head\<close>, as an unproven sole head.
\<close>

theorem etalon_is_eligible:
  assumes "resolve_revision env docs stage anchor sel = Some (Inr r)" and "res_status r = RESOLVED"
  shows "\<exists>x d. resolved r = Some x \<and> d \<in> set docs \<and> doc_stage d = stage \<and> approval_status d \<noteq> NOT_APPROVED \<and>
    (if doc_stage d = PD \<and> approval_status d = UNKNOWN then
       (if doc_file_id d \<in> set sel
        then rr_document x = d\<lparr>approval_status := APPROVED, approval_basis := INSPECTOR_SELECT\<rparr>
        else etalon_policy env = ''sole_head'' \<and> rr_document x = d\<lparr>approval_basis := SOLE_HEAD\<rparr>)
     else rr_document x = d)"
proof -
  obtain ds where ds: "set ds \<subseteq> set (filter (\<lambda>d. doc_stage d = stage) docs)" "resolve_pool env ds stage sel = Inr r"
    using resolve_revision_pool [OF assms] by blast
  from resolve_pool_Inr [OF ds(2)] assms(2) obtain d ch where
      d: "head_candidate ds sel d ch" "finish_head env d (filter eligible ds) ch = r" by auto
  from finish_head_rule [OF d(2)] assms(2) obtain x where
      x: "resolved r = Some x" "approval_rule env d ch (rr_document x)" by auto
  have m: "d \<in> set docs" "doc_stage d = stage" "approval_status d \<noteq> NOT_APPROVED"
    using head_candidate_mem [OF d(1)] ds(1) by (auto simp: eligible_def)
  have "\<not> ch \<Longrightarrow> doc_file_id d \<notin> set sel"
    using d(1) head_candidate_mem [OF d(1)] by (auto simp: head_candidate_def Let_def filter_empty_conv)
  then have chosen: "ch = (doc_file_id d \<in> set sel)" using head_candidate_mem [OF d(1)] by blast
  show ?thesis using x m unfolding approval_rule_def chosen by blast
qed

definition sample_doc :: "string \<Rightarrow> document_ref" where
  "sample_doc i = \<lparr>doc_file_id = i, doc_file_hash = i, doc_stage = PD, document_code = ''AR'', revision = [],
     approval_status = UNKNOWN, approval_basis = UNPROVEN, discipline = None, approval_date = None,
     sheet = None, predecessor_file_id = None, successor_file_id = None, source_name = [], revision_kind = []\<rparr>"

lemma sample_doc_resolves:
  "resolve_revision None [sample_doc ''f1''] PD None [] =
     Some (Inr \<lparr>res_status = RESOLVED,
       resolved = Some \<lparr>rr_document = (sample_doc ''f1'')\<lparr>approval_basis := SOLE_HEAD\<rparr>, is_stale = False\<rparr>,
       conflict_reason = None\<rparr>)"
proof -
  have "etalon_policy None = ''sole_head''"
    by (simp add: etalon_policy_def strip_def is_space_def str_lower_def lower_code_def odd_case_pairs_def)
       (simp add: char_of_def bit_iff_odd)
  then show ?thesis
    by (simp add: resolve_revision_def resolve_pool_def sample_doc_def eligible_def reject_mixed_identities_def
        known_keys_def List.map_filter_def identity_key_def heads_of_def finish_head_def resolved_as_def
        check_stale_revision_def)
qed

theorem etalon_is_eligible_witness:
  "\<exists>(x :: resolved_revision) (d :: document_ref). d \<in> set [sample_doc ''f1''] \<and> doc_stage d = PD \<and> approval_status d = UNKNOWN \<and>
     rr_document x = d\<lparr>approval_basis := SOLE_HEAD\<rparr>"
proof -
  have s: "approval_status (sample_doc ''f1'') = UNKNOWN" "doc_stage (sample_doc ''f1'') = PD"
    by (simp_all add: sample_doc_def)
  from etalon_is_eligible [OF sample_doc_resolves revision_resolution.select_convs(1)]
  obtain x :: resolved_revision and d :: document_ref where d: "d \<in> set [sample_doc ''f1'']"
    and x: "if doc_stage d = PD \<and> approval_status d = UNKNOWN then
       (if doc_file_id d \<in> set []
        then rr_document x = d\<lparr>approval_status := APPROVED, approval_basis := INSPECTOR_SELECT\<rparr>
        else etalon_policy None = ''sole_head'' \<and> rr_document x = d\<lparr>approval_basis := SOLE_HEAD\<rparr>)
     else rr_document x = d"
    by blast
  from d have "d = sample_doc ''f1''" by simp
  with x s have "rr_document x = d\<lparr>approval_basis := SOLE_HEAD\<rparr>" by simp
  with d \<open>d = sample_doc ''f1''\<close> s show ?thesis by blast
qed



text \<open>
  C35. Resolving all codes of a stage always returns, conflicts included, and drops no document:
  every document of the stage, or a file with the same hash, belongs to a head of its own identity,
  and the etalon of a head is one of the files of that head and has its identity.
\<close>

theorem every_document_has_a_head:
  "\<exists>hs. resolve_heads_by_identity env docs stage sel = Some (Inr hs) \<and>
     (\<forall>d. d \<in> set docs \<and> doc_stage d = stage \<longrightarrow>
        (\<exists>h \<in> set hs. \<exists>e \<in> set docs. doc_file_id e \<in> set (head_file_ids h) \<and> doc_file_hash e = doc_file_hash d \<and>
           head_key h = identity_key d)) \<and>
     (\<forall>h x. h \<in> set hs \<and> resolved (head_resolution h) = Some x \<longrightarrow>
        doc_file_id (rr_document x) \<in> set (head_file_ids h) \<and> identity_key (rr_document x) = head_key h)"
  using heads_exist [of env docs stage sel] by blast

theorem every_document_has_a_head_witness:
  "\<exists>hs h. resolve_heads_by_identity None [sample_doc ''f1''] PD [] = Some (Inr hs) \<and> h \<in> set hs \<and>
     head_key h = Some (''AR'', [], [])"
proof -
  have "sample_doc ''f1'' \<in> set [sample_doc ''f1''] \<and> doc_stage (sample_doc ''f1'') = PD"
    and "identity_key (sample_doc ''f1'') = Some (''AR'', [], [])"
    by (simp_all add: sample_doc_def identity_key_def)
  moreover obtain hs where hs: "resolve_heads_by_identity None [sample_doc ''f1''] PD [] = Some (Inr hs)"
      "\<forall>d. d \<in> set [sample_doc ''f1''] \<and> doc_stage d = PD \<longrightarrow>
        (\<exists>h \<in> set hs. \<exists>e \<in> set [sample_doc ''f1'']. doc_file_id e \<in> set (head_file_ids h) \<and>
           doc_file_hash e = doc_file_hash d \<and> head_key h = identity_key d)"
    using every_document_has_a_head [of None "[sample_doc ''f1'']" PD "[]"] by blast
  ultimately obtain h where "h \<in> set hs" "head_key h = Some (''AR'', [], [])" by fastforce
  with hs(1) show ?thesis by blast
qed

end
