(* ===== verification/Review.thy ===== *)
theory Review
  imports State_Machines Revision_Resolver Json
begin

section \<open>The inspector's decisions (application/review.py)\<close>

text \<open>
  The only place where a finding becomes \<open>CONFIRMED_VIOLATION\<close> or \<open>NEGATIVE_VERIFIED\<close>, and the
  only functions that move a process past \<open>READY\<close>. \<open>datetime.now\<close> is an argument (\<open>now\<close>).
  \<open>replace\<close> builds a new finding, so it runs the constructor's checks (\<open>mk_finding\<close>).
  The functions that write the journal take the port \<open>AuditLog\<close> (domain/ports.py) as an argument
  of type \<open>audit_port\<close>: recording may change the caller's state and may raise.
\<close>

definition MASS_CONFIRM_LIMIT :: nat where
  "MASS_CONFIRM_LIMIT = 50"

definition ACTION_TO_STATUS :: "(string, finding_status) dict" where
  "ACTION_TO_STATUS =
     [(''CONFIRM'', CONFIRMED_VIOLATION), (''REJECT'', NEGATIVE_VERIFIED),
      (''REQUEST_CLARIFICATION'', CLARIFICATION_REQUIRED)]"

definition review ::
    "finding \<Rightarrow> actor \<Rightarrow> string \<Rightarrow> reason_code option \<Rightarrow> string option \<Rightarrow> timestamp \<Rightarrow> finding result" where
  "review f who act why note now =
     (if act = ''SPLIT'' then raise TransitionError ''SPLIT is not an atomic review action; use split()'' []
      else case dict_get ACTION_TO_STATUS act of
        None \<Rightarrow> raise TransitionError ''unknown review action'' [act]
      | Some target \<Rightarrow>
          if act = ''REJECT'' \<and> why = None then raise TransitionError ''REJECT requires reason_code'' []
          else (case note of
              None \<Rightarrow> raise TransitionError ''review action requires comment'' []
            | Some c \<Rightarrow>
                if blank c then raise TransitionError ''review action requires comment'' []
                else bindr (advance_finding (finding_status f) target who) (\<lambda>_.
                  mk_finding (f\<lparr>finding_status := target,
                    inspector_decision := Some \<lparr>inspector_id = actor_id who, action = act,
                      decided_at = now, reason_code = why, comment = Some (strip c)\<rparr>\<rparr>))))"

definition confirm_candidates ::
    "finding list \<Rightarrow> actor \<Rightarrow> string \<Rightarrow> (finding \<Rightarrow> timestamp) \<Rightarrow> finding list result" where
  "confirm_candidates fs who note now =
     (if fs = [] then raise TransitionError ''empty confirmation list'' []
      else if length fs > MASS_CONFIRM_LIMIT then
        raise TransitionError ''batch larger than the limit'' [show_nat MASS_CONFIRM_LIMIT]
      else if \<not> distinct (map finding_id fs) then
        raise TransitionError ''finding_id repeated in the batch'' []
      else if \<not> is_human who then
        raise TransitionError ''mass confirmation requires an inspector'' []
      else (case find (\<lambda>f. finding_status f \<noteq> CANDIDATE) fs of
          Some f \<Rightarrow> raise TransitionError ''only a CANDIDATE is confirmed in a batch'' [finding_id f]
        | None \<Rightarrow> traverse (\<lambda>f. review f who ''CONFIRM'' None (Some note) (now f)) fs))"

definition can_finalize :: "finding list \<Rightarrow> bool \<times> string list" where
  "can_finalize fs =
     (let pending = map finding_id (filter (\<lambda>f. finding_status f \<in> {CANDIDATE}) fs)
      in (pending = [], pending))"

definition select_revision_as_etalon :: "actor \<Rightarrow> approval_status \<Rightarrow> string \<Rightarrow> approval_status result" where
  "select_revision_as_etalon who stamp note =
     (if \<not> is_human who then raise TransitionError ''choosing the etalon requires an inspector'' []
      else if blank note then raise TransitionError ''choosing the etalon requires comment'' []
      else if stamp = NOT_APPROVED then
        raise TransitionError ''an explicit refusal cannot be overridden by the inspector'' []
      else Inr (overlay_inspector_approval stamp True))"

text \<open>The loop of \<open>split\<close>: \<open>i\<close> is the index from 1, \<open>seen\<close> the group ids so far.\<close>

fun split_parts :: "finding \<Rightarrow> nat \<Rightarrow> string list \<Rightarrow> evidence_group list \<Rightarrow> finding list result" where
  "split_parts f i seen [] = Inr []"
| "split_parts f i seen (g # gs) =
     (if fragments g = [] then raise TransitionError ''a part has no evidence'' []
      else if group_rule_code g \<noteq> rule_code f then
        raise TransitionError ''a part belongs to another rule'' []
      else if group_id g \<in> set seen then
        raise TransitionError ''two parts have one evidence_group_id'' []
      else bindr (mk_finding (f\<lparr>finding_id := finding_id f @ '':'' @ show_nat i,
                    evidence_group_id := Some (group_id g),
                    evidence_refs := map fragment_id (fragments g),
                    inspector_decision := None\<rparr>))
             (\<lambda>part. bindr (split_parts f (Suc i) (group_id g # seen) gs) (\<lambda>rest. Inr (part # rest))))"

definition split_finding :: "finding \<Rightarrow> evidence_group list \<Rightarrow> actor \<Rightarrow> finding list result" where
  "split_finding f parts who =
     (if \<not> is_human who then raise TransitionError ''splitting requires an inspector'' []
      else if finding_status f \<noteq> CANDIDATE then raise TransitionError ''only a candidate is split'' []
      else if length parts < 2 then
        raise TransitionError ''at least two parts with their own evidence are needed'' []
      else split_parts f 1 [] parts)"

subsection \<open>The journal\<close>

type_synonym audit_event = "string \<times> string \<times> json"
type_synonym 's audit_port = "string \<Rightarrow> string \<Rightarrow> json \<Rightarrow> ('s, unit) prog"

definition from_to :: "process_state \<Rightarrow> process_state \<Rightarrow> json" where
  "from_to s t = JObj [(''from'', JStr (process_state_value s)), (''to'', JStr (process_state_value t))]"

definition start_verification :: "process_state \<Rightarrow> actor \<Rightarrow> 's audit_port \<Rightarrow> ('s, process_state) prog" where
  "start_verification current who audit =
     bindp (liftp (guard (\<not> is_human who)
              (Exc TransitionError ''start verification requires a human inspector'' [])))
       (\<lambda>_. bindp (liftp (enter_verifying current who))
       (\<lambda>target. bindp (audit (actor_id who) ''START_VERIFICATION'' (from_to current target))
       (\<lambda>_. liftp (Inr target))))"

definition complete_verification ::
    "process_state \<Rightarrow> actor \<Rightarrow> finding list \<Rightarrow> 's audit_port \<Rightarrow> ('s, process_state) prog" where
  "complete_verification current who fs audit =
     bindp (liftp (guard (\<not> is_human who)
              (Exc TransitionError ''complete verification requires a human inspector'' [])))
       (\<lambda>_. bindp (liftp (guard (\<not> fst (can_finalize fs))
              (Exc TransitionError ''unprocessed findings'' (snd (can_finalize fs)))))
       (\<lambda>_. bindp (liftp (enter_completed current who))
       (\<lambda>target. bindp (audit (actor_id who) ''COMPLETE_VERIFICATION'' (from_to current target))
       (\<lambda>_. liftp (Inr target)))))"

definition finalize_process ::
    "process_state \<Rightarrow> actor \<Rightarrow> finding list \<Rightarrow> 's audit_port \<Rightarrow> ('s, process_state) prog" where
  "finalize_process current who fs audit =
     bindp (liftp (guard (\<not> is_human who)
              (Exc TransitionError ''finalize requires a human inspector'' [])))
       (\<lambda>_. bindp (liftp (guard (\<not> fst (can_finalize fs))
              (Exc TransitionError ''unprocessed findings'' (snd (can_finalize fs)))))
       (\<lambda>_. bindp (liftp (enter_finalized current who))
       (\<lambda>target. bindp (audit (actor_id who) ''FINALIZE'' (from_to current target))
       (\<lambda>_. liftp (Inr target)))))"

definition unfinalize_process ::
    "process_state \<Rightarrow> actor \<Rightarrow> string \<Rightarrow> 's audit_port \<Rightarrow> ('s, process_state) prog" where
  "unfinalize_process current who why audit =
     bindp (liftp (unfinalize current who why))
       (\<lambda>target. bindp (audit (actor_id who) ''UNFINALIZE''
          (JObj [(''from'', JStr (process_state_value current)), (''to'', JStr (process_state_value target)),
                 (''reason'', JStr (strip why))]))
       (\<lambda>_. liftp (Inr target)))"

subsection \<open>What the journal promises\<close>

text \<open>
  An audit log only grows: recording an event appends it at the end, a failed recording changes
  nothing, and neither touches what the log's owner keeps besides (\<open>rest\<close>). Inside the interface
  every journalled transition is exact: it succeeds together with exactly one new event, or it
  leaves the journal alone.
\<close>

locale audit_log =
  fixes record_event :: "'s audit_port"
    and events :: "'s \<Rightarrow> audit_event list"
    and rest :: "'s \<Rightarrow> 'r"
  assumes appends: "record_event a act p s = (Inr u, s') \<Longrightarrow> events s' = events s @ [(a, act, p)]"
    and failed: "record_event a act p s = (Inl e, s') \<Longrightarrow> events s' = events s"
    and frame: "record_event a act p s = (r, s') \<Longrightarrow> rest s' = rest s"
begin

lemma journalled:
  assumes "bindp (record_event a act p) (\<lambda>_. liftp (Inr t)) s = (r, s')"
  shows "rest s' = rest s \<and>
    (case r of Inr x \<Rightarrow> x = t \<and> events s' = events s @ [(a, act, p)] | Inl e \<Rightarrow> events s' = events s)"
proof -
  obtain q s1 where q: "record_event a act p s = (q, s1)" by (cases "record_event a act p s")
  with assms have "s' = s1" by (cases q) (auto simp: bindp_apply)
  then show ?thesis using assms q appends failed frame by (cases q) (auto simp: bindp_apply)
qed

lemma start_exact:
  assumes "start_verification current who record_event s = (r, s')"
  shows "rest s' = rest s \<and>
    (case r of
       Inr t \<Rightarrow> t = VERIFYING \<and> current = READY \<and> is_human who \<and>
         events s' = events s @ [(actor_id who, ''START_VERIFICATION'', from_to READY VERIFYING)]
     | Inl e \<Rightarrow> events s' = events s)"
proof (cases "is_human who \<and> current = READY")
  case True
  with assms have "bindp (record_event (actor_id who) ''START_VERIFICATION'' (from_to READY VERIFYING))
      (\<lambda>_. liftp (Inr VERIFYING)) s = (r, s')"
    by (simp add: start_verification_def enter_verifying_def)
  from journalled [OF this] True show ?thesis by (auto split: sum.splits)
next
  case False
  with assms have "s' = s \<and> (\<exists>e. r = Inl e)"
    by (auto simp: start_verification_def enter_verifying_def guard_def split: if_splits)
  then show ?thesis by auto
qed

lemma complete_exact:
  assumes "complete_verification current who fs record_event s = (r, s')"
  shows "rest s' = rest s \<and>
    (case r of
       Inr t \<Rightarrow> t = COMPLETED \<and> current = VERIFYING \<and> is_human who \<and>
         (\<forall>f \<in> set fs. finding_status f \<noteq> CANDIDATE) \<and>
         events s' = events s @ [(actor_id who, ''COMPLETE_VERIFICATION'', from_to VERIFYING COMPLETED)]
     | Inl e \<Rightarrow> events s' = events s)"
proof (cases "is_human who \<and> fst (can_finalize fs) \<and> current = VERIFYING")
  case True
  with assms have "bindp (record_event (actor_id who) ''COMPLETE_VERIFICATION'' (from_to VERIFYING COMPLETED))
      (\<lambda>_. liftp (Inr COMPLETED)) s = (r, s')"
    by (simp add: complete_verification_def enter_completed_def)
  from journalled [OF this] True show ?thesis
    by (auto simp: can_finalize_def filter_empty_conv split: sum.splits)
next
  case False
  with assms have "s' = s \<and> (\<exists>e. r = Inl e)"
    by (auto simp: complete_verification_def enter_completed_def guard_def split: if_splits)
  then show ?thesis by auto
qed

lemma finalize_exact:
  assumes "finalize_process current who fs record_event s = (r, s')"
  shows "rest s' = rest s \<and>
    (case r of
       Inr t \<Rightarrow> t = FINALIZED \<and> current = COMPLETED \<and> is_human who \<and>
         (\<forall>f \<in> set fs. finding_status f \<noteq> CANDIDATE) \<and>
         events s' = events s @ [(actor_id who, ''FINALIZE'', from_to COMPLETED FINALIZED)]
     | Inl e \<Rightarrow> events s' = events s)"
proof (cases "is_human who \<and> fst (can_finalize fs) \<and> current = COMPLETED")
  case True
  with assms have "bindp (record_event (actor_id who) ''FINALIZE'' (from_to COMPLETED FINALIZED))
      (\<lambda>_. liftp (Inr FINALIZED)) s = (r, s')"
    by (simp add: finalize_process_def enter_finalized_def)
  from journalled [OF this] True show ?thesis
    by (auto simp: can_finalize_def filter_empty_conv split: sum.splits)
next
  case False
  with assms have "s' = s \<and> (\<exists>e. r = Inl e)"
    by (auto simp: finalize_process_def enter_finalized_def guard_def split: if_splits)
  then show ?thesis by auto
qed

lemma unfinalize_exact:
  assumes "unfinalize_process current who why record_event s = (r, s')"
  shows "rest s' = rest s \<and>
    (case r of
       Inr t \<Rightarrow> t = COMPLETED \<and> current = FINALIZED \<and> is_human who \<and> \<not> blank why \<and>
         (\<exists>p. events s' = events s @ [(actor_id who, ''UNFINALIZE'', p)])
     | Inl e \<Rightarrow> events s' = events s)"
proof (cases "unfinalize current who why")
  case (Inr t)
  with assms have "bindp (record_event (actor_id who) ''UNFINALIZE''
      (JObj [(''from'', JStr (process_state_value current)), (''to'', JStr (process_state_value t)),
             (''reason'', JStr (strip why))])) (\<lambda>_. liftp (Inr t)) s = (r, s')"
    by (simp add: unfinalize_process_def)
  from journalled [OF this] Inr show ?thesis by (auto simp: unfinalize_Inr split: sum.splits)
next
  case (Inl e)
  with assms have "r = Inl e \<and> s' = s" by (simp add: unfinalize_process_def)
  then show ?thesis by simp
qed

end

subsection \<open>Decisions on findings\<close>

definition decided ::
    "finding \<Rightarrow> finding_status \<Rightarrow> actor \<Rightarrow> string \<Rightarrow> reason_code option \<Rightarrow> string \<Rightarrow> timestamp \<Rightarrow> finding" where
  "decided f target who act why c now =
     f\<lparr>finding_status := target,
       inspector_decision := Some \<lparr>inspector_id = actor_id who, action = act, decided_at = now,
         reason_code = why, comment = Some (strip c)\<rparr>\<rparr>"

lemma ACTION_TO_STATUS_Some:
  "dict_get ACTION_TO_STATUS act = Some t \<longleftrightarrow>
     (act = ''CONFIRM'' \<and> t = CONFIRMED_VIOLATION) \<or> (act = ''REJECT'' \<and> t = NEGATIVE_VERIFIED) \<or>
     (act = ''REQUEST_CLARIFICATION'' \<and> t = CLARIFICATION_REQUIRED)"
  by (auto simp: ACTION_TO_STATUS_def)

lemma review_Inr:
  "review f who act why note now = Inr g \<longleftrightarrow>
     (\<exists>t c. dict_get ACTION_TO_STATUS act = Some t \<and> (act = ''REJECT'' \<longrightarrow> why \<noteq> None) \<and>
        note = Some c \<and> \<not> blank c \<and> advance_finding (finding_status f) t who = Inr t \<and>
        g = decided f t who act why c now \<and> wf_finding g)"
proof -
  have "dict_get ACTION_TO_STATUS act = Some t \<Longrightarrow> act \<noteq> ''SPLIT''" for t
    by (auto simp: ACTION_TO_STATUS_Some)
  then show ?thesis
    unfolding review_def decided_def [symmetric]
    by (auto simp: bindr_eq_Inr mk_finding_Inr advance_finding_Inr split: option.splits)
qed

lemma decided_wf:
  assumes "truthy (evidence_group_id f)" and "\<not> blank c"
    and "dict_get ACTION_TO_STATUS act = Some t" and "act = ''REJECT'' \<longrightarrow> why \<noteq> None"
  shows "wf_finding (decided f t who act why c now)"
  using assms by (auto simp: wf_finding_iff decided_def ACTION_TO_STATUS_Some has_comment_def)

lemma confirm_candidate_Inr:
  assumes "finding_status f = CANDIDATE" and "is_human who"
  shows "(\<exists>g. review f who ''CONFIRM'' None (Some note) now = Inr g) \<longleftrightarrow>
    \<not> blank note \<and> truthy (evidence_group_id f)"
proof
  assume "\<exists>g. review f who ''CONFIRM'' None (Some note) now = Inr g"
  then show "\<not> blank note \<and> truthy (evidence_group_id f)"
    by (auto simp: review_Inr ACTION_TO_STATUS_Some wf_finding_iff decided_def STATUSES_REQUIRING_EVIDENCE_def)
next
  assume a: "\<not> blank note \<and> truthy (evidence_group_id f)"
  have "advance_finding (finding_status f) CONFIRMED_VIOLATION who = Inr CONFIRMED_VIOLATION"
    using assms by (simp add: advance_finding_Inr)
  moreover have "wf_finding (decided f CONFIRMED_VIOLATION who ''CONFIRM'' None note now)"
    using a by (intro decided_wf) (simp_all add: ACTION_TO_STATUS_Some)
  ultimately show "\<exists>g. review f who ''CONFIRM'' None (Some note) now = Inr g"
    using a by (auto simp: review_Inr ACTION_TO_STATUS_Some)
qed

lemma confirm_guards:
  "confirm_candidates fs who note now = Inr gs \<longleftrightarrow>
     fs \<noteq> [] \<and> length fs \<le> MASS_CONFIRM_LIMIT \<and> distinct (map finding_id fs) \<and> is_human who \<and>
     (\<forall>f \<in> set fs. finding_status f = CANDIDATE) \<and>
     traverse (\<lambda>f. review f who ''CONFIRM'' None (Some note) (now f)) fs = Inr gs"
proof (cases "find (\<lambda>f. finding_status f \<noteq> CANDIDATE) fs")
  case None
  then have "(\<forall>f \<in> set fs. finding_status f = CANDIDATE) = True" by (simp add: find_None_iff)
  then show ?thesis
    unfolding confirm_candidates_def None option.case not_less [symmetric]
    by (simp only: split: if_split) blast
next
  case (Some f)
  then have "f \<in> set fs \<and> finding_status f \<noteq> CANDIDATE" by (auto simp: find_Some_iff)
  then have "\<not> (\<forall>f \<in> set fs. finding_status f = CANDIDATE)" by blast
  with Some show ?thesis by (simp add: confirm_candidates_def)
qed

lemma split_parts_Inr:
  assumes "split_parts f i seen gs = Inr ps"
  shows "length ps = length gs \<and> distinct (map group_id gs) \<and> set (map group_id gs) \<inter> set seen = {} \<and>
    (\<forall>k < length gs. ps ! k = f\<lparr>finding_id := finding_id f @ '':'' @ show_nat (i + k),
        evidence_group_id := Some (group_id (gs ! k)), evidence_refs := map fragment_id (fragments (gs ! k)),
        inspector_decision := None\<rparr> \<and> wf_finding (ps ! k) \<and>
      fragments (gs ! k) \<noteq> [] \<and> group_rule_code (gs ! k) = rule_code f)"
  using assms
proof (induction f i seen gs arbitrary: ps rule: split_parts.induct)
  case (1 f i seen)
  then show ?case by simp
next
  case (2 f i seen g gs)
  from "2.prems" obtain p rest where p: "fragments g \<noteq> []" "group_rule_code g = rule_code f" "group_id g \<notin> set seen"
      "p = f\<lparr>finding_id := finding_id f @ '':'' @ show_nat i, evidence_group_id := Some (group_id g),
             evidence_refs := map fragment_id (fragments g), inspector_decision := None\<rparr>" "wf_finding p"
      "split_parts f (Suc i) (group_id g # seen) gs = Inr rest" "ps = p # rest"
    by (auto simp: bindr_eq_Inr mk_finding_Inr split: if_splits)
  have ih': "length rest = length gs \<and> distinct (map group_id gs) \<and>
      set (map group_id gs) \<inter> set (group_id g # seen) = {} \<and>
      (\<forall>k < length gs. rest ! k = f\<lparr>finding_id := finding_id f @ '':'' @ show_nat (Suc i + k),
          evidence_group_id := Some (group_id (gs ! k)), evidence_refs := map fragment_id (fragments (gs ! k)),
          inspector_decision := None\<rparr> \<and> wf_finding (rest ! k) \<and>
        fragments (gs ! k) \<noteq> [] \<and> group_rule_code (gs ! k) = rule_code f)"
    by (rule "2.IH" [OF p(1) _ p(3,6)]) (simp add: p(2))
  show ?case
  proof (intro conjI allI impI)
    show "length ps = length (g # gs)" using ih' p(7) by simp
    show "distinct (map group_id (g # gs))" using ih' by auto
    show "set (map group_id (g # gs)) \<inter> set seen = {}" using ih' p(3) by auto
  next
    fix k
    assume k: "k < length (g # gs)"
    show "ps ! k = f\<lparr>finding_id := finding_id f @ '':'' @ show_nat (i + k),
        evidence_group_id := Some (group_id ((g # gs) ! k)),
        evidence_refs := map fragment_id (fragments ((g # gs) ! k)), inspector_decision := None\<rparr>"
      using k ih' p by (cases k) auto
    show "wf_finding (ps ! k)" "fragments ((g # gs) ! k) \<noteq> []" "group_rule_code ((g # gs) ! k) = rule_code f"
      using k ih' p by (cases k; auto)+
  qed
qed

subsection \<open>Properties\<close>

text \<open>
  C8. A verdict on a finding is signed: when \<open>review\<close> returns, the finding has the status of the
  action, reached by a transition of the table, the decision of the actor with a non-blank comment,
  and nothing else changed; a confirmation or a rejection was made by a human, a rejection with a
  reason code, and the result satisfies the invariant of findings.
\<close>

theorem review_signs_the_verdict:
  assumes "review f who act why note now = Inr g"
  shows "wf_finding g \<and> dict_get ACTION_TO_STATUS act = Some (finding_status g) \<and>
    finding_status g \<in> set (FINDING_TRANSITIONS (finding_status f)) \<and>
    (finding_status g \<in> set HUMAN_ONLY_STATUSES \<longrightarrow> is_human who) \<and>
    (act = ''REJECT'' \<longrightarrow> why \<noteq> None) \<and>
    (\<exists>c. note = Some c \<and> \<not> blank c \<and>
       g = f\<lparr>finding_status := finding_status g,
             inspector_decision := Some \<lparr>inspector_id = actor_id who, action = act, decided_at = now,
               reason_code = why, comment = Some (strip c)\<rparr>\<rparr>)"
  using assms by (auto simp: review_Inr advance_finding_Inr decided_def)

definition sample_finding :: finding where
  "sample_finding = \<lparr>finding_id = ''F1'', rule_code = ''PZ-001'', finding_status = CANDIDATE,
     review_priority = HIGH, matrix_version = ''m'', rule_version = ''1'', model_version = ''none'',
     evidence_group_id = Some ''G1'', expected_value = None, actual_value = None, delta = None,
     rationale = [], llm_draft = None, inspector_decision = None, source_id = Some ''S1'',
     evidence_refs = [], disagreement_kind = None\<rparr>"

definition sample_inspector :: actor where
  "sample_inspector = \<lparr>actor_id = ''insp'', is_human = True, is_supervisor = False\<rparr>"

lemma not_blank_ok: "\<not> blank ''ok''"
  by (simp add: blank_iff is_space_def)

lemma sample_confirm: "\<exists>g. review sample_finding sample_inspector ''CONFIRM'' None (Some ''ok'') 5 = Inr g"
  using not_blank_ok by (subst confirm_candidate_Inr) (simp_all add: sample_finding_def sample_inspector_def)

theorem review_signs_the_verdict_witness:
  "\<exists>g. review sample_finding sample_inspector ''CONFIRM'' None (Some ''ok'') 5 = Inr g \<and>
       wf_finding g \<and> finding_status g = CONFIRMED_VIOLATION"
proof -
  obtain g where g: "review sample_finding sample_inspector ''CONFIRM'' None (Some ''ok'') 5 = Inr g"
    using sample_confirm by blast
  from review_signs_the_verdict [OF g] have "wf_finding g \<and> finding_status g = CONFIRMED_VIOLATION"
    by (auto simp: ACTION_TO_STATUS_def)
  with g show ?thesis by blast
qed

text \<open>
  A batch is confirmed as a whole or not at all: it is accepted exactly when it has 1 to 50
  candidates with evidence and distinct ids and a human confirms them with a comment.
\<close>

theorem mass_confirmation_is_all_or_nothing:
  "(\<exists>gs. confirm_candidates fs who note now = Inr gs) =
     (fs \<noteq> [] \<and> length fs \<le> 50 \<and> distinct (map finding_id fs) \<and> is_human who \<and> \<not> blank note \<and>
      list_all (\<lambda>f. finding_status f = CANDIDATE \<and> truthy (evidence_group_id f)) fs)"
  (is "?l = ?r")
proof -
  have "(\<exists>gs. traverse (\<lambda>f. review f who ''CONFIRM'' None (Some note) (now f)) fs = Inr gs) \<longleftrightarrow>
      (\<forall>f \<in> set fs. \<not> blank note \<and> truthy (evidence_group_id f))"
    if "is_human who" "\<forall>f \<in> set fs. finding_status f = CANDIDATE"
    using that by (simp add: traverse_ok_iff confirm_candidate_Inr)
  then show ?thesis unfolding confirm_guards MASS_CONFIRM_LIMIT_def list_all_iff
    by (cases fs) auto
qed

text \<open>
  Splitting a composite candidate yields one atomic candidate per part: each with its own
  evidence group, evidence of the same rule, no decision yet, and an id no other part has.
\<close>

theorem split_gives_atomic_candidates:
  assumes "split_finding f parts who = Inr gs"
  shows "is_human who \<and> length gs = length parts \<and> 2 \<le> length gs \<and>
    map evidence_group_id gs = map (Some \<circ> group_id) parts \<and> distinct (map evidence_group_id gs) \<and>
    distinct (map finding_id gs) \<and>
    list_all (\<lambda>g. finding_status g = CANDIDATE \<and> inspector_decision g = None \<and> rule_code g = rule_code f \<and>
       wf_finding g) gs"
proof -
  from assms have h: "is_human who" "finding_status f = CANDIDATE" "2 \<le> length parts"
    and p: "split_parts f 1 [] parts = Inr gs"
    by (auto simp: split_finding_def split: if_splits)
  note sp = split_parts_Inr [OF p]
  have len: "length gs = length parts" using sp by blast
  have nth: "gs ! k = f\<lparr>finding_id := finding_id f @ '':'' @ show_nat (1 + k),
      evidence_group_id := Some (group_id (parts ! k)), evidence_refs := map fragment_id (fragments (parts ! k)),
      inspector_decision := None\<rparr>" "wf_finding (gs ! k)" if "k < length parts" for k
    using sp that by blast+
  have eg: "map evidence_group_id gs = map (Some \<circ> group_id) parts"
    by (rule nth_equalityI) (simp_all add: len nth(1))
  have "distinct (map group_id parts)" using sp by blast
  then have "distinct (map (Some \<circ> group_id) parts)" by (simp add: distinct_map inj_on_def)
  moreover have "distinct (map finding_id gs)"
    by (auto simp: distinct_conv_nth len nth(1))
  moreover have "list_all (\<lambda>g. finding_status g = CANDIDATE \<and> inspector_decision g = None \<and>
      rule_code g = rule_code f \<and> wf_finding g) gs"
    using h(2) nth(2) by (auto simp: list_all_length len nth(1))
  ultimately show ?thesis using h len eg by simp
qed

definition sample_fragment :: evidence_fragment where
  "sample_fragment = \<lparr>fragment_id = ''e'', frag_role = EXPECTED, frag_document = sample_doc ''d'', page = 1,
     polygon_source = [], polygon_norm = [],
     extracted = \<lparr>raw_token = [], engine = VECTOR, engine_version = [], confidence = 1, normalized_value = None,
       ext_unit = None, grounded_in_source_tokens = True, second_read_agrees = None, confidence_features = []\<rparr>,
     room_id = None\<rparr>"

definition sample_group :: "string \<Rightarrow> evidence_group" where
  "sample_group i = \<lparr>group_id = i, group_object_id = [], group_rule_code = ''PZ-001'', group_matrix_version = [],
     fragments = [sample_fragment], resolved_revisions = [], prior_revision_fragments = []\<rparr>"

theorem split_gives_atomic_candidates_witness:
  "\<exists>gs. split_finding sample_finding [sample_group ''a'', sample_group ''b''] sample_inspector = Inr gs \<and>
     distinct (map finding_id gs)"
proof -
  obtain gs where gs: "split_finding sample_finding [sample_group ''a'', sample_group ''b''] sample_inspector = Inr gs"
    by (simp add: split_finding_def sample_inspector_def sample_group_def sample_finding_def mk_finding_def)
  from split_gives_atomic_candidates [OF gs] gs show ?thesis by blast
qed

end
