(* ===== verification/Protocol.thy ===== *)
theory Protocol
  imports Models Scenarios Json
begin

section \<open>The protocol and its outgoing form (application/protocol.py, completeness\_catalog.py)\<close>

text \<open>
  Assembles the protocol of clause 9.2, a dictionary of sections, and filters it for the external
  system: only confirmed violations and verified negatives leave. The catalogue of sections
  (data/matrix/sections.json, as \<open>load_sections_catalog\<close> returns it) and the rule registry are
  arguments: data outside the sources and a loader of files. A time stamp is a number of seconds
  since 1970 in UTC, printed by \<open>iso_utc\<close> the way \<open>strftime\<close> prints it (years 1 to 9999).
\<close>

subsection \<open>Time stamps\<close>

definition pad :: "nat \<Rightarrow> int \<Rightarrow> string" where
  "pad w n = (let s = show_nat (nat n) in zeros (w - length s) @ s)"

definition civil_from_days :: "int \<Rightarrow> int \<times> int \<times> int" where
  "civil_from_days days =
     (let z = days + 719468; era = z div 146097; doe = z mod 146097;
          yoe = (doe - doe div 1460 + doe div 36524 - doe div 146096) div 365;
          doy = doe - (365 * yoe + yoe div 4 - yoe div 100);
          mp = (5 * doy + 2) div 153;
          d = doy - (153 * mp + 2) div 5 + 1;
          m = (if mp < 10 then mp + 3 else mp - 9);
          y = yoe + era * 400
      in (if m \<le> 2 then y + 1 else y, m, d))"

definition iso_utc :: "timestamp \<Rightarrow> string" where
  "iso_utc t =
     (let (y, m, d) = civil_from_days (t div 86400); s = t mod 86400
      in pad 4 y @ ''-'' @ pad 2 m @ ''-'' @ pad 2 d @ ''T'' @
         pad 2 (s div 3600) @ '':'' @ pad 2 (s div 60 mod 60) @ '':'' @ pad 2 (s mod 60) @ ''Z'')"

subsection \<open>Identity and placeholders\<close>

definition protocol_identity :: "string \<Rightarrow> int \<Rightarrow> string result" where
  "protocol_identity process_id version =
     (if blank process_id then raise ValueError ''process_id is required'' []
      else if version < 1 then raise ValueError ''version must be >= 1'' []
      else if version = 1 then Inr (''protocol-'' @ process_id)
      else Inr (''protocol-'' @ process_id @ ''-v'' @ show_int version))"

definition reject_placeholder_payload :: "json \<Rightarrow> unit result" where
  "reject_placeholder_payload payload =
     (if jget payload ''kind'' = Some (JStr ''internal_placeholder'') then
        raise ValueError ''internal_placeholder may not be materialised'' []
      else if jget payload ''assembled'' = Some (JBool False) then
        raise ValueError ''assembled=false may not be materialised'' []
      else (case jget payload ''protocol_id'' of
          Some (JStr pid) \<Rightarrow>
            if blank pid then raise ValueError ''protocol_id is required'' []
            else if starts_with pid ''placeholder-'' then
              raise ValueError ''placeholder protocol_id forbidden'' []
            else Inr ()
        | _ \<Rightarrow> raise ValueError ''protocol_id is required'' []))"

subsection \<open>The two outgoing forms\<close>

text \<open>\<open>d.pop(k, None)\<close> and \<open>d[k] = v\<close> on a dictionary value.\<close>

fun jpop :: "string \<Rightarrow> json \<Rightarrow> json" where
  "jpop k (JObj kvs) = JObj (AList.delete k kvs)"
| "jpop k j = j"

fun jset :: "string \<Rightarrow> json \<Rightarrow> json \<Rightarrow> json" where
  "jset k v (JObj kvs) = JObj (dict_set k v kvs)"
| "jset k v j = j"

definition protocol_for_http :: "json \<Rightarrow> json" where
  "protocol_for_http payload =
     (let clone = canon payload
      in case jget clone ''sections'' of
           Some (JObj kvs) \<Rightarrow> jset ''sections'' (jpop ''preliminary_no_difference'' (JObj kvs)) clone
         | _ \<Rightarrow> clone)"

definition RIN_SECTION_ALLOWLIST :: "(string \<times> string list) list" where
  "RIN_SECTION_ALLOWLIST =
     [(''confirmed'', [''CONFIRMED_VIOLATION'']), (''negative_verified'', [''NEGATIVE_VERIFIED''])]"

fun allowed_row :: "string list \<Rightarrow> json \<Rightarrow> bool" where
  "allowed_row allowed (JObj kvs) =
     (case map_of kvs ''finding_status'' of
        Some (JStr status) \<Rightarrow> \<not> blank status \<and> status \<in> set allowed
      | _ \<Rightarrow> False)"
| "allowed_row allowed _ = False"

fun is_obj :: "json \<Rightarrow> bool" where
  "is_obj (JObj kvs) = True"
| "is_obj _ = False"

definition clean_section :: "json \<Rightarrow> string \<times> string list \<Rightarrow> (string \<times> json) result" where
  "clean_section raw_sections ka =
     (let (key, allowed) = ka
      in case raw_sections of
           JObj kvs \<Rightarrow>
             (case (case map_of kvs key of None \<Rightarrow> JArr [] | Some v \<Rightarrow> v) of
                JArr rows \<Rightarrow>
                  if \<not> list_all is_obj rows then raise ValueError ''sections: a row is not an object'' [key]
                  else Inr (key, JArr (filter (allowed_row allowed) rows))
              | _ \<Rightarrow> raise ValueError ''sections'' [key])
         | _ \<Rightarrow> Inr (key, JArr []))"

fun jlength :: "json option \<Rightarrow> nat" where
  "jlength (Some (JArr xs)) = length xs"
| "jlength _ = 0"

definition protocol_for_rin :: "json \<Rightarrow> json result" where
  "protocol_for_rin payload =
     (let clone = jpop ''revision_changes'' (canon payload);
          raw = (case jget clone ''sections'' of None \<Rightarrow> JNull | Some v \<Rightarrow> v)
      in bindr (traverse (clean_section raw) RIN_SECTION_ALLOWLIST) (\<lambda>sections.
           Inr (jset ''violation_count'' (JInt (int (jlength (map_of sections ''confirmed''))))
                 (jset ''sections'' (JObj sections) clone))))"

subsection \<open>Cards of findings\<close>

definition REF_KEYS :: "string list" where
  "REF_KEYS = [''identifier'', ''issuer'', ''clause'', ''effective_from'', ''effective_to'', ''layer'']"

definition REF_REQUIRED :: "string list" where
  "REF_REQUIRED = [''identifier'', ''clause'', ''effective_from'']"

definition usable_ref :: "json \<Rightarrow> bool" where
  "usable_ref ref =
     (is_obj ref \<and> list_all (\<lambda>k. case jget ref k of Some (JStr s) \<Rightarrow> s \<noteq> [] | _ \<Rightarrow> False) REF_REQUIRED)"

text \<open>\<open>rules\<close> is the registry's \<open>get\<close>; \<open>None\<close> is \<open>KeyError\<close> or \<open>FileNotFoundError\<close>.\<close>

definition rule_normative_refs :: "(string \<Rightarrow> json option) \<Rightarrow> string \<Rightarrow> json list" where
  "rule_normative_refs rules code =
     (case rules code of
        None \<Rightarrow> []
      | Some rule \<Rightarrow>
          (case jget rule ''normative_refs'' of
             Some (JArr raw) \<Rightarrow>
               map (\<lambda>ref. JObj (List.map_filter (\<lambda>k. map_option (Pair k) (jget ref k)) REF_KEYS))
                 (filter usable_ref raw)
           | _ \<Rightarrow> []))"

fun scalar_json :: "py_scalar \<Rightarrow> json" where
  "scalar_json (PyStr s) = JStr s"
| "scalar_json (PyFloat x) = JFloat x"
| "scalar_json (PyBool b) = JBool b"

definition opt_entry :: "string \<Rightarrow> ('a \<Rightarrow> json) \<Rightarrow> 'a option \<Rightarrow> (string \<times> json) list" where
  "opt_entry k f v = (case v of None \<Rightarrow> [] | Some x \<Rightarrow> [(k, f x)])"

definition decision_json :: "inspector_decision \<Rightarrow> json" where
  "decision_json d = JObj
     ([(''inspector_id'', JStr (inspector_id d)), (''action'', JStr (action d)),
       (''timestamp'', JStr (iso_utc (decided_at d))),
       (''comment'', case comment d of None \<Rightarrow> JNull | Some c \<Rightarrow> JStr c)] @
      opt_entry ''reason_code'' (JStr \<circ> reason_code_value) (reason_code d))"

definition finding_to_schema :: "finding \<Rightarrow> json list \<Rightarrow> json" where
  "finding_to_schema f refs = JObj
     ([(''finding_id'', JStr (finding_id f)), (''rule_code'', JStr (rule_code f)),
       (''finding_status'', JStr (finding_status_value (finding_status f))),
       (''review_priority'', JStr (review_priority_value (review_priority f))),
       (''counts_as_violation'', JBool (counts_as_violation f)),
       (''rationale'', JStr (rationale f)),
       (''versions'', JObj [(''matrix_version'', JStr (matrix_version f)),
          (''rule_version'', JStr (rule_version f)), (''model_version'', JStr (model_version f))])] @
      opt_entry ''evidence_group_id'' JStr (evidence_group_id f) @
      (if refs \<noteq> [] then [(''normative_refs'', JArr refs)] else []) @
      opt_entry ''expected_value'' scalar_json (expected_value f) @
      opt_entry ''actual_value'' scalar_json (actual_value f) @
      opt_entry ''delta'' scalar_json (delta f) @
      opt_entry ''llm_draft'' JStr (llm_draft f) @
      opt_entry ''source_id'' JStr (source_id f) @
      (if evidence_refs f \<noteq> [] then [(''evidence_refs'', JArr (map JStr (evidence_refs f)))] else []) @
      opt_entry ''disagreement_kind'' (JStr \<circ> disagreement_kind_value) (disagreement_kind f) @
      opt_entry ''inspector_decision'' decision_json (inspector_decision f))"

subsection \<open>Completeness rows\<close>

fun stage_key :: "doc_stage \<Rightarrow> string" where
  "stage_key PD = ''pd''"
| "stage_key RD = ''rd''"
| "stage_key ID = ''id''"

definition expected_label :: "json \<Rightarrow> doc_stage \<Rightarrow> string" where
  "expected_label sec stage =
     (case jget sec (stage_key stage) of
        None \<Rightarrow> []
      | Some JNull \<Rightarrow> []
      | Some (JArr xs) \<Rightarrow> join '', '' (map py_str xs)
      | Some v \<Rightarrow> py_str v)"

definition completeness_outcome :: "completeness \<Rightarrow> string" where
  "completeness_outcome state =
     (if state = MISSING then ''MISSING''
      else if state = PARTIAL then ''STAGE_PARTIAL_NOT_VERIFIED''
      else ''STAGE_UPLOADED_NOT_VERIFIED'')"

text \<open>The \<open>rationale\<close> sentence is kept as the values it interpolates.\<close>

definition completeness_row :: "string \<Rightarrow> doc_stage \<Rightarrow> string \<Rightarrow> completeness \<Rightarrow> json" where
  "completeness_row code stage expected state = JObj
     [(''section_code'', JStr code), (''stage'', JStr (doc_stage_value stage)),
      (''expected_document'', JStr expected), (''upload_state'', JStr (completeness_value state)),
      (''outcome'', JStr (completeness_outcome state)), (''counts_as_violation'', JBool False),
      (''kind'', JStr ''section_catalog''),
      (''finding_id'', JStr (''completeness-'' @ code @ ''-'' @ doc_stage_value stage)),
      (''rule_code'', JStr (''COMPLETENESS-'' @ code)),
      (''finding_status'', JStr (completeness_outcome state)),
      (''rationale'', JArr (map JStr [code, expected, doc_stage_value stage, completeness_value state]))]"

definition section_code_of :: "json \<Rightarrow> string" where
  "section_code_of sec =
     (case jget sec ''code'' of None \<Rightarrow> [] | Some v \<Rightarrow> if jtruthy v then strip (py_str v) else [])"

definition completeness_rows_from_catalog :: "completeness_map \<Rightarrow> json list \<Rightarrow> json list" where
  "completeness_rows_from_catalog completeness catalog =
     concat (map (\<lambda>sec.
       if section_code_of sec = [] then []
       else concat (map (\<lambda>stage.
         if expected_label sec stage = [] then []
         else [completeness_row (section_code_of sec) stage (expected_label sec stage)
                 (case dict_get completeness stage of None \<Rightarrow> MISSING | Some s \<Rightarrow> s)])
         [PD, RD, ID])) catalog)"

subsection \<open>Assembly\<close>

fun SECTION :: "finding_status \<Rightarrow> string option" where
  "SECTION CANDIDATE = Some ''candidates''"
| "SECTION CONFIRMED_VIOLATION = Some ''confirmed''"
| "SECTION NEGATIVE_VERIFIED = Some ''negative_verified''"
| "SECTION SUSPICION = Some ''suspicions''"
| "SECTION MISSING_EVIDENCE = Some ''missing_evidence''"
| "SECTION AUTO_NO_DIFFERENCE = Some ''preliminary_no_difference''"
| "SECTION LOW_QUALITY = Some ''needs_attention''"
| "SECTION ABSTAIN = Some ''needs_attention''"
| "SECTION CLARIFICATION_REQUIRED = Some ''needs_attention''"
| "SECTION NOT_COMPARABLE = Some ''needs_attention''"
| "SECTION NOT_APPLICABLE = Some ''needs_attention''"

type_synonym sections = "(string, json list) dict"

definition empty_sections :: "json list \<Rightarrow> sections" where
  "empty_sections rows =
     [(''completeness'', rows), (''candidates'', []), (''confirmed'', []), (''negative_verified'', []),
      (''suspicions'', []), (''missing_evidence'', []), (''needs_attention'', []),
      (''preliminary_no_difference'', [])]"

fun place_findings :: "(finding \<Rightarrow> json) \<Rightarrow> finding list \<Rightarrow> sections \<Rightarrow> sections result" where
  "place_findings render [] secs = Inr secs"
| "place_findings render (f # fs) secs =
     (if finding_status f = AUTO_NO_DIFFERENCE then
        (if on_the_wire (finding_status f) then
           raise RuntimeError ''AUTO_NO_DIFFERENCE may not go to RiN'' []
         else place_findings render fs (dict_append ''preliminary_no_difference'' (render f) secs))
      else case SECTION (finding_status f) of
        None \<Rightarrow> raise ValueError ''the status is in no section of the protocol''
                 [finding_status_value (finding_status f)]
      | Some bucket \<Rightarrow> place_findings render fs (dict_append bucket (render f) secs))"

record protocol_args =
  pa_protocol_id :: string
  pa_object_id :: string
  pa_findings :: "finding list"
  pa_completeness :: completeness_map
  pa_files :: "json list"
  pa_versions :: json
  pa_process_state :: process_state
  pa_manifest_hash :: string
  pa_version :: int
  pa_revision_changes :: "json list"

definition assemble_protocol :: "json list \<Rightarrow> (string \<Rightarrow> json option) \<Rightarrow> protocol_args \<Rightarrow> json result" where
  "assemble_protocol catalog rules a =
     (case protocol_status (pa_process_state a) of
        None \<Rightarrow> raise ValueError ''no protocol yet (PENDING/PARSING)''
                 [process_state_value (pa_process_state a)]
      | Some status \<Rightarrow>
          bindr (place_findings (\<lambda>f. finding_to_schema f (rule_normative_refs rules (rule_code f)))
                   (pa_findings a)
                   (empty_sections (completeness_rows_from_catalog (pa_completeness a) catalog))) (\<lambda>secs.
          bindr (detect_scenario (pa_completeness a) False) (\<lambda>sc.
          bindr (completeness_of (pa_completeness a) PD) (\<lambda>pd.
          bindr (completeness_of (pa_completeness a) RD) (\<lambda>rd.
          bindr (completeness_of (pa_completeness a) ID) (\<lambda>idc.
            Inr (JObj
              ([(''protocol_id'', JStr (pa_protocol_id a)), (''object_id'', JStr (pa_object_id a)),
                (''version'', JInt (pa_version a)), (''status'', JStr status),
                (''scenario'', JStr (scenario_value sc)),
                (''upload_status'', JObj [(''pd'', JStr (tz_upload_status PD pd)),
                   (''rd'', JStr (tz_upload_status RD rd)), (''id'', JStr (tz_upload_status ID idc))]),
                (''sections'', JObj (map (\<lambda>(k, rows). (k, JArr rows)) secs)),
                (''violation_count'', JInt (int (length (case dict_get secs ''confirmed'' of
                    None \<Rightarrow> [] | Some rows \<Rightarrow> rows)))),
                (''versions'', pa_versions a),
                (''input_manifest'', JObj [(''manifest_hash'', JStr (pa_manifest_hash a)),
                   (''files'', JArr (pa_files a))])] @
               (if pa_revision_changes a \<noteq> [] then [(''revision_changes'', JArr (pa_revision_changes a))]
                else [])))))))))"

subsection \<open>Sections\<close>

lemma place_findings_fold:
  "place_findings render fs secs =
     Inr (fold (\<lambda>f d. dict_append (the (SECTION (finding_status f))) (render f) d) fs secs)"
proof (induction fs arbitrary: secs)
  case (Cons f fs)
  have "\<not> on_the_wire AUTO_NO_DIFFERENCE" by (simp add: on_the_wire_def WIRE_FINDING_STATUSES_def)
  then show ?case using Cons by (cases "finding_status f") simp_all
qed simp

lemma fold_dict_append_get:
  "dict_get (fold (\<lambda>x d. dict_append (key x) (g x) d) xs d) k =
     (let new = map g (filter (\<lambda>x. key x = k) xs)
      in case dict_get d k of None \<Rightarrow> if new = [] then None else Some new | Some old \<Rightarrow> Some (old @ new))"
  by (induction xs arbitrary: d) (auto simp: dict_get_append Let_def split: option.splits)

lemma dict_append_keys: "k \<in> set (dict_keys d) \<Longrightarrow> dict_keys (dict_append k x d) = dict_keys d"
  by (simp add: dict_append_def dict_keys_set)

lemma fold_dict_append_keys:
  "(\<And>x. x \<in> set xs \<Longrightarrow> key x \<in> set (dict_keys d)) \<Longrightarrow>
   dict_keys (fold (\<lambda>x d. dict_append (key x) (g x) d) xs d) = dict_keys d"
proof (induction xs arbitrary: d)
  case (Cons x xs)
  have one: "dict_keys (dict_append (key x) (g x) d) = dict_keys d"
    by (rule dict_append_keys, rule Cons.prems) simp
  have "dict_keys (fold (\<lambda>x d. dict_append (key x) (g x) d) xs (dict_append (key x) (g x) d)) =
      dict_keys (dict_append (key x) (g x) d)"
    by (rule Cons.IH) (use Cons.prems one in auto)
  with one show ?case by simp
qed simp

definition section_names :: "string list" where
  "section_names = [''completeness'', ''candidates'', ''confirmed'', ''negative_verified'', ''suspicions'',
     ''missing_evidence'', ''needs_attention'', ''preliminary_no_difference'']"

lemma SECTION_name: "the (SECTION st) \<in> set section_names"
  by (cases st) (simp_all add: section_names_def)

lemma placed_sections:
  assumes "place_findings render fs (empty_sections rows) = Inr secs"
  shows "dict_keys secs = section_names"
    and "k \<in> set section_names \<Longrightarrow> dict_get secs k =
      Some ((if k = ''completeness'' then rows else []) @
            map render (filter (\<lambda>f. SECTION (finding_status f) = Some k) fs))"
proof -
  let ?key = "\<lambda>f. the (SECTION (finding_status f))"
  have secs: "secs = fold (\<lambda>f d. dict_append (?key f) (render f) d) fs (empty_sections rows)"
    using assms by (simp add: place_findings_fold)
  have keys: "dict_keys (empty_sections rows) = section_names" by (simp add: empty_sections_def section_names_def)
  show "dict_keys secs = section_names"
    unfolding secs by (subst fold_dict_append_keys) (simp_all add: keys SECTION_name)
  have key: "(?key f = k) = (SECTION (finding_status f) = Some k)" for f
    by (cases "finding_status f") auto
  have "dict_get (empty_sections rows) k = Some (if k = ''completeness'' then rows else [])"
    if "k \<in> set section_names" for k
    using that by (auto simp: empty_sections_def section_names_def)
  then show "k \<in> set section_names \<Longrightarrow> dict_get secs k =
      Some ((if k = ''completeness'' then rows else []) @
            map render (filter (\<lambda>f. SECTION (finding_status f) = Some k) fs))"
    unfolding secs by (simp add: fold_dict_append_get Let_def key)
qed

lemma SECTION_confirmed: "SECTION st = Some ''confirmed'' \<longleftrightarrow> st = CONFIRMED_VIOLATION"
  by (cases st) simp_all

lemma SECTION_negative: "SECTION st = Some ''negative_verified'' \<longleftrightarrow> st = NEGATIVE_VERIFIED"
  by (cases st) simp_all

subsection \<open>Keys of the dictionaries\<close>

lemma in_opt_entry [simp]: "k \<in> fst ` set (opt_entry k' f v) \<longleftrightarrow> v \<noteq> None \<and> k = k'"
  by (auto simp: opt_entry_def split: option.splits)

lemma distinct_opt_entry [simp]: "distinct (map fst (opt_entry k f v))"
  by (simp add: opt_entry_def split: option.splits)

lemma map_of_append_opt: "k \<noteq> k' \<Longrightarrow> map_of (opt_entry k' f v @ r) k = map_of r k"
  by (simp add: opt_entry_def split: option.splits)

lemma distinct_app: "distinct (map fst (xs @ ys)) \<longleftrightarrow>
    distinct (map fst xs) \<and> distinct (map fst ys) \<and> (\<forall>k \<in> fst ` set xs. k \<notin> fst ` set ys)"
  by auto

lemma opt_entry_ball: "(\<forall>k' \<in> fst ` set (opt_entry k f v). P k') \<longleftrightarrow> (v \<noteq> None \<longrightarrow> P k)"
  by (auto simp: opt_entry_def split: option.splits)

fun kvs_of :: "json \<Rightarrow> (string \<times> json) list" where
  "kvs_of (JObj kvs) = kvs"
| "kvs_of _ = []"

lemma card_distinct: "distinct (map fst (kvs_of (finding_to_schema f refs)))"
  unfolding finding_to_schema_def kvs_of.simps distinct_app opt_entry_ball
  by (simp add: image_Un)

lemma card_status: "jget (finding_to_schema f refs) ''finding_status'' = Some (JStr (finding_status_value (finding_status f)))"
  by (simp add: finding_to_schema_def)

lemma card_is_obj: "finding_to_schema f refs = JObj (kvs_of (finding_to_schema f refs))"
  by (simp add: finding_to_schema_def)

lemma canon_card_status:
  "jget (canon (finding_to_schema f refs)) ''finding_status'' = Some (JStr (finding_status_value (finding_status f)))"
proof -
  obtain kvs where k: "finding_to_schema f refs = JObj kvs" using card_is_obj by blast
  have "distinct (map fst kvs)" using card_distinct [of f refs] by (simp only: k kvs_of.simps)
  then have "jget (canon (JObj kvs)) ''finding_status'' = map_option canon (jget (JObj kvs) ''finding_status'')"
    using jget_canon_obj by simp
  also have "jget (JObj kvs) ''finding_status'' = Some (JStr (finding_status_value (finding_status f)))"
    using card_status [of f refs] by (simp only: k)
  finally show ?thesis by (simp only: k option.map canon.simps)
qed

lemma allowed_row_jget: "is_obj row \<Longrightarrow> allowed_row allowed row \<longleftrightarrow>
    (\<exists>s. jget row ''finding_status'' = Some (JStr s) \<and> \<not> blank s \<and> s \<in> set allowed)"
  by (cases row) (auto split: option.splits json.splits)

lemma is_obj_canon [simp]: "is_obj (canon j) = is_obj j"
  by (cases j) simp_all

lemma is_obj_card [simp]: "is_obj (finding_to_schema f refs)"
  by (simp add: finding_to_schema_def)

subsection \<open>The outgoing form\<close>

lemma jget_jpop: "jget (jpop k j) k' = (if k' = k then None else jget j k')"
  by (cases j) (auto simp: delete_conv')

lemma jget_jset: "is_obj j \<Longrightarrow> jget (jset k v j) k' = (if k' = k then Some v else jget j k')"
  by (cases j) (auto simp: dict_get_set)

lemma is_obj_jpop [simp]: "is_obj (jpop k j) = is_obj j"
  by (cases j) simp_all

lemma is_obj_jset [simp]: "is_obj (jset k v j) = is_obj j"
  by (cases j) simp_all

lemma clean_section_Inr:
  assumes "clean_section raw (key, allowed) = Inr s"
  shows "\<exists>rows. s = (key, JArr (filter (allowed_row allowed) rows)) \<and>
    (\<forall>kvs. raw = JObj kvs \<longrightarrow> map_of kvs key = Some (JArr rows) \<or> (map_of kvs key = None \<and> rows = []))"
  using assms by (auto simp: clean_section_def split: json.splits option.splits if_splits)
    (rule exI [of _ "[]"], simp)+

lemma clean_section_rows:
  assumes "is_obj raw" and "jget raw key = Some (JArr rows)" and "list_all is_obj rows"
    and "filter (allowed_row allowed) rows = rows"
  shows "clean_section raw (key, allowed) = Inr (key, JArr rows)"
  using assms by (cases raw) (simp_all add: clean_section_def)

lemma rin_sections:
  assumes "protocol_for_rin payload = Inr out" and "is_obj payload"
  shows "\<exists>conf neg. traverse (clean_section (case jget (canon payload) ''sections'' of None \<Rightarrow> JNull | Some v \<Rightarrow> v))
        RIN_SECTION_ALLOWLIST = Inr [(''confirmed'', JArr conf), (''negative_verified'', JArr neg)] \<and>
      jget out ''sections'' = Some (JObj [(''confirmed'', JArr conf), (''negative_verified'', JArr neg)]) \<and>
      jget out ''violation_count'' = Some (JInt (int (length conf))) \<and> jget out ''revision_changes'' = None \<and>
      (\<forall>k. k \<notin> {''sections'', ''violation_count'', ''revision_changes''} \<longrightarrow> jget out k = jget (canon payload) k)"
proof -
  let ?raw = "case jget (canon payload) ''sections'' of None \<Rightarrow> JNull | Some v \<Rightarrow> v"
  let ?clone = "jpop ''revision_changes'' (canon payload)"
  from assms(1) obtain sections where s: "traverse (clean_section ?raw) RIN_SECTION_ALLOWLIST = Inr sections"
    and out: "out = jset ''violation_count'' (JInt (int (jlength (map_of sections ''confirmed''))))
                 (jset ''sections'' (JObj sections) ?clone)"
    by (auto simp: protocol_for_rin_def bindr_eq_Inr jget_jpop)
  from s obtain a b where ab: "clean_section ?raw (''confirmed'', [''CONFIRMED_VIOLATION'']) = Inr a"
      "clean_section ?raw (''negative_verified'', [''NEGATIVE_VERIFIED'']) = Inr b" "sections = [a, b]"
    by (auto simp: RIN_SECTION_ALLOWLIST_def bindr_eq_Inr)
  from clean_section_Inr [OF ab(1)] obtain conf where conf: "a = (''confirmed'', JArr conf)" by blast
  from clean_section_Inr [OF ab(2)] obtain neg where neg: "b = (''negative_verified'', JArr neg)" by blast
  have "is_obj ?clone" using assms(2) by simp
  then show ?thesis using s ab(3) conf neg out by (auto simp: jget_jset jget_jpop)
qed

lemma assembled:
  assumes "assemble_protocol catalog rules a = Inr p"
  shows "\<exists>kvs secs rows. p = JObj kvs \<and> distinct (map fst kvs) \<and>
    place_findings (\<lambda>f. finding_to_schema f (rule_normative_refs rules (rule_code f))) (pa_findings a)
      (empty_sections rows) = Inr secs \<and>
    map_of kvs ''sections'' = Some (JObj (map (\<lambda>(k, rows). (k, JArr rows)) secs)) \<and>
    map_of kvs ''violation_count'' =
      Some (JInt (int (length (filter (\<lambda>f. finding_status f = CONFIRMED_VIOLATION) (pa_findings a))))) \<and>
    map_of kvs ''protocol_id'' = Some (JStr (pa_protocol_id a)) \<and>
    map_of kvs ''object_id'' = Some (JStr (pa_object_id a)) \<and>
    map_of kvs ''version'' = Some (JInt (pa_version a)) \<and>
    map_of kvs ''status'' = map_option JStr (protocol_status (pa_process_state a)) \<and>
    map_of kvs ''kind'' = None \<and> map_of kvs ''assembled'' = None"
proof -
  from assms obtain st secs where ps: "protocol_status (pa_process_state a) = Some st"
    and pl: "place_findings (\<lambda>f. finding_to_schema f (rule_normative_refs rules (rule_code f))) (pa_findings a)
      (empty_sections (completeness_rows_from_catalog (pa_completeness a) catalog)) = Inr secs"
    by (auto simp: assemble_protocol_def bindr_eq_Inr split: option.splits)
  have "dict_get secs ''confirmed'' = Some (map (\<lambda>f. finding_to_schema f (rule_normative_refs rules (rule_code f)))
      (filter (\<lambda>f. finding_status f = CONFIRMED_VIOLATION) (pa_findings a)))"
    using placed_sections(2) [OF pl, of "''confirmed''"] by (simp add: section_names_def SECTION_confirmed)
  moreover from assms ps pl obtain kvs where "p = JObj kvs" "distinct (map fst kvs)"
      "map_of kvs ''sections'' = Some (JObj (map (\<lambda>(k, rows). (k, JArr rows)) secs))"
      "map_of kvs ''violation_count'' =
        Some (JInt (int (length (case dict_get secs ''confirmed'' of None \<Rightarrow> [] | Some rows \<Rightarrow> rows))))"
      "map_of kvs ''protocol_id'' = Some (JStr (pa_protocol_id a))"
      "map_of kvs ''object_id'' = Some (JStr (pa_object_id a))"
      "map_of kvs ''version'' = Some (JInt (pa_version a))" "map_of kvs ''status'' = Some (JStr st)"
      "map_of kvs ''kind'' = None" "map_of kvs ''assembled'' = None"
    by (auto simp: assemble_protocol_def bindr_eq_Inr)
  ultimately show ?thesis using ps pl
    by (intro exI [of _ kvs] exI [of _ secs] exI [of _ "completeness_rows_from_catalog (pa_completeness a) catalog"]) simp
qed

lemma map_of_map_JArr: "map_of (map (\<lambda>(k, rows). (k, JArr rows)) secs) k = map_option JArr (map_of secs k)"
  by (induction secs) auto

lemma canon_sections:
  assumes "dict_keys secs = section_names"
  shows "jget (canon (JObj (map (\<lambda>(k, rows). (k, JArr rows)) secs))) k =
    map_option (\<lambda>rows. JArr (map canon rows)) (dict_get secs k)"
proof -
  have "map fst (map (\<lambda>(k, rows). (k, JArr rows)) secs) = dict_keys secs" by (induction secs) auto
  with assms have "map fst (map (\<lambda>(k, rows). (k, JArr rows)) secs) = section_names" by simp
  then have "distinct (map fst (map (\<lambda>(k, rows). (k, JArr rows)) secs))"
    by (simp only: section_names_def) simp
  from jget_canon_obj [OF this] show ?thesis
    by (simp add: map_of_map_JArr option.map_comp comp_def del: canon.simps(2))
qed

subsection \<open>Properties\<close>

text \<open>
  C15. Whatever is handed to the outgoing filter, only signed verdicts leave: if it returns, the
  outgoing sections are exactly \<open>confirmed\<close> and \<open>negative_verified\<close>, every row of them carries the
  status of its section, \<open>violation_count\<close> counts the confirmed rows and the diff of revisions is
  gone.
\<close>

theorem rin_filter_is_fail_closed:
  assumes "protocol_for_rin payload = Inr out" and "is_obj payload"
  shows "\<exists>conf neg. jget out ''sections'' = Some (JObj [(''confirmed'', JArr conf), (''negative_verified'', JArr neg)]) \<and>
    list_all (\<lambda>row. jget row ''finding_status'' = Some (JStr ''CONFIRMED_VIOLATION'')) conf \<and>
    list_all (\<lambda>row. jget row ''finding_status'' = Some (JStr ''NEGATIVE_VERIFIED'')) neg \<and>
    jget out ''violation_count'' = Some (JInt (int (length conf))) \<and> jget out ''revision_changes'' = None"
proof -
  obtain conf neg where r: "traverse (clean_section (case jget (canon payload) ''sections'' of None \<Rightarrow> JNull | Some v \<Rightarrow> v))
        RIN_SECTION_ALLOWLIST = Inr [(''confirmed'', JArr conf), (''negative_verified'', JArr neg)]"
      "jget out ''sections'' = Some (JObj [(''confirmed'', JArr conf), (''negative_verified'', JArr neg)])"
      "jget out ''violation_count'' = Some (JInt (int (length conf)))" "jget out ''revision_changes'' = None"
    using rin_sections [OF assms] by blast
  have one: "list_all (\<lambda>row. jget row ''finding_status'' = Some (JStr st)) rows"
    if "clean_section raw (key, [st]) = Inr (key', JArr rows)" for raw key st key' rows
  proof -
    from clean_section_Inr [OF that] obtain all where "rows = filter (allowed_row [st]) all" by auto
    then show ?thesis by (auto simp: list_all_iff elim: allowed_row.elims split: option.splits json.splits)
  qed
  show ?thesis using r one
    by (auto simp: RIN_SECTION_ALLOWLIST_def bindr_eq_Inr)
qed

theorem rin_filter_is_fail_closed_witness:
  "\<exists>out conf neg. protocol_for_rin (JObj [(''sections'', JObj [(''confirmed'',
       JArr [JObj [(''finding_status'', JStr ''CANDIDATE'')]])])]) = Inr out \<and>
     jget out ''sections'' = Some (JObj [(''confirmed'', JArr conf), (''negative_verified'', JArr neg)])"
proof -
  let ?p = "JObj [(''sections'', JObj [(''confirmed'', JArr [JObj [(''finding_status'', JStr ''CANDIDATE'')]])])]"
  obtain out where o: "protocol_for_rin ?p = Inr out"
    by (simp add: protocol_for_rin_def RIN_SECTION_ALLOWLIST_def clean_section_def)
  from rin_filter_is_fail_closed [OF o] o show ?thesis by fastforce
qed

text \<open>An assembled protocol passes the filter.\<close>

lemma assembled_goes_out:
  assumes "assemble_protocol catalog rules a = Inr payload"
  shows "\<exists>out. protocol_for_rin payload = Inr out \<and>
    (let render = (\<lambda>f. canon (finding_to_schema f (rule_normative_refs rules (rule_code f))));
         pick = (\<lambda>st. map render (filter (\<lambda>f. finding_status f = st) (pa_findings a)))
     in jget out ''sections'' = Some (JObj [(''confirmed'', JArr (pick CONFIRMED_VIOLATION)),
          (''negative_verified'', JArr (pick NEGATIVE_VERIFIED))]) \<and>
        jget out ''violation_count'' = jget payload ''violation_count'') \<and>
    jget out ''protocol_id'' = Some (JStr (pa_protocol_id a)) \<and> jget out ''object_id'' = Some (JStr (pa_object_id a)) \<and>
    jget out ''version'' = Some (JInt (pa_version a))"
proof -
  let ?render = "\<lambda>f. finding_to_schema f (rule_normative_refs rules (rule_code f))"
  let ?pick = "\<lambda>st. map (\<lambda>f. canon (?render f)) (filter (\<lambda>f. finding_status f = st) (pa_findings a))"
  obtain kvs secs rows where p: "payload = JObj kvs" "distinct (map fst kvs)"
      "place_findings ?render (pa_findings a) (empty_sections rows) = Inr secs"
      "map_of kvs ''sections'' = Some (JObj (map (\<lambda>(k, rows). (k, JArr rows)) secs))"
      "map_of kvs ''violation_count'' =
        Some (JInt (int (length (filter (\<lambda>f. finding_status f = CONFIRMED_VIOLATION) (pa_findings a)))))"
      "map_of kvs ''protocol_id'' = Some (JStr (pa_protocol_id a))"
      "map_of kvs ''object_id'' = Some (JStr (pa_object_id a))"
      "map_of kvs ''version'' = Some (JInt (pa_version a))"
    using assembled [OF assms] by blast
  have get: "jget (canon payload) k = map_option canon (map_of kvs k)" for k
    using jget_canon_obj [OF p(2)] p(1) by simp
  let ?raw = "canon (JObj (map (\<lambda>(k, rows). (k, JArr rows)) secs))"
  have raw: "(case jget (canon payload) ''sections'' of None \<Rightarrow> JNull | Some v \<Rightarrow> v) = ?raw"
    by (simp add: get p(4) del: canon.simps(2))
  have sec: "jget ?raw k = Some (JArr (map (\<lambda>f. canon (?render f)) (filter (\<lambda>f. SECTION (finding_status f) = Some k) (pa_findings a))))"
    if "k \<in> {''confirmed'', ''negative_verified''}" for k
    using that placed_sections(2) [OF p(3), of k] canon_sections [OF placed_sections(1) [OF p(3)], of k]
    by (auto simp: section_names_def comp_def)
  have keep: "filter (allowed_row [finding_status_value st]) (?pick st) = ?pick st" if "st \<in> {CONFIRMED_VIOLATION, NEGATIVE_VERIFIED}" for st
    using that by (auto simp: filter_id_conv allowed_row_jget canon_card_status blank_iff is_space_def)
  have objs: "list_all is_obj (?pick st)" for st by (simp add: list_all_iff)
  have obj: "is_obj ?raw" by simp
  have "clean_section ?raw (''confirmed'', [''CONFIRMED_VIOLATION'']) = Inr (''confirmed'', JArr (?pick CONFIRMED_VIOLATION))"
    by (rule clean_section_rows [OF obj _ objs])
       (use sec [of "''confirmed''"] keep [of CONFIRMED_VIOLATION] in \<open>simp_all only: SECTION_confirmed\<close>, simp_all)
  moreover have "clean_section ?raw (''negative_verified'', [''NEGATIVE_VERIFIED'']) = Inr (''negative_verified'', JArr (?pick NEGATIVE_VERIFIED))"
    by (rule clean_section_rows [OF obj _ objs])
       (use sec [of "''negative_verified''"] keep [of NEGATIVE_VERIFIED] in \<open>simp_all only: SECTION_negative\<close>, simp_all)
  ultimately have tr: "traverse (clean_section (case jget (canon payload) ''sections'' of None \<Rightarrow> JNull | Some v \<Rightarrow> v)) RIN_SECTION_ALLOWLIST =
      Inr [(''confirmed'', JArr (?pick CONFIRMED_VIOLATION)), (''negative_verified'', JArr (?pick NEGATIVE_VERIFIED))]"
    unfolding raw by (simp add: RIN_SECTION_ALLOWLIST_def)
  have "jget (canon payload) ''sections'' = Some ?raw" by (simp add: get p(4) del: canon.simps(2))
  then obtain out where out: "protocol_for_rin payload = Inr out"
    using tr unfolding protocol_for_rin_def Let_def jget_jpop by simp
  have "is_obj payload" using p(1) by simp
  from rin_sections [OF out this] obtain conf neg where r:
      "traverse (clean_section (case jget (canon payload) ''sections'' of None \<Rightarrow> JNull | Some v \<Rightarrow> v)) RIN_SECTION_ALLOWLIST =
         Inr [(''confirmed'', JArr conf), (''negative_verified'', JArr neg)]"
      "jget out ''sections'' = Some (JObj [(''confirmed'', JArr conf), (''negative_verified'', JArr neg)])"
      "jget out ''violation_count'' = Some (JInt (int (length conf)))"
      "\<And>k. k \<notin> {''sections'', ''violation_count'', ''revision_changes''} \<Longrightarrow> jget out k = jget (canon payload) k"
    by blast
  from r(1) tr have cn: "conf = ?pick CONFIRMED_VIOLATION" "neg = ?pick NEGATIVE_VERIFIED" by simp_all
  have "jget out ''violation_count'' = jget payload ''violation_count''" using r(3) cn(1) p(1,5) by simp
  moreover have "jget out ''protocol_id'' = Some (JStr (pa_protocol_id a))" "jget out ''object_id'' = Some (JStr (pa_object_id a))"
      "jget out ''version'' = Some (JInt (pa_version a))"
    by (simp_all add: r(4) get p(6,7,8))
  ultimately show ?thesis using out r(2) unfolding cn Let_def by blast
qed

text \<open>
  C14. The outgoing protocol is a faithful extract of the assembled one: the filter accepts every
  assembled protocol, keeps exactly the cards of the confirmed and of the rejected findings in their
  order, counts the confirmed ones, and changes no other field but to drop the diff of revisions.
\<close>

theorem assembled_protocol_goes_out_as_its_verdicts:
  assumes "assemble_protocol catalog rules a = Inr payload"
  shows "\<exists>out. protocol_for_rin payload = Inr out \<and>
    (let render = (\<lambda>f. canon (finding_to_schema f (rule_normative_refs rules (rule_code f))));
         pick = (\<lambda>st. map render (filter (\<lambda>f. finding_status f = st) (pa_findings a)))
     in jget out ''sections'' = Some (JObj [(''confirmed'', JArr (pick CONFIRMED_VIOLATION)),
          (''negative_verified'', JArr (pick NEGATIVE_VERIFIED))]) \<and>
        jget out ''violation_count'' = jget payload ''violation_count'') \<and>
    jget out ''protocol_id'' = Some (JStr (pa_protocol_id a)) \<and> jget out ''object_id'' = Some (JStr (pa_object_id a)) \<and>
    jget out ''version'' = Some (JInt (pa_version a))"
  by (rule assembled_goes_out [OF assms])

definition sample_args :: protocol_args where
  "sample_args = \<lparr>pa_protocol_id = ''protocol-p'', pa_object_id = ''o'', pa_findings = [],
     pa_completeness = [(PD, UPLOADED), (RD, UPLOADED), (ID, MISSING)], pa_files = [], pa_versions = JObj [],
     pa_process_state = COMPLETED, pa_manifest_hash = ''h'', pa_version = 1, pa_revision_changes = []\<rparr>"

lemma sample_assembled: "\<exists>p. assemble_protocol [] (\<lambda>_. None) sample_args = Inr p"
  by (auto simp: assemble_protocol_def sample_args_def detect_scenario_def present_stages_def
      completeness_of_def completeness_rows_from_catalog_def Let_def)

theorem assembled_protocol_goes_out_as_its_verdicts_witness:
  "\<exists>payload out. assemble_protocol [] (\<lambda>_. None) sample_args = Inr payload \<and> protocol_for_rin payload = Inr out \<and>
     jget out ''protocol_id'' = Some (JStr ''protocol-p'')"
proof -
  obtain p where p: "assemble_protocol [] (\<lambda>_. None) sample_args = Inr p" using sample_assembled by blast
  from assembled_protocol_goes_out_as_its_verdicts [OF p] p show ?thesis
    by (auto simp: sample_args_def)
qed

text \<open>
  C39. The protocol loses no finding: once a protocol exists every finding has its card in the one
  section of its status, in order, and \<open>violation_count\<close> is the number of confirmed findings.
\<close>

theorem every_finding_is_in_its_section:
  assumes "assemble_protocol catalog rules a = Inr payload"
  shows "\<exists>secs. jget payload ''sections'' = Some (JObj secs) \<and> map fst secs = section_names \<and>
    (\<forall>st k. SECTION st = Some k \<longrightarrow> map_of secs k =
       Some (JArr (map (\<lambda>f. finding_to_schema f (rule_normative_refs rules (rule_code f)))
         (filter (\<lambda>f. SECTION (finding_status f) = Some k) (pa_findings a))))) \<and>
    jget payload ''violation_count'' =
      Some (JInt (int (length (filter (\<lambda>f. finding_status f = CONFIRMED_VIOLATION) (pa_findings a)))))"
proof -
  let ?render = "\<lambda>f. finding_to_schema f (rule_normative_refs rules (rule_code f))"
  obtain kvs secs rows where p: "payload = JObj kvs"
      "place_findings ?render (pa_findings a) (empty_sections rows) = Inr secs"
      "map_of kvs ''sections'' = Some (JObj (map (\<lambda>(k, rows). (k, JArr rows)) secs))"
      "map_of kvs ''violation_count'' =
        Some (JInt (int (length (filter (\<lambda>f. finding_status f = CONFIRMED_VIOLATION) (pa_findings a)))))"
    using assembled [OF assms] by blast
  let ?s = "map (\<lambda>(k, rows). (k, JArr rows)) secs"
  have "map fst ?s = dict_keys secs" by (induction secs) auto
  then have "map fst ?s = section_names" using placed_sections(1) [OF p(2)] by simp
  moreover have "map_of ?s k = Some (JArr (map ?render (filter (\<lambda>f. SECTION (finding_status f) = Some k) (pa_findings a))))"
    if "SECTION st = Some k" for st k
  proof -
    have "k \<in> set section_names" "k \<noteq> ''completeness''"
      using that SECTION_name [of st] by (cases st; auto)+
    then show ?thesis using placed_sections(2) [OF p(2), of k] by (simp add: map_of_map_JArr)
  qed
  ultimately show ?thesis using p by auto
qed

theorem every_finding_is_in_its_section_witness:
  "\<exists>payload. assemble_protocol [] (\<lambda>_. None) sample_args = Inr payload \<and>
     jget payload ''violation_count'' = Some (JInt 0)"
proof -
  obtain p where p: "assemble_protocol [] (\<lambda>_. None) sample_args = Inr p" using sample_assembled by blast
  from every_finding_is_in_its_section [OF p] p show ?thesis by (auto simp: sample_args_def)
qed

end
