(* ===== verification/Finding_Rows.thy ===== *)
theory Finding_Rows
  imports Models Protocol
begin

section \<open>Findings as database rows (infrastructure/db/process\_store.py)\<close>

text \<open>
  \<open>finding_to_params\<close> writes a finding as one row of \<open>process_findings\<close>: text columns for the
  queries and a JSON column \<open>payload\<close> for the typed values. \<open>finding_from_row\<close> reads the twenty cells
  back and runs the constructor's checks. A column that may be \<open>NULL\<close> is an option. The JSON column
  is the value \<open>json.loads\<close> returns.
\<close>

record finding_row =
  fr_process_id :: string
  fr_store_key :: string
  fr_finding_id :: string
  fr_evidence_group_id :: "string option"
  fr_rule_code :: string
  fr_finding_status :: string
  fr_review_priority :: string
  fr_matrix_version :: string
  fr_rule_version :: string
  fr_model_version :: string
  fr_expected_value :: "string option"
  fr_actual_value :: "string option"
  fr_delta :: "string option"
  fr_rationale :: "string option"
  fr_inspector_id :: "string option"
  fr_inspector_action :: "string option"
  fr_reason_code :: "string option"
  fr_comment :: "string option"
  fr_decided_at :: "timestamp option"
  fr_payload :: json

definition opt_json :: "('a \<Rightarrow> json) \<Rightarrow> 'a option \<Rightarrow> json" where
  "opt_json f v = (case v of None \<Rightarrow> JNull | Some x \<Rightarrow> f x)"

definition scalar_text :: "py_scalar \<Rightarrow> string" where
  "scalar_text v = py_str (scalar_json v)"

definition finding_payload :: "finding \<Rightarrow> json" where
  "finding_payload f = JObj
     [(''source_id'', opt_json JStr (source_id f)),
      (''evidence_refs'', JArr (map JStr (evidence_refs f))),
      (''disagreement_kind'', opt_json (JStr \<circ> disagreement_kind_value) (disagreement_kind f)),
      (''llm_draft'', opt_json JStr (llm_draft f)),
      (''expected_value'', opt_json scalar_json (expected_value f)),
      (''actual_value'', opt_json scalar_json (actual_value f)),
      (''delta'', opt_json scalar_json (delta f))]"

definition finding_to_params :: "string \<Rightarrow> finding \<Rightarrow> finding_row" where
  "finding_to_params process_id f =
     \<lparr>fr_process_id = process_id,
      fr_store_key = finding_key f,
      fr_finding_id = finding_id f,
      fr_evidence_group_id = evidence_group_id f,
      fr_rule_code = rule_code f,
      fr_finding_status = finding_status_value (finding_status f),
      fr_review_priority = review_priority_value (review_priority f),
      fr_matrix_version = matrix_version f,
      fr_rule_version = rule_version f,
      fr_model_version = model_version f,
      fr_expected_value = map_option scalar_text (expected_value f),
      fr_actual_value = map_option scalar_text (actual_value f),
      fr_delta = map_option scalar_text (delta f),
      fr_rationale = Some (rationale f),
      fr_inspector_id = map_option inspector_id (inspector_decision f),
      fr_inspector_action = map_option action (inspector_decision f),
      fr_reason_code = map_option reason_code_value (Option.bind (inspector_decision f) reason_code),
      fr_comment = Option.bind (inspector_decision f) comment,
      fr_decided_at = map_option decided_at (inspector_decision f),
      fr_payload = finding_payload f\<rparr>"

subsection \<open>Reading a row\<close>

text \<open>\<open>_as_scalar\<close>: text, float and bool as they are, anything else through \<open>str\<close>.\<close>

fun as_scalar :: "json \<Rightarrow> py_scalar option" where
  "as_scalar JNull = None"
| "as_scalar (JStr s) = Some (PyStr s)"
| "as_scalar (JFloat x) = Some (PyFloat x)"
| "as_scalar (JBool b) = Some (PyBool b)"
| "as_scalar v = Some (PyStr (py_str v))"

definition column_json :: "string option \<Rightarrow> json" where
  "column_json c = opt_json JStr c"

definition extra_or :: "json \<Rightarrow> string \<Rightarrow> string option \<Rightarrow> json" where
  "extra_or extra k cell = (case jget extra k of Some v \<Rightarrow> v | None \<Rightarrow> column_json cell)"

definition none_or_text :: "json option \<Rightarrow> string option" where
  "none_or_text v = (case v of None \<Rightarrow> None | Some JNull \<Rightarrow> None | Some x \<Rightarrow> Some (py_str x))"

definition delta_scalar :: "json \<Rightarrow> py_scalar option" where
  "delta_scalar raw =
     (case as_scalar raw of
        Some (PyBool b) \<Rightarrow> Some (PyStr (if b then ''True'' else ''False''))
      | v \<Rightarrow> v)"

definition row_decision :: "finding_row \<Rightarrow> timestamp \<Rightarrow> inspector_decision option result" where
  "row_decision row now =
     (if \<not> truthy (fr_inspector_id row) then Inr None
      else
        bindr (case fr_reason_code row of
                 None \<Rightarrow> Inr None
               | Some r \<Rightarrow> bindr (parse_reason_code r) (\<lambda>c. Inr (Some c))) (\<lambda>why.
          Inr (Some
            \<lparr>inspector_id = the (fr_inspector_id row),
             action = (case fr_inspector_action row of None \<Rightarrow> [] | Some a \<Rightarrow> a),
             decided_at = (case fr_decided_at row of None \<Rightarrow> now | Some t \<Rightarrow> t),
             reason_code = why,
             comment = fr_comment row\<rparr>)))"

definition row_refs :: "json \<Rightarrow> string list" where
  "row_refs extra =
     (case jget extra ''evidence_refs'' of
        Some (JArr xs) \<Rightarrow> map py_str xs
      | _ \<Rightarrow> [])"

definition finding_from_row :: "finding_row \<Rightarrow> timestamp \<Rightarrow> finding result" where
  "finding_from_row row now =
     bindr (case fr_payload row of
              JNull \<Rightarrow> Inr (JObj [])
            | JObj kvs \<Rightarrow> Inr (JObj kvs)
            | _ \<Rightarrow> raise TypeError ''finding payload'' []) (\<lambda>extra.
     bindr (row_decision row now) (\<lambda>decision.
     bindr (parse_finding_status (fr_finding_status row)) (\<lambda>status.
     bindr (parse_review_priority (fr_review_priority row)) (\<lambda>priority.
     bindr (case none_or_text (jget extra ''disagreement_kind'') of
              None \<Rightarrow> Inr None
            | Some k \<Rightarrow> bindr (parse_disagreement_kind k) (\<lambda>d. Inr (Some d))) (\<lambda>kind.
       mk_finding
         \<lparr>finding_id = fr_finding_id row,
          rule_code = fr_rule_code row,
          finding_status = status,
          review_priority = priority,
          matrix_version = fr_matrix_version row,
          rule_version = fr_rule_version row,
          model_version = fr_model_version row,
          evidence_group_id = fr_evidence_group_id row,
          expected_value = as_scalar (extra_or extra ''expected_value'' (fr_expected_value row)),
          actual_value = as_scalar (extra_or extra ''actual_value'' (fr_actual_value row)),
          delta = delta_scalar (extra_or extra ''delta'' (fr_delta row)),
          rationale = (case fr_rationale row of None \<Rightarrow> [] | Some r \<Rightarrow> r),
          llm_draft = none_or_text (jget extra ''llm_draft''),
          inspector_decision = decision,
          source_id = none_or_text (jget extra ''source_id''),
          evidence_refs = row_refs extra,
          disagreement_kind = kind\<rparr>)))))"

text \<open>The rows a reader gets back whole: no decision without an inspector id, no boolean difference.\<close>

definition storable :: "finding \<Rightarrow> bool" where
  "storable f =
     ((case inspector_decision f of None \<Rightarrow> True | Some d \<Rightarrow> inspector_id d \<noteq> []) \<and>
      (case delta f of Some (PyBool b) \<Rightarrow> False | _ \<Rightarrow> True))"

lemma as_scalar_json [simp]: "as_scalar (opt_json scalar_json v) = v"
  by (cases v; cases "the v") (auto simp: opt_json_def)

lemma none_or_text_json [simp]: "none_or_text (Some (opt_json JStr v)) = v"
  by (cases v) (auto simp: opt_json_def none_or_text_def)

lemma none_or_text_kind [simp]:
  "none_or_text (Some (opt_json (JStr \<circ> disagreement_kind_value) v)) = map_option disagreement_kind_value v"
  by (cases v) (auto simp: opt_json_def none_or_text_def)

lemma delta_scalar_json: "(\<And>b. v \<noteq> Some (PyBool b)) \<Longrightarrow> delta_scalar (opt_json scalar_json v) = v"
  by (auto simp: delta_scalar_def split: option.splits py_scalar.splits)

lemma row_refs_payload [simp]: "row_refs (finding_payload f) = evidence_refs f"
  by (simp add: row_refs_def finding_payload_def comp_def)

lemma row_decision_params:
  assumes "case inspector_decision f of None \<Rightarrow> True | Some d \<Rightarrow> inspector_id d \<noteq> []"
  shows "row_decision (finding_to_params pid f) now = Inr (inspector_decision f)"
proof (cases "inspector_decision f")
  case None
  then show ?thesis by (simp add: row_decision_def finding_to_params_def)
next
  case (Some d)
  with assms show ?thesis
    by (cases "reason_code d") (simp_all add: row_decision_def finding_to_params_def parse_reason_code_value)
qed

lemma finding_from_params:
  assumes "wf_finding f" and "storable f"
  shows "finding_from_row (finding_to_params pid f) now = Inr f"
proof -
  let ?row = "finding_to_params pid f"
  have dec: "row_decision ?row now = Inr (inspector_decision f)"
    using assms(2) by (intro row_decision_params) (simp add: storable_def)
  have dl: "delta_scalar (opt_json scalar_json (delta f)) = delta f"
    using assms(2) by (intro delta_scalar_json) (auto simp: storable_def)
  have kind: "(case map_option disagreement_kind_value (disagreement_kind f) of None \<Rightarrow> Inr None
      | Some k \<Rightarrow> bindr (parse_disagreement_kind k) (\<lambda>d. Inr (Some d))) = Inr (disagreement_kind f)"
    by (cases "disagreement_kind f") simp_all
  have pl: "fr_payload ?row = finding_payload f" by (simp add: finding_to_params_def)
  have fields: "jget (finding_payload f) ''disagreement_kind'' = Some (opt_json (JStr \<circ> disagreement_kind_value) (disagreement_kind f))"
      "jget (finding_payload f) ''llm_draft'' = Some (opt_json JStr (llm_draft f))"
      "jget (finding_payload f) ''source_id'' = Some (opt_json JStr (source_id f))"
      "jget (finding_payload f) ''expected_value'' = Some (opt_json scalar_json (expected_value f))"
      "jget (finding_payload f) ''actual_value'' = Some (opt_json scalar_json (actual_value f))"
      "jget (finding_payload f) ''delta'' = Some (opt_json scalar_json (delta f))"
    by (simp_all add: finding_payload_def)
  have obj: "(case finding_payload f of JNull \<Rightarrow> Inr (JObj []) | JObj kvs \<Rightarrow> Inr (JObj kvs)
      | _ \<Rightarrow> raise TypeError ''finding payload'' []) = Inr (finding_payload f)"
    by (simp add: finding_payload_def)
  have "finding_from_row ?row now = mk_finding f"
    unfolding finding_from_row_def pl obj dec bindr_simps
    by (cases "disagreement_kind f"; simp add: fields kind dl extra_or_def; cases f; simp add: finding_to_params_def)
  then show ?thesis using assms(1) by (simp add: wf_finding_def)
qed

subsection \<open>The table of findings\<close>

text \<open>
  \<open>UPSERT_FINDING_SQL\<close>: a new row is inserted; on a conflict of (process, store key) the listed
  columns take the new values, the others keep the old ones.
\<close>

type_synonym finding_table_rows = "(string \<times> string, finding_row) dict"

definition conflict_update :: "finding_row \<Rightarrow> finding_row \<Rightarrow> finding_row" where
  "conflict_update old new =
     new\<lparr>fr_process_id := fr_process_id old, fr_store_key := fr_store_key old,
         fr_matrix_version := fr_matrix_version old, fr_rule_version := fr_rule_version old,
         fr_model_version := fr_model_version old\<rparr>"

definition pg_save_finding :: "string \<Rightarrow> finding \<Rightarrow> finding_table_rows \<Rightarrow> finding_table_rows" where
  "pg_save_finding process_id f rows =
     (let row = finding_to_params process_id f; k = (fr_process_id row, fr_store_key row)
      in dict_set k (case dict_get rows k of None \<Rightarrow> row | Some old \<Rightarrow> conflict_update old row) rows)"

definition pg_load_findings :: "string \<Rightarrow> timestamp \<Rightarrow> finding_table_rows \<Rightarrow> finding list result" where
  "pg_load_findings process_id now rows =
     traverse (\<lambda>row. finding_from_row row now)
       (dict_values (filter (\<lambda>((p, k), row). p = process_id) rows))"

definition pg_replace_findings :: "string \<Rightarrow> finding list \<Rightarrow> finding_table_rows \<Rightarrow> finding_table_rows" where
  "pg_replace_findings process_id fs rows =
     fold (pg_save_finding process_id) fs (filter (\<lambda>((p, k), row). p \<noteq> process_id) rows)"

lemma pg_save_new:
  assumes "dict_get rows (pid, finding_key f) = None"
  shows "dict_get (pg_save_finding pid f rows) (pid, finding_key f) = Some (finding_to_params pid f)"
  using assms by (simp add: pg_save_finding_def finding_to_params_def)

lemma pg_save_again:
  assumes "dict_get rows (pid, finding_key f) = Some (finding_to_params pid g)"
  shows "dict_get (pg_save_finding pid f rows) (pid, finding_key f) =
    Some (finding_to_params pid (f\<lparr>matrix_version := matrix_version g, rule_version := rule_version g,
      model_version := model_version g\<rparr>)\<lparr>fr_store_key := finding_key g\<rparr>)"
  using assms
  by (simp add: pg_save_finding_def finding_to_params_def conflict_update_def finding_key_def
      finding_payload_def)

subsection \<open>Properties\<close>

text \<open>
  C32. A finding survives the database: reading back the row that was written for a well-formed
  finding gives the same finding, values with their types, decision and provenance included (a
  decision needs an inspector id and the difference is not a boolean).
\<close>

theorem stored_finding_roundtrip:
  assumes "wf_finding f" and "storable f"
  shows "finding_from_row (finding_to_params process_id f) now = Inr f"
  using finding_from_params [OF assms] .

definition row_sample :: finding where
  "row_sample = \<lparr>finding_id = ''F1'', rule_code = ''PZ-001'', finding_status = CONFIRMED_VIOLATION,
     review_priority = HIGH, matrix_version = ''m1'', rule_version = ''1'', model_version = ''none'',
     evidence_group_id = Some ''G1'', expected_value = Some (PyFloat 2), actual_value = Some (PyBool True),
     delta = Some (PyFloat (-1)), rationale = ''r'', llm_draft = None,
     inspector_decision = Some \<lparr>inspector_id = ''i'', action = ''CONFIRM'', decided_at = 7,
       reason_code = None, comment = Some ''ok''\<rparr>,
     source_id = Some ''S1'', evidence_refs = [''e1'', ''e2''], disagreement_kind = Some VALUE_DELTA\<rparr>"

lemma row_sample_ok: "wf_finding row_sample" "storable row_sample"
  by (simp_all add: wf_finding_iff row_sample_def has_comment_def blank_iff is_space_def storable_def)

theorem stored_finding_roundtrip_witness:
  "finding_from_row (finding_to_params ''p'' row_sample) 0 = Inr row_sample"
  by (rule stored_finding_roundtrip [OF row_sample_ok])

text \<open>
  The version columns of a stored finding are never updated: saving a finding again under its
  key with a new matrix, rule or model version leaves the versions of the first save in the table,
  while everything else is replaced.
\<close>

theorem database_keeps_first_versions:
  assumes "finding_key g = finding_key f" and "wf_finding f" and "storable f"
    and "dict_get rows (pid, finding_key f) = None"
  shows "map_option (\<lambda>row. finding_from_row row now)
      (dict_get (pg_save_finding pid f (pg_save_finding pid g rows)) (pid, finding_key f)) =
    Some (Inr (f\<lparr>matrix_version := matrix_version g, rule_version := rule_version g,
                 model_version := model_version g\<rparr>))"
proof -
  let ?f = "f\<lparr>matrix_version := matrix_version g, rule_version := rule_version g, model_version := model_version g\<rparr>"
  have "dict_get (pg_save_finding pid g rows) (pid, finding_key f) = Some (finding_to_params pid g)"
    using pg_save_new [of rows pid g] assms(1,4) by simp
  from pg_save_again [OF this]
  have "dict_get (pg_save_finding pid f (pg_save_finding pid g rows)) (pid, finding_key f) =
      Some (finding_to_params pid ?f\<lparr>fr_store_key := finding_key g\<rparr>)" .
  moreover have "finding_key ?f = finding_key g" using assms(1) by (simp add: finding_key_def)
  then have "finding_to_params pid ?f\<lparr>fr_store_key := finding_key g\<rparr> = finding_to_params pid ?f"
    by (simp add: finding_to_params_def)
  moreover have "finding_from_row (finding_to_params pid ?f) now = Inr ?f"
    using assms(2,3) by (intro finding_from_params) (simp_all add: wf_finding_iff storable_def)
  ultimately show ?thesis by simp
qed

theorem database_keeps_first_versions_witness:
  "map_option (\<lambda>row. finding_from_row row 0)
      (dict_get (pg_save_finding ''p'' (row_sample\<lparr>matrix_version := ''m2''\<rparr>) (pg_save_finding ''p'' row_sample []))
        (''p'', ''G1'')) = Some (Inr row_sample)"
proof -
  have "finding_key row_sample = finding_key (row_sample\<lparr>matrix_version := ''m2''\<rparr>)"
      "wf_finding (row_sample\<lparr>matrix_version := ''m2''\<rparr>)" "storable (row_sample\<lparr>matrix_version := ''m2''\<rparr>)"
    using row_sample_ok by (simp_all add: finding_key_def wf_finding_iff storable_def)
  from database_keeps_first_versions [OF this, of "[]" "''p''" 0] show ?thesis
    by (simp add: finding_key_def row_sample_def)
qed

end
