(* ===== verification/Process_Store.thy ===== *)
theory Process_Store
  imports Finding_Rows Review
begin

section \<open>The process store (infrastructure/db/process\_store.py)\<close>

text \<open>
  Snapshots of processes and the immutable versioned protocols, in the two implementations of the
  \<open>ProcessStore\<close> port: \<open>MemoryProcessStore\<close>, and \<open>PostgresProcessStore\<close> with the constraints of
  schema.sql its statements rely on. The store returns copies (\<open>_clone_protocol_payload\<close>), so values
  are passed by value here. The digest of a payload is \<open>sha\<close> of its canonical tree, an argument
  (\<open>hashlib.sha256\<close> over the canonical text); \<open>datetime.now\<close> is the argument \<open>now\<close>. The evidence
  groups a store keeps as JSON are kept as the groups that text encodes.
\<close>

definition MAX_PARSE_ATTEMPTS :: int where
  "MAX_PARSE_ATTEMPTS = 8"

definition MAX_SYNC_ATTEMPTS :: int where
  "MAX_SYNC_ATTEMPTS = 4"

record file_record =
  rec_file_id :: string
  rec_file_hash :: string
  rec_filename :: string
  rec_stage :: doc_stage
  rec_size_bytes :: int
  rec_predecessor :: "string option"
  rec_successor :: "string option"
  rec_file_path :: "string option"

record process_snapshot =
  sn_process_id :: string
  sn_object_id :: string
  sn_process_state :: process_state
  sn_scenario :: scenario
  sn_matrix_version :: string
  sn_model_version :: string
  sn_dataset_version :: "string option"
  sn_parse_attempts :: int
  sn_sync_attempts :: int
  sn_sync_state :: sync_state
  sn_last_error_code :: "string option"
  sn_finalized_by :: "string option"
  sn_protocol_id :: "string option"
  sn_completeness_pd :: completeness
  sn_completeness_rd :: completeness
  sn_completeness_id :: completeness
  sn_input_manifest_hash :: string
  sn_files :: "file_record list"

text \<open>\<open>x is None or not x.strip()\<close>.\<close>

definition absent :: "string option \<Rightarrow> bool" where
  "absent x = (case x of None \<Rightarrow> True | Some s \<Rightarrow> blank s)"

definition validate_snapshot :: "process_snapshot \<Rightarrow> unit result" where
  "validate_snapshot s =
     (if blank (sn_process_id s) \<or> blank (sn_object_id s) then
        raise ValueError ''process_id and object_id are required'' []
      else if \<not> (0 \<le> sn_parse_attempts s \<and> sn_parse_attempts s \<le> MAX_PARSE_ATTEMPTS) then
        raise ValueError ''parse_attempts out of bounds'' []
      else if \<not> (0 \<le> sn_sync_attempts s \<and> sn_sync_attempts s \<le> MAX_SYNC_ATTEMPTS) then
        raise ValueError ''sync_attempts out of bounds'' []
      else if sn_process_state s = FINALIZED \<and> absent (sn_finalized_by s) then
        raise ValueError ''FINALIZED requires finalized_by'' []
      else if sn_process_state s = FINALIZED \<and> absent (sn_protocol_id s) then
        raise ValueError ''FINALIZED requires protocol_id'' []
      else if sn_sync_state s \<noteq> NOT_REQUESTED \<and> sn_process_state s \<noteq> FINALIZED then
        raise ValueError ''sync only after FINALIZED'' []
      else if sn_sync_state s \<noteq> NOT_REQUESTED \<and> absent (sn_protocol_id s) then
        raise ValueError ''sync without protocol_id forbidden'' []
      else Inr ())"

definition outbox_event_id :: "string \<Rightarrow> string result" where
  "outbox_event_id protocol_id =
     (if blank protocol_id then raise ValueError ''protocol_id is required'' []
      else Inr (''rin-'' @ protocol_id))"

text \<open>The checks both stores make before a protocol is written.\<close>

definition reject_unsafe_protocol_payload :: "json \<Rightarrow> process_snapshot \<Rightarrow> unit result" where
  "reject_unsafe_protocol_payload payload s =
     (if sn_process_state s \<noteq> FINALIZED then
        raise ProtocolMaterializationRequiredError ''materialize_finalized only for FINALIZED'' []
      else if absent (sn_protocol_id s) then
        raise ProtocolMaterializationRequiredError ''FINALIZED requires protocol_id'' []
      else if jget payload ''kind'' = Some (JStr ''internal_placeholder'') then
        raise ProtocolMaterializationRequiredError ''internal_placeholder may not be materialised'' []
      else if jget payload ''assembled'' = Some (JBool False) then
        raise ProtocolMaterializationRequiredError ''assembled=false may not be materialised'' []
      else if jget payload ''protocol_id'' \<noteq> map_option JStr (sn_protocol_id s) then
        raise ProtocolMaterializationRequiredError ''protocol_id of snapshot and payload differ'' []
      else if starts_with (the (sn_protocol_id s)) ''placeholder-'' then
        raise ProtocolMaterializationRequiredError ''placeholder protocol_id forbidden'' []
      else if jget payload ''object_id'' \<noteq> Some (JStr (sn_object_id s)) then
        raise ProtocolMaterializationRequiredError ''object_id of payload and process differ'' []
      else (case Option.bind (jget payload ''version'') jint of
          None \<Rightarrow> raise ProtocolMaterializationRequiredError ''version must be an integer >= 1'' []
        | Some v \<Rightarrow>
            if v < 1 then raise ProtocolMaterializationRequiredError ''version must be an integer >= 1'' []
            else if jget payload ''status'' \<noteq> Some (JStr ''PROTOCOL_FINALIZED'') then
              raise ProtocolMaterializationRequiredError ''only for PROTOCOL_FINALIZED'' []
            else Inr ()))"

subsection \<open>The outbox row\<close>

text \<open>
  One row of \<open>integration_outbox\<close>, and one entry of the memory store's dictionary of the same
  name. \<open>ob_created\<close> is the column the SQL orders by; the memory dictionary has no such key and
  does not read it.
\<close>

record outbox_item =
  ob_id :: string
  ob_process_id :: string
  ob_protocol_id :: string
  ob_payload_sha256 :: string
  ob_event_id :: string
  ob_status :: string
  ob_attempts :: int
  ob_available_at :: timestamp
  ob_last_error :: "string option"
  ob_created :: timestamp

definition new_outbox_item ::
    "string \<Rightarrow> string \<Rightarrow> string \<Rightarrow> string \<Rightarrow> timestamp \<Rightarrow> outbox_item" where
  "new_outbox_item process_id protocol_id event digest now =
     \<lparr>ob_id = ''outbox-'' @ protocol_id, ob_process_id = process_id, ob_protocol_id = protocol_id,
      ob_payload_sha256 = digest, ob_event_id = event, ob_status = ''PENDING'', ob_attempts = 0,
      ob_available_at = now, ob_last_error = None, ob_created = now\<rparr>"

subsection \<open>The store in memory\<close>

record memory_store =
  ms_rows :: "(string, process_snapshot) dict"
  ms_findings :: "(string, (string, finding) dict) dict"
  ms_audit :: "(string, audit_event list) dict"
  ms_protocols :: "(string, json) dict"
  ms_full_protocols :: "(string, json) dict"
  ms_outbox :: "(string, outbox_item) dict"
  ms_evidence :: "(string, evidence_group list) dict"

definition empty_store :: memory_store where
  "empty_store = \<lparr>ms_rows = [], ms_findings = [], ms_audit = [], ms_protocols = [],
     ms_full_protocols = [], ms_outbox = [], ms_evidence = []\<rparr>"

definition memory_load :: "memory_store \<Rightarrow> string \<Rightarrow> process_snapshot option" where
  "memory_load ms process_id = dict_get (ms_rows ms) process_id"

definition memory_list_all_files :: "memory_store \<Rightarrow> (string \<times> string \<times> string) list" where
  "memory_list_all_files ms =
     concat (map (\<lambda>(pid, snap).
         map (\<lambda>item. (sn_process_id snap, rec_file_id item, strip (rec_file_hash item)))
           (sort_key rec_file_id (sn_files snap)))
       (sort_key fst (ms_rows ms)))"

definition memory_save :: "process_snapshot \<Rightarrow> (memory_store, unit) prog" where
  "memory_save snap =
     bindp (liftp (validate_snapshot snap)) (\<lambda>_.
       modp (ms_rows_update (dict_set (sn_process_id snap) snap)))"

definition memory_save_finding :: "string \<Rightarrow> finding \<Rightarrow> memory_store \<Rightarrow> memory_store" where
  "memory_save_finding process_id f ms =
     (let bucket = (case dict_get (ms_findings ms) process_id of None \<Rightarrow> [] | Some b \<Rightarrow> b)
      in ms\<lparr>ms_findings := dict_set process_id (dict_set (finding_key f) f bucket) (ms_findings ms)\<rparr>)"

definition memory_load_findings :: "memory_store \<Rightarrow> string \<Rightarrow> finding list" where
  "memory_load_findings ms process_id =
     (case dict_get (ms_findings ms) process_id of None \<Rightarrow> [] | Some b \<Rightarrow> dict_values b)"

definition memory_replace_findings :: "string \<Rightarrow> finding list \<Rightarrow> memory_store \<Rightarrow> memory_store" where
  "memory_replace_findings process_id fs ms =
     ms\<lparr>ms_findings := dict_set process_id (fold (\<lambda>f. dict_set (finding_key f) f) fs []) (ms_findings ms)\<rparr>"

definition memory_save_audit :: "string \<Rightarrow> string \<Rightarrow> string \<Rightarrow> json \<Rightarrow> memory_store \<Rightarrow> memory_store" where
  "memory_save_audit process_id who act payload ms =
     ms\<lparr>ms_audit := dict_append process_id (who, act, payload) (ms_audit ms)\<rparr>"

definition memory_load_audit :: "memory_store \<Rightarrow> string \<Rightarrow> audit_event list" where
  "memory_load_audit ms process_id =
     (case dict_get (ms_audit ms) process_id of None \<Rightarrow> [] | Some es \<Rightarrow> es)"

definition memory_save_evidence :: "string \<Rightarrow> evidence_group list \<Rightarrow> (memory_store, unit) prog" where
  "memory_save_evidence process_id gs ms =
     (if dict_get (ms_rows ms) process_id = None then (raise KeyError ''process'' [process_id], ms)
      else (Inr (), ms\<lparr>ms_evidence := dict_set process_id gs (ms_evidence ms)\<rparr>))"

definition memory_load_evidence :: "memory_store \<Rightarrow> string \<Rightarrow> evidence_group list" where
  "memory_load_evidence ms process_id =
     (case dict_get (ms_evidence ms) process_id of None \<Rightarrow> [] | Some gs \<Rightarrow> gs)"

definition version_of :: "json \<Rightarrow> int option" where
  "version_of payload = Option.bind (jget payload ''version'') jint"

definition max_protocol_version :: "(string, json) dict \<Rightarrow> string \<Rightarrow> int" where
  "max_protocol_version payloads object_id =
     fold (\<lambda>item highest.
         if jget item ''object_id'' \<noteq> Some (JStr object_id) then highest
         else case version_of item of None \<Rightarrow> highest | Some v \<Rightarrow> max highest v)
       (dict_values payloads) 0"

definition memory_next_version :: "memory_store \<Rightarrow> string \<Rightarrow> int" where
  "memory_next_version ms object_id = max_protocol_version (ms_protocols ms) object_id + 1"

text \<open>A protocol of the same object and version under another id.\<close>

definition version_taken :: "string \<Rightarrow> string \<Rightarrow> json \<Rightarrow> json \<Rightarrow> bool" where
  "version_taken object_id protocol_id encoded stored =
     (jget stored ''object_id'' = Some (JStr object_id) \<and>
      jget stored ''version'' = jget encoded ''version'' \<and>
      jget stored ''protocol_id'' \<noteq> Some (JStr protocol_id))"

definition memory_materialize ::
    "(json \<Rightarrow> string) \<Rightarrow> timestamp \<Rightarrow> process_snapshot \<Rightarrow> json \<Rightarrow> (memory_store, unit) prog" where
  "memory_materialize sha now snap payload ms =
     bindp (liftp (validate_snapshot snap)) (\<lambda>_.
     bindp (liftp (reject_unsafe_protocol_payload payload snap)) (\<lambda>_.
     bindp (liftp (case sn_protocol_id snap of
         None \<Rightarrow> raise ProtocolMaterializationRequiredError ''FINALIZED requires protocol_id'' []
       | Some pid \<Rightarrow> Inr pid)) (\<lambda>pid.
     bindp (liftp (bindr (protocol_for_rin payload) (\<lambda>q. Inr (canon q)))) (\<lambda>encoded.
     bindp (liftp (guard (case dict_get (ms_protocols ms) pid of
           None \<Rightarrow> False | Some existing \<Rightarrow> canon existing \<noteq> canon encoded)
         (Exc ProtocolConflictError ''protocol already has another content'' [pid]))) (\<lambda>_.
     bindp (liftp (guard (list_ex (version_taken (sn_object_id snap) pid encoded) (dict_values (ms_protocols ms)))
         (Exc ProtocolConflictError ''version of the object is taken'' [sn_object_id snap]))) (\<lambda>_.
     bindp (memory_save snap) (\<lambda>_.
     bindp (modp (ms_protocols_update (dict_set pid encoded))) (\<lambda>_.
     bindp (modp (ms_full_protocols_update (dict_set pid (canon payload)))) (\<lambda>_.
     bindp (liftp (outbox_event_id pid)) (\<lambda>event.
       modp (ms_outbox_update (dict_set pid
         (new_outbox_item (sn_process_id snap) pid event (sha encoded) now)))))))))))))
     ms"

definition memory_load_protocol :: "memory_store \<Rightarrow> string \<Rightarrow> json option" where
  "memory_load_protocol ms protocol_id = map_option canon (dict_get (ms_protocols ms) protocol_id)"

definition find_version :: "(string, json) dict \<Rightarrow> string \<Rightarrow> int \<Rightarrow> json option" where
  "find_version payloads object_id v =
     map_option canon (find (\<lambda>stored. jget stored ''object_id'' = Some (JStr object_id) \<and>
       jget stored ''version'' = Some (JInt v)) (dict_values payloads))"

definition memory_load_protocol_version :: "memory_store \<Rightarrow> string \<Rightarrow> int \<Rightarrow> json option" where
  "memory_load_protocol_version ms = find_version (ms_protocols ms)"

definition memory_load_full_protocol :: "memory_store \<Rightarrow> string \<Rightarrow> json option" where
  "memory_load_full_protocol ms protocol_id = map_option canon (dict_get (ms_full_protocols ms) protocol_id)"

definition memory_load_full_protocol_version :: "memory_store \<Rightarrow> string \<Rightarrow> int \<Rightarrow> json option" where
  "memory_load_full_protocol_version ms = find_version (ms_full_protocols ms)"

text \<open>\<open>clear\<close> empties every dictionary except the one of the full protocols.\<close>

definition memory_clear :: "memory_store \<Rightarrow> memory_store" where
  "memory_clear ms = empty_store\<lparr>ms_full_protocols := ms_full_protocols ms\<rparr>"


subsection \<open>Copies and their fields\<close>

lemma map_of_filter_key: "map_of kvs k = map_of (filter (\<lambda>p. fst p = k) kvs) k"
  by (induction kvs) auto

text \<open>Sorting by key is stable, so it keeps every lookup.\<close>

lemma map_of_sorted: "map_of (sort_key fst kvs) k = map_of kvs k"
proof -
  have "map_of (sort_key fst kvs) k = map_of (filter (\<lambda>p. fst p = k) (sort_key fst kvs)) k"
    by (rule map_of_filter_key)
  also have "\<dots> = map_of (filter (\<lambda>p. fst p = k) kvs) k"
    by (simp add: sort_key_stable)
  finally show ?thesis by (simp add: map_of_filter_key [symmetric])
qed

lemma jget_canon_any [simp]: "jget (canon j) k = map_option canon (jget j k)"
proof (cases j)
  case (JObj kvs)
  have "map_of (map (\<lambda>(k, v). (k, canon v)) kvs) k = map_option canon (map_of kvs k)"
    by (induction kvs) auto
  with JObj show ?thesis by (simp add: map_of_sorted)
qed simp_all

lemma rin_fields:
  assumes "protocol_for_rin payload = Inr q" and "is_obj payload"
    and "k \<notin> {''sections'', ''violation_count'', ''revision_changes''}"
  shows "jget (canon q) k = map_option canon (jget payload k)"
proof -
  have "jget q k = jget (canon payload) k" using rin_sections [OF assms(1,2)] assms(3) by blast
  then show ?thesis by (simp add: option.map_comp comp_def)
qed

text \<open>What the two checks let through.\<close>

lemma accepted_payload:
  assumes "reject_unsafe_protocol_payload payload snap = Inr u"
  shows "\<exists>pid v. sn_protocol_id snap = Some pid \<and> \<not> blank pid \<and> sn_process_state snap = FINALIZED \<and>
    is_obj payload \<and> jget payload ''protocol_id'' = Some (JStr pid) \<and>
    jget payload ''object_id'' = Some (JStr (sn_object_id snap)) \<and>
    jget payload ''version'' = Some (JInt v) \<and> 1 \<le> v"
proof -
  from assms obtain pid where pid: "sn_protocol_id snap = Some pid" "\<not> blank pid"
    by (cases "sn_protocol_id snap") (auto simp: reject_unsafe_protocol_payload_def absent_def split: if_splits)
  have ver: "\<exists>v. Option.bind (jget payload ''version'') jint = Some v \<and> \<not> v < 1"
    using assms by (simp add: reject_unsafe_protocol_payload_def split: if_splits option.splits)
  then obtain j v where j: "jget payload ''version'' = Some j" "jint j = Some v" "\<not> v < 1"
    by (cases "jget payload ''version''") auto
  then have "j = JInt v" by (cases j) auto
  moreover have "is_obj payload" using j(1) by (cases payload) auto
  moreover have "jget payload ''protocol_id'' = Some (JStr pid)"
      "jget payload ''object_id'' = Some (JStr (sn_object_id snap))" "sn_process_state snap = FINALIZED"
    using assms pid(1) by (simp_all add: reject_unsafe_protocol_payload_def split: if_splits)
  ultimately show ?thesis using pid j(1,3) by auto
qed

subsection \<open>The archive of protocols\<close>

text \<open>
  What both stores promise about versioned protocols. A materialisation that is accepted adds the
  outgoing form of the submitted payload under the protocol id of the snapshot, or finds exactly
  that content there; one that is refused changes nothing; an object has one protocol per version,
  and the version handed out next is above all of them. From these laws alone a written protocol
  never changes, whatever is submitted afterwards.
\<close>

fun materialize_all ::
    "(timestamp \<Rightarrow> process_snapshot \<Rightarrow> json \<Rightarrow> ('s, unit) prog) \<Rightarrow>
      (timestamp \<times> process_snapshot \<times> json) list \<Rightarrow> 's \<Rightarrow> 's" where
  "materialize_all materialize [] s = s"
| "materialize_all materialize ((now, snap, payload) # jobs) s =
     materialize_all materialize jobs (snd (materialize now snap payload s))"

definition rin_only :: "json \<Rightarrow> bool" where
  "rin_only p = (\<exists>conf neg.
     jget p ''sections'' = Some (canon (JObj [(''confirmed'', JArr conf), (''negative_verified'', JArr neg)])) \<and>
     list_all (allowed_row [''CONFIRMED_VIOLATION'']) conf \<and> list_all (allowed_row [''NEGATIVE_VERIFIED'']) neg)"

locale protocol_archive =
  fixes materialize :: "timestamp \<Rightarrow> process_snapshot \<Rightarrow> json \<Rightarrow> ('s, unit) prog"
    and stored :: "'s \<Rightarrow> string \<Rightarrow> json option"
    and next_version :: "'s \<Rightarrow> string \<Rightarrow> int"
    and good :: "'s \<Rightarrow> bool"
  assumes accepted: "good s \<Longrightarrow> materialize now snap payload s = (Inr u, s') \<Longrightarrow>
      good s' \<and> (\<exists>pid q. sn_protocol_id snap = Some pid \<and> protocol_for_rin payload = Inr q \<and> is_obj payload \<and>
        (stored s pid = None \<or> stored s pid = Some (canon q)) \<and> stored s' = (stored s)(pid \<mapsto> canon q))"
    and refused: "materialize now snap payload s = (Inl e, s') \<Longrightarrow> s' = s"
    and one_version: "good s \<Longrightarrow> stored s i = Some a \<Longrightarrow> stored s j = Some b \<Longrightarrow>
      jget a ''object_id'' = jget b ''object_id'' \<Longrightarrow> jget a ''version'' = jget b ''version'' \<Longrightarrow> i = j"
    and next_fresh: "good s \<Longrightarrow> stored s i = Some a \<Longrightarrow> jget a ''object_id'' = Some (JStr obj) \<Longrightarrow>
      jget a ''version'' = Some (JInt v) \<Longrightarrow> v < next_version s obj"
begin

lemma step_good: "good s \<Longrightarrow> good (snd (materialize now snap payload s))"
proof (cases "materialize now snap payload s")
  case (Pair r s')
  assume "good s"
  then show ?thesis
    using Pair accepted [of s now snap payload "()" s'] refused [of now snap payload s _ s'] by (cases r) simp_all
qed

lemma step_keeps:
  assumes "good s" and "stored s i = Some a"
  shows "stored (snd (materialize now snap payload s)) i = Some a"
proof (cases "materialize now snap payload s")
  case (Pair r s')
  show ?thesis
  proof (cases r)
    case (Inl e)
    with Pair refused have "s' = s" by blast
    with Pair assms show ?thesis by simp
  next
    case (Inr u)
    from accepted [OF assms(1) Pair [unfolded Inr]] obtain pid q where
        "stored s pid = None \<or> stored s pid = Some (canon q)" "stored s' = (stored s)(pid \<mapsto> canon q)"
      by blast
    with Pair assms show ?thesis by auto
  qed
qed

lemma run_good: "good s \<Longrightarrow> good (materialize_all materialize jobs s)"
proof (induction jobs arbitrary: s)
  case (Cons job jobs)
  then show ?case by (cases job) (simp add: step_good)
qed simp

lemma run_keeps: "good s \<Longrightarrow> stored s i = Some a \<Longrightarrow> stored (materialize_all materialize jobs s) i = Some a"
proof (induction jobs arbitrary: s)
  case (Cons job jobs)
  obtain now snap payload where job: "job = (now, snap, payload)" by (cases job)
  have "stored (snd (materialize now snap payload s)) i = Some a" by (rule step_keeps [OF Cons.prems])
  moreover have "good (snd (materialize now snap payload s))" by (rule step_good [OF Cons.prems(1)])
  ultimately show ?case by (simp add: job Cons.IH)
qed simp

text \<open>Everything stored is the outgoing form of something that was submitted.\<close>

lemma run_stored:
  assumes "good s" and "stored (materialize_all materialize jobs s) i = Some a"
  shows "stored s i = Some a \<or>
    (\<exists>(now, snap, payload) \<in> set jobs. \<exists>q. protocol_for_rin payload = Inr q \<and> is_obj payload \<and> a = canon q)"
  using assms
proof (induction jobs arbitrary: s)
  case Nil
  then show ?case by simp
next
  case (Cons job jobs)
  obtain now snap payload where job: "job = (now, snap, payload)" by (cases job)
  obtain r s1 where step: "materialize now snap payload s = (r, s1)" by (cases "materialize now snap payload s")
  have "good s1" using step_good [OF Cons.prems(1), of now snap payload] step by simp
  from Cons.IH [OF this] Cons.prems(2) job step
  consider "stored s1 i = Some a" | "\<exists>(now, snap, payload) \<in> set jobs. \<exists>q. protocol_for_rin payload = Inr q \<and> is_obj payload \<and> a = canon q"
    by auto
  then show ?case
  proof cases
    case 1
    show ?thesis
    proof (cases r)
      case (Inl e)
      with step refused have "s1 = s" by blast
      with 1 show ?thesis by simp
    next
      case (Inr u)
      from accepted [OF Cons.prems(1) step [unfolded Inr]] obtain pid q where
          "protocol_for_rin payload = Inr q" "is_obj payload" "stored s1 = (stored s)(pid \<mapsto> canon q)"
        by blast
      with 1 job show ?thesis by (cases "i = pid") auto
    qed
  next
    case 2
    then show ?thesis by auto
  qed
qed

end

lemma rin_only_canon:
  assumes "protocol_for_rin payload = Inr q" and "is_obj payload"
  shows "rin_only (canon q)"
proof -
  let ?raw = "case jget (canon payload) ''sections'' of None \<Rightarrow> JNull | Some v \<Rightarrow> v"
  obtain conf neg where s: "traverse (clean_section ?raw) RIN_SECTION_ALLOWLIST =
        Inr [(''confirmed'', JArr conf), (''negative_verified'', JArr neg)]"
      "jget q ''sections'' = Some (JObj [(''confirmed'', JArr conf), (''negative_verified'', JArr neg)])"
    using rin_sections [OF assms] by blast
  from s(1) have c: "clean_section ?raw (''confirmed'', [''CONFIRMED_VIOLATION'']) = Inr (''confirmed'', JArr conf)"
      "clean_section ?raw (''negative_verified'', [''NEGATIVE_VERIFIED'']) = Inr (''negative_verified'', JArr neg)"
    by (auto simp: RIN_SECTION_ALLOWLIST_def bindr_eq_Inr)
  have "list_all (allowed_row [''CONFIRMED_VIOLATION'']) conf" "list_all (allowed_row [''NEGATIVE_VERIFIED'']) neg"
    using clean_section_Inr [OF c(1)] clean_section_Inr [OF c(2)] by (auto simp: list_all_iff)
  with s(2) show ?thesis unfolding rin_only_def by (intro exI conjI) (simp_all only: jget_canon_any option.map)
qed


subsection \<open>The laws of an archive, over the map it stores\<close>

text \<open>What a filed protocol looks like, and one protocol per object and version.\<close>

definition filed :: "string \<Rightarrow> json \<Rightarrow> bool" where
  "filed pid p =
     (jget p ''protocol_id'' = Some (JStr pid) \<and> (\<exists>obj. jget p ''object_id'' = Some (JStr obj)) \<and>
      (\<exists>v. jget p ''version'' = Some (JInt v)) \<and> canon p = p)"

definition same_slot :: "json \<Rightarrow> json \<Rightarrow> bool" where
  "same_slot a b = (jget a ''object_id'' = jget b ''object_id'' \<and> jget a ''version'' = jget b ''version'')"

definition archive_good :: "(string \<Rightarrow> json option) \<Rightarrow> bool" where
  "archive_good m =
     ((\<forall>i p. m i = Some p \<longrightarrow> filed i p) \<and>
      (\<forall>i j a b. m i = Some a \<longrightarrow> m j = Some b \<longrightarrow> same_slot a b \<longrightarrow> i = j))"

lemma archive_good_empty [simp]: "archive_good (\<lambda>_. None)"
  by (simp add: archive_good_def)

lemma archive_good_add:
  assumes "archive_good m" and "filed pid e" and "\<And>i a. m i = Some a \<Longrightarrow> same_slot a e \<Longrightarrow> i = pid"
  shows "archive_good (m(pid \<mapsto> e))"
proof -
  have sym: "same_slot a b = same_slot b a" for a b by (auto simp: same_slot_def)
  show ?thesis using assms unfolding archive_good_def by (auto simp: sym)
qed

lemma archive_good_filed: "archive_good m \<Longrightarrow> m i = Some p \<Longrightarrow> filed i p"
  by (simp add: archive_good_def)

lemma archive_good_slot: "archive_good m \<Longrightarrow> m i = Some a \<Longrightarrow> m j = Some b \<Longrightarrow> same_slot a b \<Longrightarrow> i = j"
  unfolding archive_good_def by blast

lemma filed_outgoing:
  assumes "reject_unsafe_protocol_payload payload snap = Inr u" and "protocol_for_rin payload = Inr q"
    and "sn_protocol_id snap = Some pid"
  shows "filed pid (canon q) \<and> is_obj payload \<and> jget (canon q) ''object_id'' = Some (JStr (sn_object_id snap)) \<and>
    (\<exists>v \<ge> 1. jget (canon q) ''version'' = Some (JInt v))"
proof -
  from accepted_payload [OF assms(1)] assms(3) obtain v where p: "is_obj payload"
      "jget payload ''protocol_id'' = Some (JStr pid)" "jget payload ''object_id'' = Some (JStr (sn_object_id snap))"
      "jget payload ''version'' = Some (JInt v)" "1 \<le> v" by auto
  show ?thesis using p unfolding filed_def
    by (simp add: rin_fields [OF assms(2) p(1)] del: jget_canon_any)
qed

lemma fold_max_upper:
  fixes b :: int
  assumes "\<And>x h. h \<le> step x h" and "x \<in> set xs" and "\<And>h. b \<le> step x h"
  shows "b \<le> fold step xs h"
proof -
  have up: "h \<le> fold step ys h" for ys h
  proof (induction ys arbitrary: h)
    case (Cons y ys)
    then show ?case using assms(1) [of h y] by (auto intro: order_trans)
  qed simp
  show ?thesis using assms(2)
  proof (induction xs arbitrary: h)
    case (Cons y ys)
    show ?case
    proof (cases "x = y")
      case True
      then show ?thesis using assms(3) up [of "step y h" ys] by (auto intro: order_trans)
    next
      case False
      with Cons show ?thesis by simp
    qed
  qed simp
qed

lemma max_protocol_version_ge:
  assumes "p \<in> set (dict_values d)" and "jget p ''object_id'' = Some (JStr obj)" and "jget p ''version'' = Some (JInt v)"
  shows "v \<le> max_protocol_version d obj"
  unfolding max_protocol_version_def
  by (rule fold_max_upper [where x = p]) (use assms in \<open>auto simp: version_of_def split: option.splits\<close>)

subsection \<open>The store in memory is such an archive\<close>

definition memory_stored :: "memory_store \<Rightarrow> string \<Rightarrow> json option" where
  "memory_stored ms = dict_get (ms_protocols ms)"

definition memory_good :: "memory_store \<Rightarrow> bool" where
  "memory_good ms = archive_good (memory_stored ms)"

text \<open>An accepted materialisation, field by field.\<close>

definition materialized ::
    "(json \<Rightarrow> string) \<Rightarrow> timestamp \<Rightarrow> process_snapshot \<Rightarrow> string \<Rightarrow> json \<Rightarrow> json \<Rightarrow> memory_store \<Rightarrow> memory_store" where
  "materialized sha now snap pid encoded payload ms =
     ms\<lparr>ms_rows := dict_set (sn_process_id snap) snap (ms_rows ms),
        ms_protocols := dict_set pid encoded (ms_protocols ms),
        ms_full_protocols := dict_set pid (canon payload) (ms_full_protocols ms),
        ms_outbox := dict_set pid
          (new_outbox_item (sn_process_id snap) pid (''rin-'' @ pid) (sha encoded) now) (ms_outbox ms)\<rparr>"

lemma bindp_Inr: "bindp m k s = (Inr y, s') \<longleftrightarrow> (\<exists>x t. m s = (Inr x, t) \<and> k x t = (Inr y, s'))"
  by (auto simp: bindp_apply split: prod.splits sum.splits)

lemma bindp_lift_Inr: "bindp (liftp r) k s = (Inr y, s') \<longleftrightarrow> (\<exists>x. r = Inr x \<and> k x s = (Inr y, s'))"
  by (cases r) auto

lemma bindp_lift_Inl: "bindp (liftp r) k s = (Inl e, s') \<longleftrightarrow>
    (r = Inl e \<and> s' = s) \<or> (\<exists>x. r = Inr x \<and> k x s = (Inl e, s'))"
  by (cases r) auto

lemma bindp_Inl: "bindp m k s = (Inl e, s') \<longleftrightarrow>
    m s = (Inl e, s') \<or> (\<exists>x t. m s = (Inr x, t) \<and> k x t = (Inl e, s'))"
  by (auto simp: bindp_apply split: prod.splits sum.splits)

lemma memory_materialize_Inr:
  assumes "memory_materialize sha now snap payload ms = (Inr u, ms')"
  shows "\<exists>pid q. sn_protocol_id snap = Some pid \<and> protocol_for_rin payload = Inr q \<and>
    validate_snapshot snap = Inr () \<and> reject_unsafe_protocol_payload payload snap = Inr () \<and>
    (\<forall>existing. memory_stored ms pid = Some existing \<longrightarrow> canon existing = canon q) \<and>
    \<not> list_ex (version_taken (sn_object_id snap) pid (canon q)) (dict_values (ms_protocols ms)) \<and>
    ms' = materialized sha now snap pid (canon q) payload ms"
proof -
  from assms obtain pid encoded where one: "validate_snapshot snap = Inr ()"
      "reject_unsafe_protocol_payload payload snap = Inr ()"
      "(case sn_protocol_id snap of
          None \<Rightarrow> raise ProtocolMaterializationRequiredError ''FINALIZED requires protocol_id'' []
        | Some pid \<Rightarrow> Inr pid) = Inr pid"
      "bindr (protocol_for_rin payload) (\<lambda>q. Inr (canon q)) = Inr encoded"
      "\<not> (case dict_get (ms_protocols ms) pid of None \<Rightarrow> False | Some existing \<Rightarrow> canon existing \<noteq> canon encoded)"
      "\<not> list_ex (version_taken (sn_object_id snap) pid encoded) (dict_values (ms_protocols ms))"
      "bindp (memory_save snap) (\<lambda>_.
         bindp (modp (ms_protocols_update (dict_set pid encoded))) (\<lambda>_.
         bindp (modp (ms_full_protocols_update (dict_set pid (canon payload)))) (\<lambda>_.
         bindp (liftp (outbox_event_id pid)) (\<lambda>event.
           modp (ms_outbox_update (dict_set pid
             (new_outbox_item (sn_process_id snap) pid event (sha encoded) now))))))) ms = (Inr (), ms')"
    unfolding memory_materialize_def bindp_lift_Inr guard_Inr_iff by auto
  from one(3) have pid: "sn_protocol_id snap = Some pid" by (simp split: option.splits)
  from one(4) obtain q where q: "protocol_for_rin payload = Inr q" "encoded = canon q" by (auto simp: bindr_eq_Inr)
  have "\<not> blank pid" using accepted_payload [OF one(2)] pid by auto
  then have "ms' = materialized sha now snap pid encoded payload ms"
    using one(7)
    by (cases ms) (auto simp add: memory_save_def one(1) bindp_apply outbox_event_id_def materialized_def)
  moreover have "memory_stored ms pid = Some existing \<longrightarrow> canon existing = canon q" for existing
    using one(5) q(2) by (auto simp: memory_stored_def)
  ultimately show ?thesis using one(1,2,6) pid q by auto
qed

lemma memory_materialize_refused:
  assumes "memory_materialize sha now snap payload ms = (Inl e, ms')"
  shows "ms' = ms"
proof (cases "validate_snapshot snap")
  case (Inl e1)
  with assms show ?thesis by (simp add: memory_materialize_def)
next
  case v: (Inr u)
  show ?thesis
  proof (cases "reject_unsafe_protocol_payload payload snap")
    case (Inl e1)
    with assms v show ?thesis by (simp add: memory_materialize_def)
  next
    case (Inr u')
    from accepted_payload [OF this] obtain pid where "sn_protocol_id snap = Some pid" "\<not> blank pid" by auto
    with assms v Inr show ?thesis
      by (auto simp: memory_materialize_def memory_save_def outbox_event_id_def bindp_apply guard_def
          split: sum.splits prod.splits if_splits option.splits)
  qed
qed

lemma memory_accepts:
  assumes "memory_good ms" and "memory_materialize sha now snap payload ms = (Inr u, ms')"
  shows "memory_good ms' \<and> (\<exists>pid q. sn_protocol_id snap = Some pid \<and> protocol_for_rin payload = Inr q \<and>
    is_obj payload \<and> (memory_stored ms pid = None \<or> memory_stored ms pid = Some (canon q)) \<and>
    memory_stored ms' = (memory_stored ms)(pid \<mapsto> canon q))"
proof -
  from memory_materialize_Inr [OF assms(2)] obtain pid q where q: "sn_protocol_id snap = Some pid"
      "protocol_for_rin payload = Inr q" "reject_unsafe_protocol_payload payload snap = Inr ()"
      "\<forall>existing. memory_stored ms pid = Some existing \<longrightarrow> canon existing = canon q"
      "\<not> list_ex (version_taken (sn_object_id snap) pid (canon q)) (dict_values (ms_protocols ms))"
      "ms' = materialized sha now snap pid (canon q) payload ms"
    by blast
  note good = assms(1) [unfolded memory_good_def]
  note f = filed_outgoing [OF q(3,2,1)]
  have st: "memory_stored ms' = (memory_stored ms)(pid \<mapsto> canon q)"
    by (simp add: q(6) materialized_def memory_stored_def dict_get_set fun_upd_def)
  have "memory_stored ms pid = None \<or> memory_stored ms pid = Some (canon q)"
  proof (cases "memory_stored ms pid")
    case (Some existing)
    with archive_good_filed [OF good Some] q(4) show ?thesis by (simp add: filed_def)
  qed simp
  moreover have "archive_good ((memory_stored ms)(pid \<mapsto> canon q))"
  proof (rule archive_good_add [OF good])
    show "filed pid (canon q)" using f by blast
    fix i a
    assume a: "memory_stored ms i = Some a" "same_slot a (canon q)"
    then have "a \<in> set (dict_values (ms_protocols ms))" using dict_get_values by (simp only: memory_stored_def)
    with q(5) have "\<not> version_taken (sn_object_id snap) pid (canon q) a" by (auto simp: list_ex_iff)
    moreover have "jget a ''protocol_id'' = Some (JStr i)" using archive_good_filed [OF good a(1)] by (simp add: filed_def)
    ultimately show "i = pid" using a(2) f by (auto simp: version_taken_def same_slot_def simp del: jget_canon_any)
  qed
  ultimately show ?thesis using q f st by (auto simp: memory_good_def)
qed

interpretation memory_archive: protocol_archive
  "memory_materialize sha" memory_stored memory_next_version memory_good
  for sha
proof unfold_locales
  fix s now snap payload u s'
  assume "memory_good s" "memory_materialize sha now snap payload s = (Inr u, s')"
  then show "memory_good s' \<and> (\<exists>pid q. sn_protocol_id snap = Some pid \<and> protocol_for_rin payload = Inr q \<and>
      is_obj payload \<and> (memory_stored s pid = None \<or> memory_stored s pid = Some (canon q)) \<and>
      memory_stored s' = (memory_stored s)(pid \<mapsto> canon q))" by (rule memory_accepts)
next
  fix now snap payload s e s'
  assume "memory_materialize sha now snap payload s = (Inl e, s')"
  then show "s' = s" by (rule memory_materialize_refused)
next
  fix s i a j b
  assume "memory_good s" "memory_stored s i = Some a" "memory_stored s j = Some b"
    "jget a ''object_id'' = jget b ''object_id''" "jget a ''version'' = jget b ''version''"
  then show "i = j" by (auto simp: memory_good_def same_slot_def intro: archive_good_slot)
next
  fix s i a obj v
  assume "memory_stored s i = Some a" "jget a ''object_id'' = Some (JStr obj)" "jget a ''version'' = Some (JInt v)"
  then show "v < memory_next_version s obj"
    using max_protocol_version_ge [OF dict_get_values, of "ms_protocols s" i a obj v]
    by (simp add: memory_stored_def memory_next_version_def)
qed


lemma materialize_all_append:
  "materialize_all m (jobs @ later) s = materialize_all m later (materialize_all m jobs s)"
  by (induction jobs arbitrary: s) (auto split: prod.splits)

lemma memory_good_empty [simp]: "memory_good empty_store"
  by (simp add: memory_good_def memory_stored_def empty_store_def)

lemma memory_stored_canon: "memory_good ms \<Longrightarrow> memory_stored ms i = Some p \<Longrightarrow> canon p = p"
  using archive_good_filed by (auto simp: memory_good_def filed_def)

definition memory_reached :: "(json \<Rightarrow> string) \<Rightarrow> (timestamp \<times> process_snapshot \<times> json) list \<Rightarrow> memory_store" where
  "memory_reached sha jobs = materialize_all (memory_materialize sha) jobs empty_store"

lemma memory_reached_append:
  "memory_reached sha (jobs @ later) = materialize_all (memory_materialize sha) later (memory_reached sha jobs)"
  by (simp add: memory_reached_def materialize_all_append)

lemma memory_reached_good: "memory_good (memory_reached sha jobs)"
  unfolding memory_reached_def by (rule memory_archive.run_good) simp

lemma memory_loaded:
  "memory_load_protocol (memory_reached sha jobs) i = Some p \<Longrightarrow> memory_stored (memory_reached sha jobs) i = Some p"
  using memory_stored_canon [OF memory_reached_good] by (auto simp: memory_load_protocol_def memory_stored_def)

subsection \<open>Properties\<close>

text \<open>
  C16. A materialised protocol is immutable: whatever process snapshots and payloads are submitted
  afterwards, in any number and order, accepted or refused, the store keeps returning the same
  protocol under its id.
\<close>

theorem archived_protocols_never_change:
  assumes "memory_load_protocol (memory_reached sha jobs) pid = Some p"
  shows "memory_load_protocol (memory_reached sha (jobs @ later)) pid = Some p"
proof -
  from assms obtain q where q: "memory_stored (memory_reached sha jobs) pid = Some q" "p = canon q"
    by (auto simp: memory_load_protocol_def memory_stored_def)
  have "memory_stored (memory_reached sha (jobs @ later)) pid = Some q"
    unfolding memory_reached_append by (rule memory_archive.run_keeps [OF memory_reached_good q(1)])
  then show ?thesis using q(2) by (simp add: memory_load_protocol_def memory_stored_def)
qed

text \<open>
  C25. An object never has two protocols with one version: in every store reached by
  materialisations the protocols of an object have pairwise different versions, and the version
  the store hands out next is above all of them.
\<close>

theorem object_versions_are_unique:
  assumes "memory_load_protocol (memory_reached sha jobs) i = Some a" and "memory_load_protocol (memory_reached sha jobs) j = Some b"
    and "jget a ''object_id'' = Some (JStr obj)" and "jget b ''object_id'' = Some (JStr obj)"
    and "jget a ''version'' = Some (JInt v)"
  shows "v < memory_next_version (memory_reached sha jobs) obj \<and> (jget b ''version'' = Some (JInt v) \<longrightarrow> i = j)"
proof -
  note raw = memory_loaded [of sha jobs]
  show ?thesis
    using memory_archive.next_fresh [OF memory_reached_good raw [OF assms(1)] assms(3,5)]
      memory_archive.one_version [OF memory_reached_good raw [OF assms(1)] raw [OF assms(2)]] assms(3-5)
    by simp
qed


subsection \<open>A protocol at work\<close>

definition sample_snapshot :: process_snapshot where
  "sample_snapshot = \<lparr>sn_process_id = ''p'', sn_object_id = ''o'', sn_process_state = FINALIZED,
     sn_scenario = FULL, sn_matrix_version = ''draft-0'', sn_model_version = ''none'', sn_dataset_version = None,
     sn_parse_attempts = 1, sn_sync_attempts = 0, sn_sync_state = NOT_REQUESTED, sn_last_error_code = None,
     sn_finalized_by = Some ''i'', sn_protocol_id = Some ''protocol-p'', sn_completeness_pd = UPLOADED,
     sn_completeness_rd = UPLOADED, sn_completeness_id = UPLOADED, sn_input_manifest_hash = ''h'', sn_files = []\<rparr>"

definition sample_payload :: json where
  "sample_payload = JObj [(''protocol_id'', JStr ''protocol-p''), (''object_id'', JStr ''o''), (''version'', JInt 1),
     (''status'', JStr ''PROTOCOL_FINALIZED''),
     (''sections'', JObj [(''confirmed'', JArr [JObj [(''finding_status'', JStr ''CONFIRMED_VIOLATION'')]]),
        (''candidates'', JArr [JObj [(''finding_status'', JStr ''CANDIDATE'')]])])]"

lemma sample_outgoing: "\<exists>q. protocol_for_rin sample_payload = Inr q"
  by (simp add: sample_payload_def protocol_for_rin_def RIN_SECTION_ALLOWLIST_def clean_section_def)

lemma sample_checks: "validate_snapshot sample_snapshot = Inr ()"
    "reject_unsafe_protocol_payload sample_payload sample_snapshot = Inr ()"
  by (simp_all add: validate_snapshot_def sample_snapshot_def MAX_PARSE_ATTEMPTS_def MAX_SYNC_ATTEMPTS_def
      absent_def blank_iff is_space_def reject_unsafe_protocol_payload_def sample_payload_def)

lemma sample_materialized:
  "\<exists>q. memory_materialize sha now sample_snapshot sample_payload empty_store =
      (Inr (), materialized sha now sample_snapshot ''protocol-p'' (canon q) sample_payload empty_store) \<and>
    protocol_for_rin sample_payload = Inr q"
proof -
  obtain q where q: "protocol_for_rin sample_payload = Inr q" using sample_outgoing by blast
  have pid: "sn_protocol_id sample_snapshot = Some ''protocol-p''" by (simp add: sample_snapshot_def)
  have "memory_materialize sha now sample_snapshot sample_payload empty_store =
      (Inr (), materialized sha now sample_snapshot ''protocol-p'' (canon q) sample_payload empty_store)"
    by (simp add: memory_materialize_def sample_checks q pid memory_save_def outbox_event_id_def bindp_apply
        blank_iff is_space_def materialized_def empty_store_def)
  with q show ?thesis by blast
qed

lemma sample_archived:
  "\<exists>p. memory_load_protocol (memory_reached sha [(now, sample_snapshot, sample_payload)])
     ''protocol-p'' = Some p \<and> jget p ''object_id'' = Some (JStr ''o'') \<and> jget p ''version'' = Some (JInt 1)"
proof -
  obtain q where q: "memory_materialize sha now sample_snapshot sample_payload empty_store =
      (Inr (), materialized sha now sample_snapshot ''protocol-p'' (canon q) sample_payload empty_store)"
      "protocol_for_rin sample_payload = Inr q"
    using sample_materialized by blast
  have "is_obj sample_payload" by (simp add: sample_payload_def)
  from rin_fields [OF q(2) this] have f: "jget (canon q) ''object_id'' = Some (JStr ''o'')" "jget (canon q) ''version'' = Some (JInt 1)"
    by (simp_all add: sample_payload_def del: jget_canon_any)
  then show ?thesis by (simp add: memory_reached_def q(1) memory_load_protocol_def materialized_def del: jget_canon_any)
qed

theorem archived_protocols_never_change_witness:
  "\<exists>p. memory_load_protocol (memory_reached (\<lambda>_. ''d'')
     ([(0, sample_snapshot, sample_payload)] @ [(1, sample_snapshot, JObj [])])) ''protocol-p'' = Some p"
proof -
  obtain p where "memory_load_protocol (memory_reached (\<lambda>_. ''d'') [(0, sample_snapshot, sample_payload)]) ''protocol-p'' = Some p"
    using sample_archived by blast
  from archived_protocols_never_change [OF this] show ?thesis by blast
qed

theorem object_versions_are_unique_witness:
  "1 < memory_next_version (memory_reached (\<lambda>_. ''d'') [(0, sample_snapshot, sample_payload)]) ''o''"
proof -
  obtain p where p: "memory_load_protocol (memory_reached (\<lambda>_. ''d'') [(0, sample_snapshot, sample_payload)]) ''protocol-p'' = Some p"
      "jget p ''object_id'' = Some (JStr ''o'')" "jget p ''version'' = Some (JInt 1)"
    using sample_archived by blast
  from object_versions_are_unique [OF p(1) p(1) p(2) p(2) p(3)] show ?thesis by blast
qed


end
