(* ===== verification/Postgres_Store.thy ===== *)
theory Postgres_Store
  imports Process_Store
begin

section \<open>The process store in PostgreSQL (infrastructure/db/process\_store.py, connecting\_store.py)\<close>

text \<open>
  \<open>PostgresProcessStore\<close> as functions over the tables its statements touch, with the constraints of
  schema.sql those statements meet: the primary keys and \<open>UNIQUE\<close> keys of \<open>process_files\<close>, \<open>protocols\<close>
  and \<open>integration_outbox\<close>. Every call of \<open>ConnectingPostgresProcessStore\<close> is one connection, hence
  one transaction: an exception rolls it back (\<open>transaction\<close>). The statements that only take locks
  have no effect on one transaction alone and are not represented; \<open>SELECT ... ORDER BY\<close> sorts by
  code points. A column of a process row other than \<open>files\<close> is a field of the snapshot record.
\<close>

record protocol_row =
  prow_object_id :: string
  prow_version :: int
  prow_matrix_version :: string
  prow_dataset_version :: string
  prow_model_version :: string
  prow_manifest_hash :: string
  prow_status :: json
  prow_payload :: json
  prow_full_payload :: "json option"
  prow_sha256 :: string
  prow_finalized_at :: timestamp
  prow_supersedes :: "int option"

record pg_store =
  pg_objects :: "string list"
  pg_processes :: "(string, process_snapshot) dict"
  pg_files :: "(string \<times> string, file_record) dict"
  pg_findings :: finding_table_rows
  pg_audit :: "(string option \<times> string \<times> audit_event) list"
  pg_protocols :: "(string, protocol_row) dict"
  pg_outbox :: "(string, outbox_item) dict"
  pg_evidence :: "(string \<times> string, evidence_group) dict"

definition empty_database :: pg_store where
  "empty_database = \<lparr>pg_objects = [], pg_processes = [], pg_files = [], pg_findings = [], pg_audit = [],
     pg_protocols = [], pg_outbox = [], pg_evidence = []\<rparr>"

definition transaction :: "('s, 'a) prog \<Rightarrow> ('s, 'a) prog" where
  "transaction m s = (case m s of (Inl e, _) \<Rightarrow> (Inl e, s) | (Inr x, s') \<Rightarrow> (Inr x, s'))"

lemma transaction_Inl: "transaction m s = (Inl e, s') \<Longrightarrow> s' = s"
  by (auto simp: transaction_def split: prod.splits sum.splits)

lemma transaction_Inr: "transaction m s = (Inr x, s') \<longleftrightarrow> m s = (Inr x, s')"
  by (auto simp: transaction_def split: prod.splits sum.splits)

subsection \<open>Processes and their files\<close>

definition ensure_object :: "string \<Rightarrow> pg_store \<Rightarrow> pg_store" where
  "ensure_object object_id pg =
     (if object_id \<in> set (pg_objects pg) then pg else pg\<lparr>pg_objects := pg_objects pg @ [object_id]\<rparr>)"

text \<open>\<open>UPSERT_PROCESS_SQL\<close>: the \<open>DO UPDATE\<close> list leaves the object and the version columns alone.\<close>

definition upsert_process :: "process_snapshot \<Rightarrow> pg_store \<Rightarrow> pg_store" where
  "upsert_process snap pg =
     (let row = snap\<lparr>sn_files := []\<rparr>;
          kept = (case dict_get (pg_processes pg) (sn_process_id snap) of
              None \<Rightarrow> row
            | Some old \<Rightarrow> row\<lparr>sn_object_id := sn_object_id old, sn_matrix_version := sn_matrix_version old,
                sn_model_version := sn_model_version old, sn_dataset_version := sn_dataset_version old\<rparr>)
      in pg\<lparr>pg_processes := dict_set (sn_process_id snap) kept (pg_processes pg)\<rparr>)"

definition delete_files :: "string \<Rightarrow> pg_store \<Rightarrow> pg_store" where
  "delete_files process_id pg = pg\<lparr>pg_files := filter (\<lambda>((p, f), _). p \<noteq> process_id) (pg_files pg)\<rparr>"

text \<open>
  The keys \<open>PRIMARY KEY (process_id, file_id)\<close> and \<open>UNIQUE (process_id, file_hash, doc_stage)\<close>, and
  \<open>size_bytes INTEGER CHECK (size_bytes >= 0)\<close>.
\<close>

definition file_clash :: "string \<Rightarrow> file_record \<Rightarrow> pg_store \<Rightarrow> bool" where
  "file_clash process_id item pg =
     list_ex (\<lambda>((p, f), other). p = process_id \<and>
        (f = rec_file_id item \<or> (rec_file_hash other = rec_file_hash item \<and> rec_stage other = rec_stage item)))
       (pg_files pg)"

definition insert_file :: "string \<Rightarrow> file_record \<Rightarrow> (pg_store, unit) prog" where
  "insert_file process_id item pg =
     (if rec_size_bytes item < 0 \<or> rec_size_bytes item \<ge> 2 ^ 31 then (raise CheckViolation ''process_files'' [], pg)
      else if file_clash process_id item pg then (raise UniqueViolation ''process_files'' [], pg)
      else (Inr (), pg\<lparr>pg_files := pg_files pg @ [((process_id, rec_file_id item), item)]\<rparr>))"

definition pg_write_process :: "process_snapshot \<Rightarrow> (pg_store, unit) prog" where
  "pg_write_process snap =
     bindp (modp (ensure_object (sn_object_id snap))) (\<lambda>_.
     bindp (modp (upsert_process snap)) (\<lambda>_.
     bindp (modp (delete_files (sn_process_id snap))) (\<lambda>_.
       forp (insert_file (sn_process_id snap)) (sn_files snap))))"

definition pg_save :: "process_snapshot \<Rightarrow> (pg_store, unit) prog" where
  "pg_save snap = transaction
     (bindp (liftp (validate_snapshot snap)) (\<lambda>_.
      bindp (liftp (guard (sn_process_state snap = FINALIZED \<and> truthy (sn_protocol_id snap))
          (Exc ProtocolMaterializationRequiredError
             ''FINALIZED save requires atomic versioned protocol materialization'' []))) (\<lambda>_.
        pg_write_process snap)))"

definition read_file :: "file_record \<Rightarrow> file_record" where
  "read_file item = item\<lparr>rec_file_hash := strip (rec_file_hash item)\<rparr>"

definition pg_files_of :: "pg_store \<Rightarrow> string \<Rightarrow> file_record list" where
  "pg_files_of pg process_id =
     sort_key rec_file_id (map snd (filter (\<lambda>((p, f), _). p = process_id) (pg_files pg)))"

definition pg_load :: "pg_store \<Rightarrow> string \<Rightarrow> process_snapshot option" where
  "pg_load pg process_id =
     map_option (\<lambda>row. row\<lparr>sn_files := map read_file (pg_files_of pg process_id)\<rparr>)
       (dict_get (pg_processes pg) process_id)"

definition pg_list_all_files :: "pg_store \<Rightarrow> (string \<times> string \<times> string) list" where
  "pg_list_all_files pg =
     map (\<lambda>((p, f), item). (p, f, strip (rec_file_hash item))) (sort_key (\<lambda>((p, f), _). [p, f]) (pg_files pg))"

subsection \<open>Protocols\<close>

definition protocol_row_params ::
    "(json \<Rightarrow> string) \<Rightarrow> timestamp \<Rightarrow> process_snapshot \<Rightarrow> json \<Rightarrow> json \<Rightarrow> protocol_row result" where
  "protocol_row_params sha now snap payload full =
     (case version_of payload of
        None \<Rightarrow> raise ProtocolMaterializationRequiredError ''version must be an integer >= 1'' []
      | Some v \<Rightarrow> Inr
          \<lparr>prow_object_id = sn_object_id snap, prow_version = v, prow_matrix_version = sn_matrix_version snap,
           prow_dataset_version = or_str (sn_dataset_version snap) ''unspecified'',
           prow_model_version = sn_model_version snap, prow_manifest_hash = sn_input_manifest_hash snap,
           prow_status = (case jget payload ''status'' of None \<Rightarrow> JNull | Some st \<Rightarrow> st),
           prow_payload = canon payload, prow_full_payload = Some (canon full),
           prow_sha256 = sha (canon payload), prow_finalized_at = now,
           prow_supersedes = (if v > 1 then Some (v - 1) else None)\<rparr>)"

text \<open>
  \<open>INSERT_PROTOCOL_SQL\<close>: nothing on a conflict of the id (\<open>False\<close>, no row returned), an error on a
  conflict of \<open>UNIQUE (object_id, version)\<close>.
\<close>

definition insert_protocol :: "string \<Rightarrow> protocol_row \<Rightarrow> (pg_store, bool) prog" where
  "insert_protocol pid row pg =
     (if dict_get (pg_protocols pg) pid \<noteq> None then (Inr False, pg)
      else if list_ex (\<lambda>r. prow_object_id r = prow_object_id row \<and> prow_version r = prow_version row)
                (dict_values (pg_protocols pg)) then (raise UniqueViolation ''protocols'' [], pg)
      else (Inr True, pg\<lparr>pg_protocols := dict_set pid row (pg_protocols pg)\<rparr>))"

definition check_existing :: "string \<Rightarrow> json \<Rightarrow> (pg_store, unit) prog" where
  "check_existing pid encoded pg =
     (case dict_get (pg_protocols pg) pid of
        None \<Rightarrow> (raise ProtocolConflictError ''unique conflict without a row'' [pid], pg)
      | Some r \<Rightarrow>
          if canon (prow_payload r) \<noteq> canon encoded
          then (raise ProtocolConflictError ''protocol already has another content'' [pid], pg)
          else (Inr (), pg))"

text \<open>\<open>INSERT_OUTBOX_SQL\<close>: nothing on a conflict of (protocol, destination).\<close>

definition insert_outbox :: "outbox_item \<Rightarrow> pg_store \<Rightarrow> pg_store" where
  "insert_outbox item pg =
     (if dict_get (pg_outbox pg) (ob_protocol_id item) \<noteq> None then pg
      else pg\<lparr>pg_outbox := dict_set (ob_protocol_id item) item (pg_outbox pg)\<rparr>)"

fun as_conflict :: "string \<Rightarrow> 'a result \<Rightarrow> 'a result" where
  "as_conflict object_id (Inl (Exc UniqueViolation t vs)) =
     raise ProtocolConflictError ''UNIQUE(object_id, version)'' [object_id]"
| "as_conflict object_id r = r"

definition pg_materialize ::
    "bool \<Rightarrow> (json \<Rightarrow> string) \<Rightarrow> timestamp \<Rightarrow> process_snapshot \<Rightarrow> json \<Rightarrow> (pg_store, unit) prog" where
  "pg_materialize has_transaction sha now snap payload =
     bindp (liftp (validate_snapshot snap)) (\<lambda>_.
     bindp (liftp (reject_unsafe_protocol_payload payload snap)) (\<lambda>_.
     bindp (liftp (bindr (protocol_for_rin payload) (\<lambda>q. Inr (canon q)))) (\<lambda>encoded.
     bindp (liftp (guard (\<not> has_transaction)
         (Exc TransactionUnavailableError ''no connection.transaction(); finalisation refused'' []))) (\<lambda>_.
     bindp (liftp (case sn_protocol_id snap of
         None \<Rightarrow> raise ProtocolMaterializationRequiredError ''FINALIZED requires protocol_id'' []
       | Some pid \<Rightarrow> Inr pid)) (\<lambda>pid.
     bindp (liftp (protocol_row_params sha now snap encoded payload)) (\<lambda>row pg.
       (let (r, pg') = transaction
          (bindp (insert_protocol pid row) (\<lambda>inserted.
           bindp (if inserted then liftp (Inr ()) else check_existing pid encoded) (\<lambda>_.
           bindp (pg_write_process snap) (\<lambda>_.
           bindp (liftp (outbox_event_id pid)) (\<lambda>event.
             modp (insert_outbox (new_outbox_item (sn_process_id snap) pid event (prow_sha256 row) now))))))) pg
        in (as_conflict (sn_object_id snap) r, pg'))))))))"

definition pg_next_version :: "pg_store \<Rightarrow> string \<Rightarrow> int" where
  "pg_next_version pg object_id =
     fold max (map prow_version (filter (\<lambda>r. prow_object_id r = object_id) (dict_values (pg_protocols pg)))) 0 + 1"

definition pg_load_protocol :: "pg_store \<Rightarrow> string \<Rightarrow> json option" where
  "pg_load_protocol pg pid = map_option (\<lambda>r. canon (prow_payload r)) (dict_get (pg_protocols pg) pid)"

definition pg_row_of_version :: "pg_store \<Rightarrow> string \<Rightarrow> int \<Rightarrow> protocol_row option" where
  "pg_row_of_version pg object_id v =
     find (\<lambda>r. prow_object_id r = object_id \<and> prow_version r = v) (dict_values (pg_protocols pg))"

definition pg_load_protocol_version :: "pg_store \<Rightarrow> string \<Rightarrow> int \<Rightarrow> json option" where
  "pg_load_protocol_version pg object_id v =
     map_option (\<lambda>r. canon (prow_payload r)) (pg_row_of_version pg object_id v)"

definition pg_load_full_protocol :: "pg_store \<Rightarrow> string \<Rightarrow> json option" where
  "pg_load_full_protocol pg pid =
     map_option canon (Option.bind (dict_get (pg_protocols pg) pid) prow_full_payload)"

definition pg_load_full_protocol_version :: "pg_store \<Rightarrow> string \<Rightarrow> int \<Rightarrow> json option" where
  "pg_load_full_protocol_version pg object_id v =
     map_option canon (Option.bind (pg_row_of_version pg object_id v) prow_full_payload)"

subsection \<open>Journal and evidence\<close>

text \<open>
  Events come back in the order of their time stamps, which is the order they were written in. The
  id of a row written here is a fresh UUID (\<open>None\<close>); the sync relay chooses its ids itself.
\<close>

definition pg_save_audit :: "string \<Rightarrow> string \<Rightarrow> string \<Rightarrow> json \<Rightarrow> pg_store \<Rightarrow> pg_store" where
  "pg_save_audit process_id who act payload pg =
     pg\<lparr>pg_audit := pg_audit pg @ [(None, process_id, (who, act, payload))]\<rparr>"

definition pg_load_audit :: "pg_store \<Rightarrow> string \<Rightarrow> audit_event list" where
  "pg_load_audit pg process_id = map (snd \<circ> snd) (filter (\<lambda>(i, p, e). p = process_id) (pg_audit pg))"

definition pg_insert_evidence :: "string \<Rightarrow> evidence_group \<Rightarrow> (pg_store, unit) prog" where
  "pg_insert_evidence process_id g pg =
     (if dict_get (pg_evidence pg) (process_id, group_id g) \<noteq> None
      then (raise UniqueViolation ''process_evidence_groups'' [], pg)
      else (Inr (), pg\<lparr>pg_evidence := dict_set (process_id, group_id g) g (pg_evidence pg)\<rparr>))"

definition pg_save_evidence :: "string \<Rightarrow> evidence_group list \<Rightarrow> (pg_store, unit) prog" where
  "pg_save_evidence process_id gs = transaction
     (bindp (modp (\<lambda>pg. pg\<lparr>pg_evidence := filter (\<lambda>((p, g), _). p \<noteq> process_id) (pg_evidence pg)\<rparr>)) (\<lambda>_.
        forp (pg_insert_evidence process_id) gs))"

definition pg_load_evidence :: "pg_store \<Rightarrow> string \<Rightarrow> evidence_group list" where
  "pg_load_evidence pg process_id =
     map snd (sort_key (\<lambda>((p, g), _). g) (filter (\<lambda>((p, g), _). p = process_id) (pg_evidence pg)))"


subsection \<open>Writing a process\<close>

definition files_ok :: "file_record list \<Rightarrow> bool" where
  "files_ok fs = (distinct (map rec_file_id fs) \<and> distinct (map (\<lambda>f. (rec_file_hash f, rec_stage f)) fs) \<and>
     list_all (\<lambda>f. 0 \<le> rec_size_bytes f \<and> rec_size_bytes f < 2 ^ 31) fs)"

definition file_rows :: "string \<Rightarrow> file_record list \<Rightarrow> ((string \<times> string) \<times> file_record) list" where
  "file_rows pid fs = map (\<lambda>f. ((pid, rec_file_id f), f)) fs"

lemma insert_files:
  assumes "files_ok fs" and "\<forall>f \<in> set fs. \<not> file_clash pid f pg"
  shows "forp (insert_file pid) fs pg = (Inr (), pg\<lparr>pg_files := pg_files pg @ file_rows pid fs\<rparr>)"
  using assms
proof (induction fs arbitrary: pg)
  case Nil
  then show ?case by (simp add: file_rows_def)
next
  case (Cons f fs)
  let ?pg = "pg\<lparr>pg_files := pg_files pg @ [((pid, rec_file_id f), f)]\<rparr>"
  have one: "insert_file pid f pg = (Inr (), ?pg)"
    using Cons.prems by (simp add: insert_file_def files_ok_def)
  have "\<not> file_clash pid g ?pg" if "g \<in> set fs" for g
    using Cons.prems that by (auto simp: file_clash_def files_ok_def)
  moreover have "files_ok fs" using Cons.prems(1) by (simp add: files_ok_def)
  ultimately have "forp (insert_file pid) fs ?pg = (Inr (), ?pg\<lparr>pg_files := pg_files ?pg @ file_rows pid fs\<rparr>)"
    using Cons.IH by blast
  with one show ?case by (simp add: bindp_apply file_rows_def)
qed

lemma written_process:
  assumes "files_ok (sn_files snap)"
  shows "pg_write_process snap pg = (Inr (), (upsert_process snap (ensure_object (sn_object_id snap) pg))
    \<lparr>pg_files := filter (\<lambda>((p, f), _). p \<noteq> sn_process_id snap) (pg_files pg) @
       file_rows (sn_process_id snap) (sn_files snap)\<rparr>)"
proof -
  let ?pg = "delete_files (sn_process_id snap) (upsert_process snap (ensure_object (sn_object_id snap) pg))"
  have keep: "pg_files (upsert_process snap (ensure_object (sn_object_id snap) pg)) = pg_files pg"
    by (simp add: upsert_process_def ensure_object_def Let_def)
  have "\<not> file_clash (sn_process_id snap) f ?pg" for f
    by (auto simp: file_clash_def delete_files_def list_ex_iff)
  then show ?thesis using insert_files [OF assms, of "sn_process_id snap" ?pg]
    by (simp add: pg_write_process_def delete_files_def keep)
qed

lemma insert_file_frame:
  "insert_file pid f pg = (r, pg') \<Longrightarrow> pg_protocols pg' = pg_protocols pg \<and> pg_outbox pg' = pg_outbox pg \<and>
     pg_processes pg' = pg_processes pg"
  by (auto simp: insert_file_def split: if_splits)

lemma pg_write_process_frame:
  assumes "pg_write_process snap pg = (r, pg')"
  shows "pg_protocols pg' = pg_protocols pg \<and> pg_outbox pg' = pg_outbox pg"
proof -
  let ?pg = "delete_files (sn_process_id snap) (upsert_process snap (ensure_object (sn_object_id snap) pg))"
  let ?I = "\<lambda>s :: pg_store. pg_protocols s = pg_protocols pg \<and> pg_outbox s = pg_outbox pg"
  have run: "forp (insert_file (sn_process_id snap)) (sn_files snap) ?pg = (r, pg')"
    using assms by (simp add: pg_write_process_def)
  have init: "?I ?pg"
    by (simp add: delete_files_def upsert_process_def ensure_object_def Let_def)
  have step: "?I s'" if "?I s" "insert_file (sn_process_id snap) f s = (q, s')" for f s q s'
    using that insert_file_frame [OF that(2)] by simp
  show ?thesis
    by (rule forp_preserves [where I = ?I, OF _ init run]) (rule step)
qed

subsection \<open>Writing a protocol\<close>

definition pg_stored :: "pg_store \<Rightarrow> string \<Rightarrow> json option" where
  "pg_stored pg pid = map_option prow_payload (dict_get (pg_protocols pg) pid)"

text \<open>The columns of a protocol row agree with its payload.\<close>

definition row_agrees :: "protocol_row \<Rightarrow> bool" where
  "row_agrees r = (jget (prow_payload r) ''object_id'' = Some (JStr (prow_object_id r)) \<and>
     jget (prow_payload r) ''version'' = Some (JInt (prow_version r)))"

definition pg_good :: "pg_store \<Rightarrow> bool" where
  "pg_good pg = (archive_good (pg_stored pg) \<and> wf_dict (pg_protocols pg) \<and>
     list_all row_agrees (dict_values (pg_protocols pg)))"

lemma as_conflict_Inr [simp]: "as_conflict obj r = Inr u \<longleftrightarrow> r = Inr u"
  by (cases "(obj, r)" rule: as_conflict.cases) auto

lemma conflict_transaction:
  assumes "(let (r, s1) = transaction m s in (as_conflict obj r, s1)) = (Inl e, s')"
  shows "s' = s"
proof (cases "transaction m s")
  case (Pair r s1)
  with assms have "as_conflict obj r = Inl e" "s' = s1" by simp_all
  then show ?thesis using Pair by (cases r) (auto dest: transaction_Inl)
qed

lemma conflict_transaction_Inr:
  "(let (r, s1) = transaction m s in (as_conflict obj r, s1)) = (Inr u, s') \<longleftrightarrow> m s = (Inr u, s')"
proof (cases "transaction m s")
  case (Pair r s1)
  then show ?thesis using transaction_Inr [of m s u s'] by auto
qed

lemma pg_materialize_refused:
  assumes "pg_materialize tx sha now snap payload pg = (Inl e, pg')"
  shows "pg' = pg"
  using assms unfolding pg_materialize_def bindp_lift_Inl
  by (elim disjE exE conjE) (blast | erule conflict_transaction)+

lemma pg_materialize_Inr:
  assumes "pg_materialize tx sha now snap payload pg = (Inr u, pg')"
  shows "\<exists>pid q row. tx \<and> validate_snapshot snap = Inr () \<and> reject_unsafe_protocol_payload payload snap = Inr () \<and>
    sn_protocol_id snap = Some pid \<and> protocol_for_rin payload = Inr q \<and>
    protocol_row_params sha now snap (canon q) payload = Inr row \<and>
    pg_outbox pg' = pg_outbox (insert_outbox
      (new_outbox_item (sn_process_id snap) pid (''rin-'' @ pid) (prow_sha256 row) now) pg) \<and>
    (if dict_get (pg_protocols pg) pid = None
     then \<not> list_ex (\<lambda>r. prow_object_id r = prow_object_id row \<and> prow_version r = prow_version row)
            (dict_values (pg_protocols pg)) \<and>
          pg_protocols pg' = dict_set pid row (pg_protocols pg)
     else canon (prow_payload (the (dict_get (pg_protocols pg) pid))) = canon q \<and>
          pg_protocols pg' = pg_protocols pg)"
proof -
  from assms obtain pid encoded row where one: "validate_snapshot snap = Inr ()"
      "reject_unsafe_protocol_payload payload snap = Inr ()"
      "bindr (protocol_for_rin payload) (\<lambda>q. Inr (canon q)) = Inr encoded" "\<not> \<not> tx"
      "(case sn_protocol_id snap of
          None \<Rightarrow> raise ProtocolMaterializationRequiredError ''FINALIZED requires protocol_id'' []
        | Some pid \<Rightarrow> Inr pid) = Inr pid"
      "protocol_row_params sha now snap encoded payload = Inr row"
      "bindp (insert_protocol pid row) (\<lambda>inserted.
           bindp (if inserted then liftp (Inr ()) else check_existing pid encoded) (\<lambda>_.
           bindp (pg_write_process snap) (\<lambda>_.
           bindp (liftp (outbox_event_id pid)) (\<lambda>event.
             modp (insert_outbox (new_outbox_item (sn_process_id snap) pid event (prow_sha256 row) now)))))) pg = (Inr u, pg')"
    unfolding pg_materialize_def bindp_lift_Inr guard_Inr_iff conflict_transaction_Inr
    by (elim exE conjE) (rule that; simp)
  from one(5) have pid: "sn_protocol_id snap = Some pid" by (simp split: option.splits)
  from one(3) obtain q where q: "protocol_for_rin payload = Inr q" "encoded = canon q" by (auto simp: bindr_eq_Inr)
  from one(7) obtain inserted pg1 where ins: "insert_protocol pid row pg = (Inr inserted, pg1)"
      "bindp (if inserted then liftp (Inr ()) else check_existing pid encoded) (\<lambda>_.
         bindp (pg_write_process snap) (\<lambda>_. bindp (liftp (outbox_event_id pid)) (\<lambda>event.
           modp (insert_outbox (new_outbox_item (sn_process_id snap) pid event (prow_sha256 row) now))))) pg1 = (Inr u, pg')"
    unfolding bindp_Inr [of "insert_protocol pid row"] by blast
  then obtain x pg2 where chk: "(if inserted then liftp (Inr ()) else check_existing pid encoded) pg1 = (Inr x, pg2)"
      "bindp (pg_write_process snap) (\<lambda>_. bindp (liftp (outbox_event_id pid)) (\<lambda>event.
           modp (insert_outbox (new_outbox_item (sn_process_id snap) pid event (prow_sha256 row) now)))) pg2 = (Inr u, pg')"
    unfolding bindp_Inr [of "if inserted then _ else _"] by blast
  then obtain y pg3 event where wr: "pg_write_process snap pg2 = (Inr y, pg3)"
      "pg' = insert_outbox (new_outbox_item (sn_process_id snap) pid event (prow_sha256 row) now) pg3"
      "event = ''rin-'' @ pid"
    unfolding bindp_Inr [of "pg_write_process snap"] bindp_lift_Inr
    by (auto simp: modp_def outbox_event_id_def split: if_splits)
  have two: "pg_protocols pg' = pg_protocols pg2"
    using pg_write_process_frame [OF wr(1)] by (simp add: wr(2) insert_outbox_def)
  have "pg_outbox pg2 = pg_outbox pg"
    using ins(1) chk(1) by (auto simp: insert_protocol_def check_existing_def split: if_splits option.splits)
  then have ob: "pg_outbox pg' = pg_outbox (insert_outbox
      (new_outbox_item (sn_process_id snap) pid (''rin-'' @ pid) (prow_sha256 row) now) pg)"
    using pg_write_process_frame [OF wr(1)] wr(3) by (simp add: wr(2) insert_outbox_def)
  show ?thesis
  proof (intro exI conjI)
    show "if dict_get (pg_protocols pg) pid = None
     then \<not> list_ex (\<lambda>r. prow_object_id r = prow_object_id row \<and> prow_version r = prow_version row)
            (dict_values (pg_protocols pg)) \<and>
          pg_protocols pg' = dict_set pid row (pg_protocols pg)
     else canon (prow_payload (the (dict_get (pg_protocols pg) pid))) = canon q \<and>
          pg_protocols pg' = pg_protocols pg"
      using ins(1) chk(1) two q(2) by (auto simp: insert_protocol_def check_existing_def split: if_splits option.splits)
  qed (use one pid q ob in simp_all)
qed


lemma row_params_Inr:
  assumes "protocol_row_params sha now snap payload full = Inr row"
  shows "prow_object_id row = sn_object_id snap \<and> version_of payload = Some (prow_version row) \<and>
    prow_payload row = canon payload"
  using assms by (auto simp: protocol_row_params_def split: option.splits)

lemma version_of_JInt: "version_of p = Some v \<longleftrightarrow> jget p ''version'' = Some (JInt v)"
proof (cases "jget p ''version''")
  case (Some j)
  then show ?thesis by (cases j) (simp_all add: version_of_def)
qed (simp add: version_of_def)

lemma pg_good_row:
  assumes "pg_good pg" and "dict_get (pg_protocols pg) i = Some r"
  shows "row_agrees r \<and> filed i (prow_payload r)"
  using assms dict_get_values archive_good_filed
  by (fastforce simp: pg_good_def pg_stored_def list_all_iff)

text \<open>The unique key of the table finds what shares object and version with an outgoing protocol.\<close>

lemma slot_free:
  assumes "pg_good pg" and "row_agrees row"
    and "\<not> list_ex (\<lambda>r. prow_object_id r = prow_object_id row \<and> prow_version r = prow_version row)
        (dict_values (pg_protocols pg))"
    and "pg_stored pg i = Some a"
  shows "\<not> same_slot a (prow_payload row)"
proof -
  from assms(4) obtain r where r: "dict_get (pg_protocols pg) i = Some r" "a = prow_payload r"
    by (auto simp: pg_stored_def)
  have "r \<in> set (dict_values (pg_protocols pg))" by (rule dict_get_values [OF r(1)])
  then have "\<not> (prow_object_id r = prow_object_id row \<and> prow_version r = prow_version row)"
    using assms(3) unfolding list_ex_iff by blast
  then show ?thesis using pg_good_row [OF assms(1) r(1)] assms(2) r(2)
    by (auto simp: row_agrees_def same_slot_def)
qed

lemma pg_accepts:
  assumes good: "pg_good pg" and acc: "pg_materialize tx sha now snap payload pg = (Inr u, pg')"
  shows "pg_good pg' \<and> (\<exists>pid q. sn_protocol_id snap = Some pid \<and> protocol_for_rin payload = Inr q \<and>
    is_obj payload \<and> (pg_stored pg pid = None \<or> pg_stored pg pid = Some (canon q)) \<and>
    pg_stored pg' = (pg_stored pg)(pid \<mapsto> canon q))"
proof -
  from pg_materialize_Inr [OF acc] obtain pid q row where m: "reject_unsafe_protocol_payload payload snap = Inr ()"
      "sn_protocol_id snap = Some pid" "protocol_for_rin payload = Inr q"
      "protocol_row_params sha now snap (canon q) payload = Inr row"
      "if dict_get (pg_protocols pg) pid = None
       then \<not> list_ex (\<lambda>r. prow_object_id r = prow_object_id row \<and> prow_version r = prow_version row)
              (dict_values (pg_protocols pg)) \<and>
            pg_protocols pg' = dict_set pid row (pg_protocols pg)
       else canon (prow_payload (the (dict_get (pg_protocols pg) pid))) = canon q \<and>
            pg_protocols pg' = pg_protocols pg"
    by blast
  note f = filed_outgoing [OF m(1,3,2)]
  have row: "prow_payload row = canon q" "row_agrees row"
    using row_params_Inr [OF m(4)] f by (auto simp: version_of_JInt row_agrees_def simp del: jget_canon_any)
  show ?thesis
  proof (cases "dict_get (pg_protocols pg) pid")
    case None
    with m(5) have new: "\<not> list_ex (\<lambda>r. prow_object_id r = prow_object_id row \<and> prow_version r = prow_version row)
          (dict_values (pg_protocols pg))" "pg_protocols pg' = dict_set pid row (pg_protocols pg)" by simp_all
    have st: "pg_stored pg' = (pg_stored pg)(pid \<mapsto> canon q)"
      by (auto simp: pg_stored_def new(2) dict_get_set fun_eq_iff row(1))
    have "archive_good (pg_stored pg')" unfolding st
      by (rule archive_good_add)
        (use good f slot_free [OF good row(2) new(1)] in \<open>auto simp: pg_good_def row(1)\<close>)
    moreover have "list_all row_agrees (dict_values (pg_protocols pg'))"
      using good row(2) set_dict_values_set [of pid row "pg_protocols pg"]
      by (simp only: pg_good_def new(2) list_all_iff) blast
    ultimately have "pg_good pg'" using good by (simp add: pg_good_def new(2))
    with m f st None show ?thesis by (auto simp: pg_stored_def)
  next
    case (Some r)
    have "canon (prow_payload r) = prow_payload r" using pg_good_row [OF good Some] by (simp add: filed_def)
    with Some m(5) have r: "prow_payload r = canon q" "pg_protocols pg' = pg_protocols pg" by auto
    then have st: "pg_stored pg' = pg_stored pg" by (simp add: pg_stored_def fun_eq_iff)
    moreover have "pg_stored pg pid = Some (canon q)" by (simp add: pg_stored_def Some r(1))
    ultimately show ?thesis using good m f r(2) by (auto simp: pg_good_def)
  qed
qed

lemma fold_max_ge: "(v :: int) \<in> set vs \<Longrightarrow> v \<le> fold max vs b"
  by (rule fold_max_upper [where x = v]) auto

interpretation postgres_archive: protocol_archive
  "pg_materialize tx sha" pg_stored pg_next_version pg_good
  for tx sha
proof unfold_locales
  fix s now snap payload u s'
  assume "pg_good s" "pg_materialize tx sha now snap payload s = (Inr u, s')"
  then show "pg_good s' \<and> (\<exists>pid q. sn_protocol_id snap = Some pid \<and> protocol_for_rin payload = Inr q \<and>
      is_obj payload \<and> (pg_stored s pid = None \<or> pg_stored s pid = Some (canon q)) \<and>
      pg_stored s' = (pg_stored s)(pid \<mapsto> canon q))" by (rule pg_accepts)
next
  fix now snap payload s e s'
  assume "pg_materialize tx sha now snap payload s = (Inl e, s')"
  then show "s' = s" by (rule pg_materialize_refused)
next
  fix s i a j b
  assume "pg_good s" "pg_stored s i = Some a" "pg_stored s j = Some b"
    "jget a ''object_id'' = jget b ''object_id''" "jget a ''version'' = jget b ''version''"
  then show "i = j" by (auto simp: pg_good_def same_slot_def intro: archive_good_slot)
next
  fix s i a obj v
  assume a: "pg_good s" "pg_stored s i = Some a" "jget a ''object_id'' = Some (JStr obj)" "jget a ''version'' = Some (JInt v)"
  then obtain r where r: "dict_get (pg_protocols s) i = Some r" "a = prow_payload r" by (auto simp: pg_stored_def)
  have "prow_object_id r = obj" "prow_version r = v"
    using pg_good_row [OF a(1) r(1)] a(3,4) by (auto simp: row_agrees_def r(2))
  then have "v \<in> set (map prow_version (filter (\<lambda>r. prow_object_id r = obj) (dict_values (pg_protocols s))))"
    using dict_get_values [OF r(1)] by force
  from fold_max_ge [OF this, of 0] show "v < pg_next_version s obj" by (simp add: pg_next_version_def)
qed


subsection \<open>The two stores side by side\<close>

text \<open>
  The memory store is the reference: the tables of PostgreSQL represent it when they hold the same
  protocols. \<open>outcome\<close> is what a caller sees of a call: success, or the class of the exception.
\<close>

definition archives_agree :: "memory_store \<Rightarrow> pg_store \<Rightarrow> bool" where
  "archives_agree ms pg = (memory_stored ms = pg_stored pg \<and> wf_dict (ms_protocols ms) \<and>
     memory_good ms \<and> pg_good pg)"

fun outcome :: "'a result \<Rightarrow> exc_class option" where
  "outcome (Inl e) = Some (exc_cls e)"
| "outcome (Inr x) = None"

lemma wf_dict_value: "wf_dict d \<Longrightarrow> x \<in> set (dict_values d) \<Longrightarrow> \<exists>k. dict_get d k = Some x"
  using wf_dict_lookup by fastforce

lemma memory_materialize_checked:
  assumes "validate_snapshot snap = Inr ()" and "reject_unsafe_protocol_payload payload snap = Inr ()"
    and "sn_protocol_id snap = Some pid" and "protocol_for_rin payload = Inr q"
  shows "outcome (fst (memory_materialize sha now snap payload ms)) =
    (if (\<exists>existing. memory_stored ms pid = Some existing \<and> canon existing \<noteq> canon q) \<or>
        list_ex (version_taken (sn_object_id snap) pid (canon q)) (dict_values (ms_protocols ms))
     then Some ProtocolConflictError else None)"
proof -
  have "\<not> blank pid" using accepted_payload [OF assms(2)] assms(3) by auto
  then show ?thesis
    by (auto simp: memory_materialize_def assms memory_save_def outbox_event_id_def bindp_apply guard_def
        memory_stored_def split: option.splits)
qed

lemma pg_materialize_checked:
  assumes "validate_snapshot snap = Inr ()" and "reject_unsafe_protocol_payload payload snap = Inr ()"
    and "sn_protocol_id snap = Some pid" and "protocol_for_rin payload = Inr q"
    and "protocol_row_params sha now snap (canon q) payload = Inr row" and "files_ok (sn_files snap)"
  shows "outcome (fst (pg_materialize True sha now snap payload pg)) =
    (if (case dict_get (pg_protocols pg) pid of
           Some r \<Rightarrow> canon (prow_payload r) \<noteq> canon q
         | None \<Rightarrow> list_ex (\<lambda>r. prow_object_id r = prow_object_id row \<and> prow_version r = prow_version row)
             (dict_values (pg_protocols pg)))
     then Some ProtocolConflictError else None)"
proof -
  have "\<not> blank pid" using accepted_payload [OF assms(2)] assms(3) by auto
  then have body: "bindp (pg_write_process snap) (\<lambda>_. bindp (liftp (outbox_event_id pid)) (\<lambda>event.
      modp (insert_outbox (new_outbox_item (sn_process_id snap) pid event (prow_sha256 row) now)))) s =
      (Inr (), insert_outbox (new_outbox_item (sn_process_id snap) pid (''rin-'' @ pid) (prow_sha256 row) now)
        (snd (pg_write_process snap s)))" for s
    by (simp add: bindp_apply [of "pg_write_process snap"] written_process [OF assms(6)] outbox_event_id_def)
  show ?thesis
    unfolding pg_materialize_def
    by (auto simp: assms(1-5) transaction_def bindp_apply [of "insert_protocol pid row"]
        bindp_apply [of "check_existing pid (canon q)"] insert_protocol_def check_existing_def body
        split: option.splits)
qed

lemma filed_slot_taken:
  assumes "archives_agree ms pg" and "row_agrees row" and "filed pid (prow_payload row)"
    and "dict_get (pg_protocols pg) pid = None"
  shows "list_ex (version_taken (prow_object_id row) pid (prow_payload row)) (dict_values (ms_protocols ms)) =
    list_ex (\<lambda>r. prow_object_id r = prow_object_id row \<and> prow_version r = prow_version row)
      (dict_values (pg_protocols pg))" (is "?memory = ?table")
proof
  note agree = assms(1) [unfolded archives_agree_def]
  assume ?memory
  then obtain a where a: "a \<in> set (dict_values (ms_protocols ms))" "version_taken (prow_object_id row) pid (prow_payload row) a"
    unfolding list_ex_iff by blast
  from wf_dict_value [OF _ a(1)] agree obtain i where "memory_stored ms i = Some a" by (auto simp: memory_stored_def)
  then have "pg_stored pg i = Some a" using agree by simp
  then show ?table using slot_free [of pg row i a] agree assms(2) a(2)
    by (auto simp: version_taken_def same_slot_def row_agrees_def)
next
  note agree = assms(1) [unfolded archives_agree_def]
  assume ?table
  then obtain r where r: "r \<in> set (dict_values (pg_protocols pg))" "prow_object_id r = prow_object_id row"
      "prow_version r = prow_version row"
    unfolding list_ex_iff by blast
  from wf_dict_value [OF _ r(1)] agree obtain i where i: "dict_get (pg_protocols pg) i = Some r"
    by (auto simp: pg_good_def)
  have ri: "row_agrees r" "filed i (prow_payload r)" using pg_good_row [OF _ i] agree by auto
  have "memory_stored ms i = Some (prow_payload r)" using agree i by (simp add: pg_stored_def)
  then have "prow_payload r \<in> set (dict_values (ms_protocols ms))"
    using dict_get_values by (simp only: memory_stored_def)
  moreover have "version_taken (prow_object_id row) pid (prow_payload row) (prow_payload r)"
    using ri r(2,3) assms(2,4) i by (auto simp: version_taken_def row_agrees_def filed_def)
  ultimately show ?memory unfolding list_ex_iff by blast
qed

lemma agreeing_outcome:
  assumes agree: "archives_agree ms pg" and "files_ok (sn_files snap)"
  shows "outcome (fst (memory_materialize sha now snap payload ms)) =
    outcome (fst (pg_materialize True sha now snap payload pg))"
proof (cases "validate_snapshot snap = Inr () \<and> reject_unsafe_protocol_payload payload snap = Inr () \<and>
    (\<exists>q. protocol_for_rin payload = Inr q)")
  case False
  then consider e where "validate_snapshot snap = Inl e"
    | e where "validate_snapshot snap = Inr ()" "reject_unsafe_protocol_payload payload snap = Inl e"
    | e where "validate_snapshot snap = Inr ()" "reject_unsafe_protocol_payload payload snap = Inr ()"
        "protocol_for_rin payload = Inl e"
    by (metis (full_types) old.unit.exhaust sum.exhaust)
  then show ?thesis
  proof cases
    case 3
    with accepted_payload [OF 3(2)] show ?thesis by (auto simp: memory_materialize_def pg_materialize_def)
  qed (simp_all add: memory_materialize_def pg_materialize_def)
next
  case True
  then obtain q where ok: "validate_snapshot snap = Inr ()" "reject_unsafe_protocol_payload payload snap = Inr ()"
      "protocol_for_rin payload = Inr q" by blast
  from accepted_payload [OF ok(2)] obtain pid where pid: "sn_protocol_id snap = Some pid" by blast
  from filed_outgoing [OF ok(2,3) pid] obtain v where f: "filed pid (canon q)"
      "jget (canon q) ''object_id'' = Some (JStr (sn_object_id snap))" "jget (canon q) ''version'' = Some (JInt v)"
    by blast
  then obtain row where row: "protocol_row_params sha now snap (canon q) payload = Inr row"
    by (auto simp: protocol_row_params_def version_of_JInt [THEN iffD2] simp del: jget_canon_any)
  from row_params_Inr [OF row] f have r: "prow_object_id row = sn_object_id snap" "prow_payload row = canon q" "row_agrees row"
    by (auto simp: version_of_JInt row_agrees_def simp del: jget_canon_any)
  note both = memory_materialize_checked [OF ok(1,2) pid ok(3)] pg_materialize_checked [OF ok(1,2) pid ok(3) row assms(2)]
  show ?thesis
  proof (cases "dict_get (pg_protocols pg) pid")
    case None
    have "filed pid (prow_payload row)" using f(1) r(2) by simp
    from filed_slot_taken [OF agree r(3) this None]
    have "list_ex (version_taken (sn_object_id snap) pid (canon q)) (dict_values (ms_protocols ms)) =
      list_ex (\<lambda>r. prow_object_id r = prow_object_id row \<and> prow_version r = prow_version row)
        (dict_values (pg_protocols pg))" by (simp only: r(1,2))
    moreover have "memory_stored ms pid = None" using agree None by (simp add: archives_agree_def pg_stored_def)
    ultimately show ?thesis using both None by simp
  next
    case (Some old)
    then have m: "memory_stored ms pid = Some (prow_payload old)"
      using agree by (simp add: archives_agree_def pg_stored_def)
    have free: "\<not> list_ex (version_taken (sn_object_id snap) pid (canon q)) (dict_values (ms_protocols ms))"
      if same: "canon (prow_payload old) = canon q"
    proof
      assume "list_ex (version_taken (sn_object_id snap) pid (canon q)) (dict_values (ms_protocols ms))"
      then obtain a where a: "a \<in> set (dict_values (ms_protocols ms))" "version_taken (sn_object_id snap) pid (canon q) a"
        unfolding list_ex_iff by blast
      from wf_dict_value [OF _ a(1)] agree obtain i where i: "memory_stored ms i = Some a"
        by (auto simp: memory_stored_def archives_agree_def)
      have good: "archive_good (memory_stored ms)" using agree unfolding archives_agree_def memory_good_def by blast
      have "prow_payload old = canon q" using archive_good_filed [OF good m] same by (simp add: filed_def)
      then have "same_slot a (prow_payload old)" using a(2) f(2) by (auto simp: version_taken_def same_slot_def)
      then have "i = pid" using archive_good_slot [OF good i m] by blast
      with archive_good_filed [OF good i] a(2) show False by (auto simp: version_taken_def filed_def)
    qed
    show ?thesis using both Some m free by auto
  qed
qed


lemma agreeing_next_version:
  assumes "archives_agree ms pg"
  shows "memory_next_version ms obj = pg_next_version pg obj"
proof -
  note agree = assms [unfolded archives_agree_def]
  let ?mv = "List.map_filter (\<lambda>p. if jget p ''object_id'' = Some (JStr obj) then version_of p else None)
    (dict_values (ms_protocols ms))"
  let ?pv = "map prow_version (filter (\<lambda>r. prow_object_id r = obj) (dict_values (pg_protocols pg)))"
  have fold: "fold (\<lambda>item highest. if jget item ''object_id'' \<noteq> Some (JStr obj) then highest
      else case version_of item of None \<Rightarrow> highest | Some v \<Rightarrow> max highest v) ps b =
    fold max (List.map_filter (\<lambda>p. if jget p ''object_id'' = Some (JStr obj) then version_of p else None) ps) b"
    for ps and b :: int
    by (induction ps arbitrary: b) (auto simp: List.map_filter_simps max.commute split: option.splits)
  have "set ?mv = set ?pv"
  proof (intro equalityI subsetI)
    fix v
    assume "v \<in> set ?mv"
    then obtain p where p: "p \<in> set (dict_values (ms_protocols ms))" "jget p ''object_id'' = Some (JStr obj)"
        "version_of p = Some v" by (force simp: List.map_filter_def split: if_splits)
    from wf_dict_value [OF _ p(1)] agree obtain i where "memory_stored ms i = Some p" by (auto simp: memory_stored_def)
    then obtain r where r: "dict_get (pg_protocols pg) i = Some r" "p = prow_payload r"
      using agree by (auto simp: pg_stored_def)
    have "prow_object_id r = obj" "prow_version r = v"
      using pg_good_row [OF _ r(1)] agree p(2,3) by (auto simp: r(2) row_agrees_def version_of_JInt)
    then show "v \<in> set ?pv" using dict_get_values [OF r(1)] by force
  next
    fix v
    assume "v \<in> set ?pv"
    then obtain r where r: "r \<in> set (dict_values (pg_protocols pg))" "prow_object_id r = obj" "prow_version r = v"
      by auto
    from wf_dict_value [OF _ r(1)] agree obtain i where i: "dict_get (pg_protocols pg) i = Some r"
      by (auto simp: pg_good_def)
    then have "memory_stored ms i = Some (prow_payload r)" using agree by (simp add: pg_stored_def)
    then have "prow_payload r \<in> set (dict_values (ms_protocols ms))"
      using dict_get_values by (simp only: memory_stored_def)
    moreover have "jget (prow_payload r) ''object_id'' = Some (JStr obj)" "version_of (prow_payload r) = Some v"
      using pg_good_row [OF _ i] agree r(2,3) by (auto simp: row_agrees_def version_of_JInt)
    ultimately show "v \<in> set ?mv" by (force simp: List.map_filter_def)
  qed
  then have "fold max ?mv 0 = fold max ?pv 0"
    by (simp only: Max.set_eq_fold [symmetric] list.set)
  then show ?thesis by (simp add: memory_next_version_def max_protocol_version_def pg_next_version_def fold)
qed

lemma memory_wf_step:
  assumes "wf_dict (ms_protocols ms)"
  shows "wf_dict (ms_protocols (snd (memory_materialize sha now snap payload ms)))"
proof (cases "memory_materialize sha now snap payload ms")
  case (Pair r ms')
  show ?thesis
  proof (cases r)
    case (Inl e)
    with Pair memory_materialize_refused have "ms' = ms" by blast
    with Pair assms show ?thesis by simp
  next
    case (Inr u)
    from memory_materialize_Inr [OF Pair [unfolded Inr]] obtain pid q where
        "ms' = materialized sha now snap pid (canon q) payload ms" by blast
    with Pair assms show ?thesis by (simp add: materialized_def)
  qed
qed

lemma agreeing_step:
  assumes agree: "archives_agree ms pg" and ok: "files_ok (sn_files snap)"
  shows "archives_agree (snd (memory_materialize sha now snap payload ms)) (snd (pg_materialize True sha now snap payload pg))"
proof -
  obtain r ms' where m: "memory_materialize sha now snap payload ms = (r, ms')"
    by (cases "memory_materialize sha now snap payload ms")
  obtain r2 pg' where p: "pg_materialize True sha now snap payload pg = (r2, pg')"
    by (cases "pg_materialize True sha now snap payload pg")
  have same: "outcome r = outcome r2" using agreeing_outcome [OF agree ok, of sha now payload] m p by simp
  have wf: "wf_dict (ms_protocols ms')"
    using memory_wf_step [of ms sha now snap payload] agree m by (simp add: archives_agree_def)
  show ?thesis
  proof (cases r)
    case (Inl e)
    with same obtain e2 where r2: "r2 = Inl e2" by (cases r2) auto
    have "ms' = ms" using memory_materialize_refused m Inl by blast
    moreover have "pg' = pg" using pg_materialize_refused p r2 by blast
    ultimately show ?thesis using agree m p by simp
  next
    case (Inr u)
    with same obtain u2 where r2: "r2 = Inr u2" by (cases r2) auto
    from memory_accepts [OF _ m [unfolded Inr]] agree have a: "memory_good ms'"
        "\<exists>pid q. sn_protocol_id snap = Some pid \<and> protocol_for_rin payload = Inr q \<and>
           memory_stored ms' = (memory_stored ms)(pid \<mapsto> canon q)" by (auto simp: archives_agree_def)
    from pg_accepts [OF _ p [unfolded r2]] agree have b: "pg_good pg'"
        "\<exists>pid q. sn_protocol_id snap = Some pid \<and> protocol_for_rin payload = Inr q \<and>
           pg_stored pg' = (pg_stored pg)(pid \<mapsto> canon q)" by (auto simp: archives_agree_def)
    from a(2) b(2) have "memory_stored ms' = pg_stored pg'" using agree by (auto simp: archives_agree_def)
    then show ?thesis using a(1) b(1) wf m p by (simp add: archives_agree_def)
  qed
qed

definition pg_reached :: "(json \<Rightarrow> string) \<Rightarrow> (timestamp \<times> process_snapshot \<times> json) list \<Rightarrow> pg_store" where
  "pg_reached sha jobs = materialize_all (pg_materialize True sha) jobs empty_database"

lemma agreeing_runs:
  assumes "archives_agree ms pg" and "list_all (\<lambda>(now, snap, payload). files_ok (sn_files snap)) jobs"
  shows "archives_agree (materialize_all (memory_materialize sha) jobs ms)
    (materialize_all (pg_materialize True sha) jobs pg)"
  using assms
proof (induction jobs arbitrary: ms pg)
  case (Cons job jobs)
  obtain now snap payload where job: "job = (now, snap, payload)" by (cases job)
  from Cons.prems job have "files_ok (sn_files snap)" by simp
  from Cons.IH [OF agreeing_step [OF Cons.prems(1) this]] Cons.prems(2) show ?case by (simp add: job)
qed simp

lemma agreeing_empty: "archives_agree empty_store empty_database"
proof -
  have "memory_stored empty_store = (\<lambda>_. None)" "pg_stored empty_database = (\<lambda>_. None)"
    by (simp_all add: memory_stored_def empty_store_def pg_stored_def empty_database_def fun_eq_iff)
  then show ?thesis by (simp add: archives_agree_def memory_good_def pg_good_def)
    (simp add: empty_store_def empty_database_def)
qed

subsection \<open>Properties\<close>



text \<open>
  C30. A saved process reads back as it was saved: the same snapshot with its files in the order of
  their ids, provided the process is new to the database or its object and versions are those of
  its first save (the upsert never changes them).
\<close>

theorem saved_process_reads_back:
  assumes "pg_save snap pg = (Inr (), pg')" and "files_ok (sn_files snap)"
    and "case dict_get (pg_processes pg) (sn_process_id snap) of
        None \<Rightarrow> True
      | Some old \<Rightarrow> sn_object_id old = sn_object_id snap \<and> sn_matrix_version old = sn_matrix_version snap \<and>
          sn_model_version old = sn_model_version snap \<and> sn_dataset_version old = sn_dataset_version snap"
    and "\<forall>f \<in> set (sn_files snap). strip (rec_file_hash f) = rec_file_hash f"
  shows "pg_load pg' (sn_process_id snap) = Some (snap\<lparr>sn_files := sort_key rec_file_id (sn_files snap)\<rparr>)"
proof -
  let ?old = "filter (\<lambda>((p, f), _). p \<noteq> sn_process_id snap) (pg_files pg)"
  have pg': "pg' = (upsert_process snap (ensure_object (sn_object_id snap) pg))
      \<lparr>pg_files := ?old @ file_rows (sn_process_id snap) (sn_files snap)\<rparr>"
    using assms(1) unfolding pg_save_def transaction_Inr bindp_lift_Inr
    by (simp add: written_process [OF assms(2)])
  have row: "dict_get (pg_processes pg') (sn_process_id snap) = Some (snap\<lparr>sn_files := []\<rparr>)"
    using assms(3) by (cases snap) (auto simp: pg' upsert_process_def ensure_object_def Let_def split: option.splits)
  have "filter (\<lambda>((p, f), _). p = sn_process_id snap) (pg_files pg') = file_rows (sn_process_id snap) (sn_files snap)"
    by (auto simp: pg' file_rows_def filter_empty_conv filter_id_conv split: prod.splits)
  then have "pg_files_of pg' (sn_process_id snap) = sort_key rec_file_id (sn_files snap)"
    by (simp add: pg_files_of_def file_rows_def comp_def)
  moreover have "map read_file (sort_key rec_file_id (sn_files snap)) = sort_key rec_file_id (sn_files snap)"
    by (rule map_idI) (use assms(4) in \<open>simp add: read_file_def\<close>)
  ultimately show ?thesis by (simp add: pg_load_def row)
qed

definition open_snapshot :: process_snapshot where
  "open_snapshot = sample_snapshot\<lparr>sn_process_state := READY, sn_finalized_by := None, sn_protocol_id := None\<rparr>"

theorem saved_process_reads_back_witness:
  "\<exists>pg'. pg_save open_snapshot empty_database = (Inr (), pg') \<and> pg_load pg' ''p'' = Some open_snapshot"
proof -
  have ok: "files_ok (sn_files open_snapshot)" by (simp add: files_ok_def open_snapshot_def sample_snapshot_def)
  have "validate_snapshot open_snapshot = Inr ()"
    by (simp add: validate_snapshot_def open_snapshot_def sample_snapshot_def MAX_PARSE_ATTEMPTS_def
        MAX_SYNC_ATTEMPTS_def blank_iff is_space_def)
  then obtain pg' where save: "pg_save open_snapshot empty_database = (Inr (), pg')"
    by (simp add: pg_save_def transaction_def written_process [OF ok])
      (simp add: written_process [OF ok, unfolded open_snapshot_def] open_snapshot_def)
  from saved_process_reads_back [OF save ok] save show ?thesis
    by (simp add: empty_database_def open_snapshot_def sample_snapshot_def)
qed

end
