(* ===== verification/Outbox.thy ===== *)
theory Outbox
  imports Postgres_Store "HOL-Library.Product_Lexorder"
begin

section \<open>The outbox relay (infrastructure/outbox.py, outbox\_worker.py, rin\_client.py)\<close>

text \<open>
  A finalised protocol waits in the outbox until a relay cycle claims it, checks its digest,
  publishes it to the broker with a confirm, hands it to the receiver and marks the row. The broker
  is an argument \<open>publish\<close> acting on a state \<open>'w\<close> of its own, as is the receiver \<open>deliver\<close>
  (\<open>deliver_from_env\<close>: \<open>deliver_protocol\<close> with the settings of the process). A body is the canonical
  tree of its JSON text. Times are seconds.
\<close>

definition RETRY_SECONDS :: "int list" where
  "RETRY_SECONDS = [60, 300, 900]"

definition LEASE_SECONDS :: int where
  "LEASE_SECONDS = 30"

definition MAX_ATTEMPTS :: int where
  "MAX_ATTEMPTS = 4"

text \<open>\<open>attempts\<close> is the count after the failed try.\<close>

definition retry_delay :: "int \<Rightarrow> int option result" where
  "retry_delay attempts =
     (if attempts < 1 then raise ValueError ''attempts'' []
      else if attempts \<ge> MAX_ATTEMPTS then Inr None
      else Inr (Some (RETRY_SECONDS ! nat (attempts - 1))))"

record outbox_row =
  or_id :: string
  or_process_id :: string
  or_protocol_id :: string
  or_event_id :: string
  or_payload_sha256 :: string
  or_attempts :: int

definition row_of_item :: "outbox_item \<Rightarrow> outbox_row" where
  "row_of_item item =
     \<lparr>or_id = ob_id item, or_process_id = ob_process_id item, or_protocol_id = ob_protocol_id item,
      or_event_id = ob_event_id item, or_payload_sha256 = strip (ob_payload_sha256 item),
      or_attempts = ob_attempts item\<rparr>"

definition claimable :: "timestamp \<Rightarrow> outbox_item \<Rightarrow> bool" where
  "claimable now item =
     ((ob_status item = ''PENDING'' \<or> ob_status item = ''DELIVERING'') \<and>
      ob_available_at item \<le> now \<and> ob_attempts item < MAX_ATTEMPTS)"

definition leased :: "timestamp \<Rightarrow> outbox_item \<Rightarrow> outbox_item" where
  "leased now item = item\<lparr>ob_status := ''DELIVERING'', ob_attempts := ob_attempts item + 1,
     ob_available_at := now + LEASE_SECONDS\<rparr>"

definition delivered_item :: "outbox_item \<Rightarrow> outbox_item" where
  "delivered_item item = item\<lparr>ob_status := ''DELIVERED'', ob_last_error := None\<rparr>"

definition failed_item :: "timestamp \<Rightarrow> string \<Rightarrow> int option \<Rightarrow> outbox_item \<Rightarrow> outbox_item" where
  "failed_item now err delay item =
     (case delay of
        None \<Rightarrow> item\<lparr>ob_last_error := Some err, ob_status := ''FAILED_TERMINAL''\<rparr>
      | Some d \<Rightarrow> item\<lparr>ob_last_error := Some err, ob_status := ''PENDING'', ob_available_at := now + d\<rparr>)"

definition failed_status :: "int option \<Rightarrow> string" where
  "failed_status delay = (case delay of None \<Rightarrow> ''FAILED_TERMINAL'' | Some d \<Rightarrow> ''PENDING'')"

definition in_delivery :: "string \<Rightarrow> outbox_item \<Rightarrow> bool" where
  "in_delivery i item = (ob_id item = i \<and> ob_status item = ''DELIVERING'')"

definition pause_after :: "outbox_row \<Rightarrow> bool \<Rightarrow> int option result" where
  "pause_after row terminal = (if terminal then Inr None else retry_delay (or_attempts row))"

subsection \<open>In memory\<close>

definition claim_memory :: "timestamp \<Rightarrow> memory_store \<Rightarrow> outbox_row option \<times> memory_store" where
  "claim_memory now ms =
     (case sort_key (\<lambda>(pid, item). (ob_available_at item, pid))
             (filter (\<lambda>(pid, item). claimable now item) (ms_outbox ms)) of
        [] \<Rightarrow> (None, ms)
      | (pid, item) # _ \<Rightarrow>
          (Some (row_of_item (leased now item)), ms\<lparr>ms_outbox := dict_set pid (leased now item) (ms_outbox ms)\<rparr>))"

text \<open>A loop over the values that changes the first match and returns; \<open>None\<close> when there is none.\<close>

fun change_first :: "('v \<Rightarrow> bool) \<Rightarrow> ('v \<Rightarrow> 'v) \<Rightarrow> ('k, 'v) dict \<Rightarrow> ('k, 'v) dict option" where
  "change_first P f [] = None"
| "change_first P f ((k, v) # kvs) =
     (if P v then Some ((k, f v) # kvs) else map_option (Cons (k, v)) (change_first P f kvs))"

definition mark_memory_delivered :: "string \<Rightarrow> (memory_store, unit) prog" where
  "mark_memory_delivered i ms =
     (case change_first (in_delivery i) delivered_item (ms_outbox ms) of
        None \<Rightarrow> (raise LookupError ''outbox row'' [i], ms)
      | Some d \<Rightarrow> (Inr (), ms\<lparr>ms_outbox := d\<rparr>))"

definition mark_memory_failed :: "outbox_row \<Rightarrow> timestamp \<Rightarrow> string \<Rightarrow> bool \<Rightarrow> (memory_store, string) prog" where
  "mark_memory_failed row now err terminal =
     bindp (liftp (pause_after row terminal)) (\<lambda>delay ms.
       case change_first (in_delivery (or_id row)) (failed_item now err delay) (ms_outbox ms) of
         None \<Rightarrow> (raise LookupError ''outbox row'' [or_id row], ms)
       | Some d \<Rightarrow> (Inr (failed_status delay), ms\<lparr>ms_outbox := d\<rparr>))"

definition memory_protocol_body :: "string \<Rightarrow> (memory_store, json) prog" where
  "memory_protocol_body pid ms =
     (case memory_load_protocol ms pid of
        None \<Rightarrow> (raise LookupError ''protocol'' [pid], ms) | Some p \<Rightarrow> (Inr (canon p), ms))"

subsection \<open>In PostgreSQL\<close>

text \<open>\<open>UPDATE ... WHERE\<close> changes every matching row; it is no error to change none.\<close>

definition update_where :: "('v \<Rightarrow> bool) \<Rightarrow> ('v \<Rightarrow> 'v) \<Rightarrow> ('k, 'v) dict \<Rightarrow> ('k, 'v) dict" where
  "update_where P f d = map (\<lambda>(k, v). (k, if P v then f v else v)) d"

definition claim_postgres :: "timestamp \<Rightarrow> pg_store \<Rightarrow> outbox_row option \<times> pg_store" where
  "claim_postgres now pg =
     (case sort_key (\<lambda>(pid, item). ob_created item)
             (filter (\<lambda>(pid, item). claimable now item) (pg_outbox pg)) of
        [] \<Rightarrow> (None, pg)
      | (pid, item) # _ \<Rightarrow>
          (Some (row_of_item (leased now item)),
           pg\<lparr>pg_outbox := update_where (\<lambda>other. ob_id other = ob_id item) (leased now) (pg_outbox pg)\<rparr>))"

definition mark_postgres_delivered :: "string \<Rightarrow> (pg_store, unit) prog" where
  "mark_postgres_delivered i =
     modp (\<lambda>pg. pg\<lparr>pg_outbox := update_where (in_delivery i) delivered_item (pg_outbox pg)\<rparr>)"

definition mark_postgres_failed :: "outbox_row \<Rightarrow> timestamp \<Rightarrow> string \<Rightarrow> bool \<Rightarrow> (pg_store, string) prog" where
  "mark_postgres_failed row now err terminal =
     bindp (liftp (pause_after row terminal)) (\<lambda>delay.
     bindp (modp (\<lambda>pg. pg\<lparr>pg_outbox :=
         update_where (in_delivery (or_id row)) (failed_item now err delay) (pg_outbox pg)\<rparr>)) (\<lambda>_.
       liftp (Inr (failed_status delay))))"

definition postgres_protocol_body :: "string \<Rightarrow> (pg_store, json) prog" where
  "postgres_protocol_body pid pg =
     (case pg_load_protocol pg pid of
        None \<Rightarrow> (raise LookupError ''protocol'' [pid], pg) | Some p \<Rightarrow> (Inr (canon p), pg))"

subsection \<open>The receiver (rin\_client.py)\<close>

datatype rin_status = LOCAL_ONLY | SENT | SEND_FAILED | SEND_REFUSED

record rin_result =
  rin_status :: rin_status
  rin_detail :: string
  rin_retryable :: bool

text \<open>
  What the network answers: \<open>HTTPError\<close> with its code, another failure of the connection, or a
  response with its status. The parsed address (\<open>urlparse\<close>: scheme and host, \<open>None\<close> when it raises)
  and the test of an IP address (\<open>ipaddress\<close>: \<open>None\<close> when it is not one) are arguments.
\<close>

datatype net_answer = HttpRefused int | Unreachable string | Response int

definition private_host :: "(string \<Rightarrow> bool option) \<Rightarrow> string \<Rightarrow> bool" where
  "private_host ip_private host =
     (if host = ''localhost'' then True
      else case ip_private host of
        None \<Rightarrow> CHR ''.'' \<notin> set host
      | Some p \<Rightarrow> p)"

definition is_contour_url ::
    "(string \<Rightarrow> (string \<times> string) option) \<Rightarrow> (string \<Rightarrow> bool option) \<Rightarrow> string \<Rightarrow> string list \<Rightarrow> bool" where
  "is_contour_url urlparse ip_private url allowed =
     (case urlparse url of
        None \<Rightarrow> False
      | Some (scheme, hostname) \<Rightarrow>
          if scheme \<noteq> ''https'' \<or> hostname = [] then False
          else if str_lower hostname \<in> str_lower ` set allowed then True
          else private_host ip_private (str_lower hostname))"

definition refused_text :: "int \<Rightarrow> string" where
  "refused_text code = ''receiver refused: HTTP '' @ show_int code"

definition deliver_protocol ::
    "(string \<Rightarrow> (string \<times> string) option) \<Rightarrow> (string \<Rightarrow> bool option) \<Rightarrow> string \<Rightarrow> string list \<Rightarrow>
     net_answer \<Rightarrow> rin_result" where
  "deliver_protocol urlparse ip_private url allowed answer =
     (if blank url then \<lparr>rin_status = LOCAL_ONLY, rin_detail = ''no receiver address'', rin_retryable = False\<rparr>
      else if \<not> is_contour_url urlparse ip_private url allowed then
        \<lparr>rin_status = SEND_REFUSED, rin_detail = ''receiver must be HTTPS inside the contour'', rin_retryable = False\<rparr>
      else (case answer of
          HttpRefused code \<Rightarrow> \<lparr>rin_status = SEND_FAILED, rin_detail = refused_text code, rin_retryable = (code \<ge> 500)\<rparr>
        | Unreachable cls \<Rightarrow> \<lparr>rin_status = SEND_FAILED, rin_detail = ''receiver unreachable: '' @ cls, rin_retryable = True\<rparr>
        | Response status \<Rightarrow>
            if status \<ge> 500 then \<lparr>rin_status = SEND_FAILED, rin_detail = refused_text status, rin_retryable = True\<rparr>
            else if status \<ge> 400 then \<lparr>rin_status = SEND_FAILED, rin_detail = refused_text status, rin_retryable = False\<rparr>
            else \<lparr>rin_status = SENT, rin_detail = ''accepted: HTTP '' @ show_int status, rin_retryable = False\<rparr>))"

subsection \<open>One relay cycle\<close>

type_synonym 'w publisher = "string \<Rightarrow> json \<Rightarrow> (string \<times> string) list \<Rightarrow> ('w, unit) prog"
type_synonym 'w receiver = "json \<Rightarrow> string \<Rightarrow> ('w, rin_result) prog"

definition on_store :: "('m, 'a) prog \<Rightarrow> ('m \<times> 'w, 'a) prog" where
  "on_store p s = (let (r, m') = p (fst s) in (r, (m', snd s)))"

definition on_world :: "('w, 'a) prog \<Rightarrow> ('m \<times> 'w, 'a) prog" where
  "on_world p s = (let (r, w') = p (snd s) in (r, (fst s, w')))"

lemma on_world_apply: "on_world p (m, w) = (fst (p w), (m, snd (p w)))"
  by (simp add: on_world_def Let_def split: prod.splits)

lemma bindp_on_world:
  "bindp (on_world p) k (m, w) =
     (case p w of (Inl e, w') \<Rightarrow> (Inl e, (m, w')) | (Inr x, w') \<Rightarrow> k x (m, w'))"
  by (simp add: bindp_apply on_world_apply split: prod.splits sum.splits)

definition row_headers :: "outbox_row \<Rightarrow> (string \<times> string) list" where
  "row_headers row = [(''process_id'', or_process_id row), (''protocol_id'', or_protocol_id row),
     (''payload_sha256'', or_payload_sha256 row)]"

definition publish_row ::
    "(json \<Rightarrow> string) \<Rightarrow> 'w publisher \<Rightarrow> 'w receiver \<Rightarrow> (string \<Rightarrow> ('m, unit) prog) \<Rightarrow>
     (outbox_row \<Rightarrow> timestamp \<Rightarrow> string \<Rightarrow> bool \<Rightarrow> ('m, string) prog) \<Rightarrow> timestamp \<Rightarrow>
     outbox_row \<Rightarrow> json \<Rightarrow> ('m \<times> 'w, string) prog" where
  "publish_row sha publish deliver mark_delivered mark_failed now row body s =
     (if sha (canon body) \<noteq> or_payload_sha256 row
      then on_store (mark_failed row now ''payload_sha256 mismatch'' True) s
      else case on_world (publish (or_event_id row) body (row_headers row)) s of
          (Inl e, s') \<Rightarrow>
            if exc_cls e = PublishError then on_store (mark_failed row now (exc_text e) False) s' else (Inl e, s')
        | (Inr _, s') \<Rightarrow>
            bindp (on_world (deliver body (or_event_id row))) (\<lambda>rin.
              if rin_status rin = SEND_REFUSED then on_store (mark_failed row now (rin_detail rin) True)
              else if rin_status rin = SEND_FAILED
                then on_store (mark_failed row now (rin_detail rin) (\<not> rin_retryable rin))
              else bindp (on_store (mark_delivered (or_id row))) (\<lambda>_. liftp (Inr ''DELIVERED''))) s')"

definition relay_with ::
    "(timestamp \<Rightarrow> 'm \<Rightarrow> outbox_row option \<times> 'm) \<Rightarrow> (string \<Rightarrow> ('m, json) prog) \<Rightarrow>
     (string \<Rightarrow> ('m, unit) prog) \<Rightarrow> (outbox_row \<Rightarrow> timestamp \<Rightarrow> string \<Rightarrow> bool \<Rightarrow> ('m, string) prog) \<Rightarrow>
     (json \<Rightarrow> string) \<Rightarrow> 'w publisher \<Rightarrow> 'w receiver \<Rightarrow> timestamp \<Rightarrow> ('m \<times> 'w, string option) prog" where
  "relay_with claim body_of mark_delivered mark_failed sha publish deliver now s =
     (case claim now (fst s) of
        (None, m') \<Rightarrow> (Inr None, (m', snd s))
      | (Some row, m') \<Rightarrow>
          bindp (on_store (body_of (or_protocol_id row))) (\<lambda>body.
          bindp (publish_row sha publish deliver mark_delivered mark_failed now row body) (\<lambda>r.
            liftp (Inr (Some r)))) (m', snd s))"

definition relay_once_memory ::
    "(json \<Rightarrow> string) \<Rightarrow> 'w publisher \<Rightarrow> 'w receiver \<Rightarrow> timestamp \<Rightarrow> (memory_store \<times> 'w, string option) prog" where
  "relay_once_memory = relay_with claim_memory memory_protocol_body mark_memory_delivered mark_memory_failed"

definition relay_once_postgres ::
    "(json \<Rightarrow> string) \<Rightarrow> 'w publisher \<Rightarrow> 'w receiver \<Rightarrow> timestamp \<Rightarrow> (pg_store \<times> 'w, string option) prog" where
  "relay_once_postgres = relay_with claim_postgres postgres_protocol_body mark_postgres_delivered mark_postgres_failed"

text \<open>
  \<open>OutboxRelayWorker.run_once\<close>: commit after the cycle, roll the database back when it raises. What
  the broker has seen is not undone.
\<close>

definition run_once :: "('m \<times> 'w, 'a) prog \<Rightarrow> ('m \<times> 'w, 'a) prog" where
  "run_once cycle s =
     (case cycle s of (Inr x, s') \<Rightarrow> (Inr x, s') | (Inl e, s') \<Rightarrow> (Inl e, (fst s, snd s')))"

text \<open>The test double of the broker: it refuses a number of times, then records.\<close>

record recording_publisher =
  rp_events :: "(string \<times> json) list"
  rp_fail_remaining :: int

definition recording_publish :: "recording_publisher publisher" where
  "recording_publish event body headers w =
     (if rp_fail_remaining w > 0
      then (raise PublishError ''publisher nack'' [], w\<lparr>rp_fail_remaining := rp_fail_remaining w - 1\<rparr>)
      else (Inr (), w\<lparr>rp_events := rp_events w @ [(event, body)]\<rparr>))"


subsection \<open>What a relay needs from an outbox\<close>

text \<open>
  The interface between a relay cycle and the table it works on, for both stores: \<open>item\<close> looks a row
  up by its protocol. Claiming finds a claimable row when there is one and leases exactly that row;
  marking changes exactly the row in delivery; the body is only read. Inside the interface a cycle
  settles exactly one row, within four attempts, and draining is finite.
\<close>

locale relay_outbox =
  fixes item :: "'m \<Rightarrow> string \<Rightarrow> outbox_item option"
    and claim :: "timestamp \<Rightarrow> 'm \<Rightarrow> outbox_row option \<times> 'm"
    and body_of :: "string \<Rightarrow> ('m, json) prog"
    and mark_delivered :: "string \<Rightarrow> ('m, unit) prog"
    and mark_failed :: "outbox_row \<Rightarrow> timestamp \<Rightarrow> string \<Rightarrow> bool \<Rightarrow> ('m, string) prog"
    and bodies :: "'m \<Rightarrow> string \<Rightarrow> json option"
    and good :: "'m \<Rightarrow> bool"
  assumes idle: "good m \<Longrightarrow> claim now m = (None, m') \<Longrightarrow>
      m' = m \<and> (\<forall>pid it. item m pid = Some it \<longrightarrow> \<not> claimable now it)"
    and claimed: "good m \<Longrightarrow> claim now m = (Some row, m') \<Longrightarrow>
      good m' \<and> bodies m' = bodies m \<and> (\<exists>it. item m (or_protocol_id row) = Some it \<and> claimable now it \<and> row = row_of_item (leased now it) \<and>
        item m' = (item m)(or_protocol_id row \<mapsto> leased now it))"
    and delivered: "good m \<Longrightarrow> item m pid = Some it \<Longrightarrow> ob_status it = ''DELIVERING'' \<Longrightarrow>
      \<exists>m'. mark_delivered (ob_id it) m = (Inr (), m') \<and> good m' \<and> bodies m' = bodies m \<and>
        item m' = (item m)(pid \<mapsto> delivered_item it)"
    and failed: "good m \<Longrightarrow> item m pid = Some it \<Longrightarrow> ob_status it = ''DELIVERING'' \<Longrightarrow> or_id row = ob_id it \<Longrightarrow>
      pause_after row terminal = Inr delay \<Longrightarrow>
      \<exists>m'. mark_failed row now err terminal m = (Inr (failed_status delay), m') \<and> good m' \<and>
        item m' = (item m)(pid \<mapsto> failed_item now err delay it)"
    and body_reads: "body_of pid m = (r, m') \<Longrightarrow> m' = m \<and> (\<forall>doc. bodies m pid = Some doc \<longrightarrow> r = Inr (canon doc))"
    and finite_items: "good m \<Longrightarrow> finite (dom (item m))"
    and bounds: "good m \<Longrightarrow> item m pid = Some it \<Longrightarrow>
      0 \<le> ob_attempts it \<and> ob_attempts it \<le> MAX_ATTEMPTS \<and> ob_event_id it = ''rin-'' @ pid"
begin

abbreviation cycle :: "(json \<Rightarrow> string) \<Rightarrow> 'w publisher \<Rightarrow> 'w receiver \<Rightarrow> timestamp \<Rightarrow> ('m \<times> 'w, string option) prog" where
  "cycle \<equiv> relay_with claim body_of mark_delivered mark_failed"

end

text \<open>How one cycle leaves the row it claimed.\<close>

definition settled :: "timestamp \<Rightarrow> outbox_item \<Rightarrow> outbox_item \<Rightarrow> string option result \<Rightarrow> bool" where
  "settled now it it' r =
     (case r of
        Inl e \<Rightarrow> it' = leased now it
      | Inr None \<Rightarrow> False
      | Inr (Some st) \<Rightarrow>
          (st = ''DELIVERED'' \<and> it' = delivered_item (leased now it)) \<or>
          (\<exists>err delay. st = failed_status delay \<and> it' = failed_item now err delay (leased now it) \<and>
             (delay = None \<or> retry_delay (ob_attempts it + 1) = Inr delay)))"

context relay_outbox
begin

lemma fail_row:
  assumes "good m" and "item m pid = Some (leased now it)" and "0 \<le> ob_attempts it"
    and "row = row_of_item (leased now it)"
  shows "\<exists>m' delay. on_store (mark_failed row now err terminal) (m, w) = (Inr (failed_status delay), (m', w)) \<and> good m' \<and>
    item m' = (item m)(pid \<mapsto> failed_item now err delay (leased now it)) \<and>
    (delay = None \<or> retry_delay (ob_attempts it + 1) = Inr delay)"
proof -
  have att: "or_attempts row = ob_attempts it + 1" by (simp add: assms(4) row_of_item_def leased_def)
  obtain delay where d: "pause_after row terminal = Inr delay"
    "delay = None \<or> retry_delay (ob_attempts it + 1) = Inr delay"
  proof (cases terminal)
    case True
    then show ?thesis using that [of None] by (simp add: pause_after_def)
  next
    case False
    obtain delay where "retry_delay (ob_attempts it + 1) = Inr delay"
      using assms(3) by (cases "MAX_ATTEMPTS \<le> ob_attempts it + 1") (simp_all add: retry_delay_def)
    then show ?thesis using that [of delay] False by (simp add: pause_after_def att)
  qed
  from failed [OF assms(1,2) _ _ d(1), of now err] obtain m' where
      "mark_failed row now err terminal m = (Inr (failed_status delay), m')" "good m'"
      "item m' = (item m)(pid \<mapsto> failed_item now err delay (leased now it))"
    by (auto simp: leased_def assms(4) row_of_item_def)
  then show ?thesis using d(2) by (intro exI [of _ m'] exI [of _ delay]) (simp add: on_store_def)
qed

lemma deliver_row:
  assumes "good m" and "item m pid = Some (leased now it)" and "row = row_of_item (leased now it)"
  shows "\<exists>m'. on_store (mark_delivered (or_id row)) (m, w) = (Inr (), (m', w)) \<and> good m' \<and> bodies m' = bodies m \<and>
    item m' = (item m)(pid \<mapsto> delivered_item (leased now it))"
  using delivered [OF assms(1,2)] by (auto simp: on_store_def leased_def assms(3) row_of_item_def)

lemma publish_settles:
  assumes good: "good m" and it: "item m pid = Some (leased now it)" "0 \<le> ob_attempts it"
    and row: "row = row_of_item (leased now it)"
    and run: "publish_row sha publish deliver mark_delivered mark_failed now row body (m, w) = (r, (m', w'))"
  shows "good m' \<and> (\<exists>it'. item m' = (item m)(pid \<mapsto> it') \<and>
    settled now it it' (case r of Inl e \<Rightarrow> Inl e | Inr st \<Rightarrow> Inr (Some st)))"
proof -
  have fail: "good m' \<and> (\<exists>it'. item m' = (item m)(pid \<mapsto> it') \<and>
      settled now it it' (case r of Inl e \<Rightarrow> Inl e | Inr st \<Rightarrow> Inr (Some st)))"
    if run: "on_store (mark_failed row now err terminal) (m, v) = (r, (m', w'))" for err terminal v
  proof -
    from fail_row [OF good it row, of err terminal v] run obtain delay where d: "r = Inr (failed_status delay)" "good m'"
        "item m' = (item m)(pid \<mapsto> failed_item now err delay (leased now it))"
        "delay = None \<or> retry_delay (ob_attempts it + 1) = Inr delay" by auto
    then have "settled now it (failed_item now err delay (leased now it)) (Inr (Some (failed_status delay)))"
      unfolding settled_def by auto
    with d show ?thesis by auto
  qed
  have keep: "good m' \<and> (\<exists>it'. item m' = (item m)(pid \<mapsto> it') \<and>
      settled now it it' (case r of Inl e \<Rightarrow> Inl e | Inr st \<Rightarrow> Inr (Some st)))"
    if "r = Inl e" "m' = m" for e
    using that good it(1) by (auto simp: settled_def fun_upd_idem)
  have settle: "good m' \<and> (\<exists>it'. item m' = (item m)(pid \<mapsto> it') \<and>
      settled now it it' (case r of Inl e \<Rightarrow> Inl e | Inr st \<Rightarrow> Inr (Some st)))"
    if run: "bindp (on_store (mark_delivered (or_id row))) (\<lambda>_. liftp (Inr ''DELIVERED'')) (m, v) = (r, (m', w'))" for v
  proof -
    from deliver_row [OF good it(1) row, of v] run have d: "r = Inr ''DELIVERED''" "good m'"
        "item m' = (item m)(pid \<mapsto> delivered_item (leased now it))" by (auto simp: bindp_apply)
    moreover have "settled now it (delivered_item (leased now it)) (Inr (Some ''DELIVERED''))"
      by (simp add: settled_def)
    ultimately show ?thesis by auto
  qed
  show ?thesis
  proof (cases "sha (canon body) \<noteq> or_payload_sha256 row")
    case True
    then show ?thesis using run fail by (simp add: publish_row_def)
  next
    case False
    obtain q w1 where pub: "publish (or_event_id row) body (row_headers row) w = (q, w1)"
      by (cases "publish (or_event_id row) body (row_headers row) w")
    show ?thesis
    proof (cases q)
      case (Inl e)
      with run False pub show ?thesis using fail keep
        by (auto simp: publish_row_def on_world_def split: if_splits)
    next
      case (Inr u)
      obtain q2 w2 where del: "deliver body (or_event_id row) w1 = (q2, w2)"
        by (cases "deliver body (or_event_id row) w1")
      show ?thesis
      proof (cases q2)
        case (Inl e)
        with Inr run False pub del show ?thesis using keep
          by (auto simp: publish_row_def on_world_apply bindp_on_world)
      next
        case rin: (Inr rin)
        with Inr run False pub del
        have "(if rin_status rin = SEND_REFUSED then on_store (mark_failed row now (rin_detail rin) True)
              else if rin_status rin = SEND_FAILED
                then on_store (mark_failed row now (rin_detail rin) (\<not> rin_retryable rin))
              else bindp (on_store (mark_delivered (or_id row))) (\<lambda>_. liftp (Inr ''DELIVERED''))) (m, w2) = (r, (m', w'))"
          by (simp add: publish_row_def on_world_apply bindp_on_world)
        then show ?thesis using fail settle by (auto split: if_splits)
      qed
    qed
  qed
qed

lemma cycle_steps:
  assumes good: "good m" and claim: "claim now m = (Some row, m1)"
    and run: "cycle sha publish deliver now (m, w) = (r, (m', w'))"
  shows "\<exists>it it'. item m (or_protocol_id row) = Some it \<and> claimable now it \<and> row = row_of_item (leased now it) \<and>
    good m' \<and> item m' = (item m)(or_protocol_id row \<mapsto> it') \<and> settled now it it' r \<and>
    (w' = w \<or> (\<exists>doc r1. body_of (or_protocol_id row) m1 = (Inr doc, m1) \<and>
       publish_row sha publish deliver mark_delivered mark_failed now row doc (m1, w) = (r1, (m', w'))))"
proof -
  let ?pid = "or_protocol_id row"
  from claimed [OF good claim] obtain it where it: "good m1" "item m ?pid = Some it" "claimable now it"
      "row = row_of_item (leased now it)" "item m1 = (item m)(?pid \<mapsto> leased now it)" by blast
  have att: "0 \<le> ob_attempts it" using bounds [OF good it(2)] by blast
  obtain b m2 where body: "body_of ?pid m1 = (b, m2)" by (cases "body_of ?pid m1")
  then have m2: "m2 = m1" using body_reads by blast
  show ?thesis
  proof (cases b)
    case (Inl e)
    with run claim body m2 have "r = Inl e" "m' = m1" "w' = w"
      by (auto simp: relay_with_def bindp_apply on_store_def)
    then have "good m' \<and> item m' = (item m)(?pid \<mapsto> leased now it) \<and> settled now it (leased now it) r \<and> w' = w"
      using it by (simp add: settled_def)
    then show ?thesis using it(2-4) by blast
  next
    case (Inr doc)
    obtain r1 s1 where pub: "publish_row sha publish deliver mark_delivered mark_failed now row doc (m1, w) = (r1, s1)"
      by (cases "publish_row sha publish deliver mark_delivered mark_failed now row doc (m1, w)")
    have res: "s1 = (m', w')" "r = (case r1 of Inl e \<Rightarrow> Inl e | Inr st \<Rightarrow> Inr (Some st))"
      using run claim body m2 Inr pub
      by (auto simp: relay_with_def bindp_apply on_store_def split: sum.splits)
    have "item m1 ?pid = Some (leased now it)" using it(5) by simp
    from publish_settles [OF it(1) this att it(4) pub [unfolded res(1)]] obtain it' where
        "good m'" "item m' = (item m1)(?pid \<mapsto> it')" "settled now it it' r" unfolding res(2) by blast
    moreover from this have "item m' = (item m)(?pid \<mapsto> it')" by (simp add: it(5))
    ultimately show ?thesis using it(2-4) body [unfolded Inr m2] pub [unfolded res(1)] by blast
  qed
qed

lemma cycle_idle:
  assumes "good m" and "claim now m = (None, m1)" and "cycle sha publish deliver now (m, w) = (r, (m', w'))"
  shows "r = Inr None \<and> m' = m \<and> w' = w \<and> (\<forall>pid it. item m pid = Some it \<longrightarrow> \<not> claimable now it)"
  using idle [OF assms(1,2)] assms(2,3) by (simp add: relay_with_def)

lemma cycle_settles:
  assumes good: "good m" and run: "cycle sha publish deliver now (m, w) = (r, (m', w'))"
  shows "(r = Inr None \<and> m' = m \<and> w' = w \<and> (\<forall>pid it. item m pid = Some it \<longrightarrow> \<not> claimable now it)) \<or>
    (good m' \<and> (\<exists>pid it it'. item m pid = Some it \<and> claimable now it \<and> item m' = (item m)(pid \<mapsto> it') \<and>
       settled now it it' r))"
proof (cases "claim now m")
  case (Pair c m1)
  show ?thesis
  proof (cases c)
    case None
    with cycle_idle [OF good _ run] Pair show ?thesis by blast
  next
    case (Some row)
    from cycle_steps [OF good Pair [unfolded Some] run] show ?thesis by blast
  qed
qed

lemma cycle_good: "good m \<Longrightarrow> good (fst (snd (cycle sha publish deliver now (m, w))))"
  using cycle_settles [of m sha publish deliver now w]
  by (cases "cycle sha publish deliver now (m, w)"; cases "snd (cycle sha publish deliver now (m, w))") auto

end


subsection \<open>Runs of cycles\<close>

fun relay_run :: "(timestamp \<Rightarrow> ('s, 'a) prog) \<Rightarrow> timestamp list \<Rightarrow> 's \<Rightarrow> 's" where
  "relay_run cycle [] s = s"
| "relay_run cycle (now # ts) s = relay_run cycle ts (snd (cycle now s))"

text \<open>A receiver does not touch what the broker recorded.\<close>

definition silent :: "recording_publisher receiver \<Rightarrow> bool" where
  "silent deliver = (\<forall>body event w. rp_events (snd (deliver body event w)) = rp_events w)"

definition sent_count :: "string \<Rightarrow> recording_publisher \<Rightarrow> nat" where
  "sent_count event w = length (filter (\<lambda>(e, _). e = event) (rp_events w))"

lemma settled_attempts: "settled now it it' r \<Longrightarrow> ob_attempts it' = ob_attempts it + 1"
  by (auto simp: settled_def leased_def delivered_item_def failed_item_def split: sum.splits option.splits)

text \<open>A broker that confirms and a receiver that accepts, or is not configured.\<close>

definition accepting :: "'w publisher \<Rightarrow> 'w receiver \<Rightarrow> bool" where
  "accepting publish deliver =
     ((\<forall>event body headers w. fst (publish event body headers w) = Inr ()) \<and>
      (\<forall>body event w. \<exists>rin. fst (deliver body event w) = Inr rin \<and>
         (rin_status rin = SENT \<or> rin_status rin = LOCAL_ONLY)))"

context relay_outbox
begin

lemma on_store_world: "snd (snd (on_store p (m, w))) = w"
  by (simp add: on_store_def Let_def split: prod.splits)

lemma publish_row_events:
  assumes "silent deliver"
    and run: "publish_row sha recording_publish deliver mark_delivered mark_failed now row body (m, w) = (r, (m', w'))"
  shows "rp_events w' = rp_events w \<or> (rp_events w' = rp_events w @ [(or_event_id row, body)] \<and>
    sha (canon body) = or_payload_sha256 row)"
proof (cases "sha (canon body) \<noteq> or_payload_sha256 row")
  case True
  with run have "on_store (mark_failed row now ''payload_sha256 mismatch'' True) (m, w) = (r, (m', w'))"
    by (simp add: publish_row_def)
  then show ?thesis using on_store_world [of _ m w] by (metis snd_conv)
next
  case False
  show ?thesis
  proof (cases "rp_fail_remaining w > 0")
    case True
    let ?w = "w\<lparr>rp_fail_remaining := rp_fail_remaining w - 1\<rparr>"
    from run False True have "on_store (mark_failed row now ''publisher nack'' False) (m, ?w) = (r, (m', w'))"
      by (simp add: publish_row_def on_world_apply recording_publish_def)
    then have "w' = ?w" using on_store_world [of _ m ?w] by (metis snd_conv)
    then show ?thesis by simp
  next
    case pub: False
    let ?w = "w\<lparr>rp_events := rp_events w @ [(or_event_id row, body)]\<rparr>"
    obtain q2 w2 where del: "deliver body (or_event_id row) ?w = (q2, w2)"
      by (cases "deliver body (or_event_id row) ?w")
    have ev: "rp_events w2 = rp_events w @ [(or_event_id row, body)]"
      using assms(1) [unfolded silent_def, rule_format, of body "or_event_id row" ?w] del by simp
    have "w' = w2"
    proof (cases q2)
      case (Inl e)
      with run False pub del show ?thesis
        by (auto simp: publish_row_def on_world_apply recording_publish_def bindp_on_world)
    next
      case (Inr rin)
      with run False pub del
      have "(if rin_status rin = SEND_REFUSED then on_store (mark_failed row now (rin_detail rin) True)
              else if rin_status rin = SEND_FAILED
                then on_store (mark_failed row now (rin_detail rin) (\<not> rin_retryable rin))
              else bindp (on_store (mark_delivered (or_id row))) (\<lambda>_. liftp (Inr ''DELIVERED''))) (m, w2) = (r, (m', w'))"
        by (simp add: publish_row_def on_world_apply recording_publish_def bindp_on_world)
      moreover have "w' = w2" if "on_store p (m, w2) = (r, (m', w'))" for p :: "('m, string) prog"
        using on_store_world [of p m w2] that by simp
      moreover have "w' = w2" if "bindp (on_store p) (\<lambda>_. liftp (Inr ''DELIVERED'')) (m, w2) = (r, (m', w'))"
        for p :: "('m, unit) prog"
        using on_store_world [of p m w2] that by (auto simp: bindp_apply split: prod.splits sum.splits)
      ultimately show ?thesis by (auto split: if_splits)
    qed
    with ev False show ?thesis by simp
  qed
qed

text \<open>An event is published no more often than its row was claimed.\<close>

definition within_claims :: "'m \<Rightarrow> recording_publisher \<Rightarrow> bool" where
  "within_claims m w = (\<forall>pid it. item m pid = Some it \<longrightarrow> int (sent_count (ob_event_id it) w) \<le> ob_attempts it)"

lemma cycle_within_claims:
  assumes good: "good m" and "silent deliver" and within: "within_claims m w"
    and run: "cycle sha recording_publish deliver now (m, w) = (r, (m', w'))"
  shows "good m' \<and> within_claims m' w'"
proof (cases "claim now m")
  case (Pair c m1)
  show ?thesis
  proof (cases c)
    case None
    with run Pair idle [OF good] good within show ?thesis by (auto simp: relay_with_def)
  next
    case (Some row)
    let ?pid = "or_protocol_id row"
    from cycle_steps [OF good Pair [unfolded Some] run] obtain it it' where s: "item m ?pid = Some it"
        "row = row_of_item (leased now it)" "good m'" "item m' = (item m)(?pid \<mapsto> it')" "settled now it it' r"
        "w' = w \<or> (\<exists>doc r1. publish_row sha recording_publish deliver mark_delivered mark_failed now row doc (m1, w) =
           (r1, (m', w')))" by blast
    have event: "or_event_id row = ob_event_id it" by (simp add: s(2) row_of_item_def leased_def)
    have one: "sent_count e w' \<le> sent_count e w + (if e = ob_event_id it then 1 else 0)" for e
      using s(6) publish_row_events [OF assms(2)] event by (fastforce simp: sent_count_def)
    have att: "ob_attempts it' = ob_attempts it + 1" by (rule settled_attempts [OF s(5)])
    have ids: "ob_event_id jt = ''rin-'' @ pid" if "item m' pid = Some jt" for pid jt
      using bounds [OF s(3) that] by blast
    have "int (sent_count (ob_event_id jt) w') \<le> ob_attempts jt" if jt: "item m' pid = Some jt" for pid jt
    proof (cases "pid = ?pid")
      case True
      with jt s(4) have "jt = it'" by simp
      then have "ob_event_id jt = ob_event_id it" using ids [OF jt] True bounds [OF good s(1)] by simp
      then show ?thesis using one [of "ob_event_id it"] within s(1) att \<open>jt = it'\<close>
        by (fastforce simp: within_claims_def)
    next
      case False
      then have "item m pid = Some jt" using jt s(4) by simp
      moreover have "ob_event_id jt \<noteq> ob_event_id it"
        using False ids [OF jt] bounds [OF good s(1)] by simp
      ultimately show ?thesis using one [of "ob_event_id jt"] within by (fastforce simp: within_claims_def)
    qed
    then show ?thesis using s(3) by (simp add: within_claims_def)
  qed
qed

lemma run_within_claims:
  assumes "good m" and "silent deliver" and "within_claims m w"
    and "relay_run (cycle sha recording_publish deliver) ts (m, w) = (m', w')"
  shows "good m' \<and> within_claims m' w'"
  using assms
proof (induction ts arbitrary: m w)
  case (Cons now ts)
  obtain r m1 w1 where c: "cycle sha recording_publish deliver now (m, w) = (r, (m1, w1))"
    by (metis prod.collapse)
  from cycle_within_claims [OF Cons.prems(1-3) c] Cons.IH [of m1 w1] Cons.prems(2,4) c show ?case by simp
qed simp

lemma run_bounded:
  assumes "good m" and "silent deliver" and "within_claims m w"
    and "relay_run (cycle sha recording_publish deliver) ts (m, w) = (m', w')" and "item m' pid = Some it"
  shows "0 \<le> ob_attempts it \<and> ob_attempts it \<le> 4 \<and> sent_count (''rin-'' @ pid) w' \<le> 4"
proof -
  from run_within_claims [OF assms(1-4)] have s: "good m'" "within_claims m' w'" by simp_all
  from bounds [OF s(1) assms(5)] s(2) assms(5) show ?thesis
    by (fastforce simp: within_claims_def MAX_ATTEMPTS_def)
qed


text \<open>Every row has its body, and the digest of the row is the digest of that body.\<close>

definition sound :: "(json \<Rightarrow> string) \<Rightarrow> 'm \<Rightarrow> bool" where
  "sound sha m = (\<forall>pid it. item m pid = Some it \<longrightarrow>
     (\<exists>doc. bodies m pid = Some doc \<and> sha (canon doc) = strip (ob_payload_sha256 it)))"

definition waiting :: "timestamp \<Rightarrow> 'm \<Rightarrow> string set" where
  "waiting now m = {pid. \<exists>it. item m pid = Some it \<and> claimable now it}"

lemma finite_waiting: "good m \<Longrightarrow> finite (waiting now m)"
  by (rule finite_subset [OF _ finite_items]) (auto simp: waiting_def)

lemma cycle_delivers:
  assumes good: "good m" and snd: "sound sha m" and some: "waiting now m \<noteq> {}" and calm: "accepting publish deliver"
  shows "\<exists>m' w' pid it. cycle sha publish deliver now (m, w) = (Inr (Some ''DELIVERED''), (m', w')) \<and>
    good m' \<and> sound sha m' \<and> item m pid = Some it \<and> claimable now it \<and>
    item m' = (item m)(pid \<mapsto> delivered_item (leased now it))"
proof (cases "claim now m")
  case (Pair c m1)
  show ?thesis
  proof (cases c)
    case None
    with idle [OF good Pair [unfolded None]] some show ?thesis by (auto simp: waiting_def)
  next
    case (Some row)
    let ?pid = "or_protocol_id row"
    from claimed [OF good Pair [unfolded Some]] obtain it where it: "good m1" "bodies m1 = bodies m"
        "item m ?pid = Some it" "claimable now it" "row = row_of_item (leased now it)"
        "item m1 = (item m)(?pid \<mapsto> leased now it)" by blast
    from snd it(3) obtain doc where doc: "bodies m ?pid = Some doc" "sha (canon doc) = strip (ob_payload_sha256 it)"
      unfolding sound_def by blast
    obtain b m2 where b: "body_of ?pid m1 = (b, m2)" by (cases "body_of ?pid m1")
    from body_reads [OF b] doc(1) it(2) have body: "body_of ?pid m1 = (Inr (canon doc), m1)" using b by simp
    from calm obtain w1 where pub: "publish (or_event_id row) (canon doc) (row_headers row) w = (Inr (), w1)"
      unfolding accepting_def by (metis prod.collapse)
    from calm obtain rin w2 where del: "deliver (canon doc) (or_event_id row) w1 = (Inr rin, w2)"
        "rin_status rin = SENT \<or> rin_status rin = LOCAL_ONLY"
      unfolding accepting_def by (metis prod.collapse)
    have it1: "item m1 ?pid = Some (leased now it)" using it(6) by simp
    from deliver_row [OF it(1) this it(5), of w2] obtain m3 where m3:
        "on_store (mark_delivered (or_id row)) (m1, w2) = (Inr (), (m3, w2))" "good m3" "bodies m3 = bodies m1"
        "item m3 = (item m1)(?pid \<mapsto> delivered_item (leased now it))" by blast
    have digest: "sha (canon (canon doc)) = or_payload_sha256 row" by (simp add: doc(2) it(5) row_of_item_def leased_def)
    have "publish_row sha publish deliver mark_delivered mark_failed now row (canon doc) (m1, w) =
        (Inr ''DELIVERED'', (m3, w2))"
      using del(2) by (auto simp: publish_row_def digest [unfolded canon_canon] on_world_apply pub bindp_on_world del(1)
          bindp_apply [of "on_store _"] m3(1))
    then have run: "cycle sha publish deliver now (m, w) = (Inr (Some ''DELIVERED''), (m3, w2))"
      by (simp add: relay_with_def Pair Some bindp_apply on_store_def body)
    have items: "item m3 = (item m)(?pid \<mapsto> delivered_item (leased now it))" by (simp add: m3(4) it(6))
    have "sound sha m3"
      unfolding sound_def items m3(3) it(2)
      using snd doc by (auto simp: sound_def delivered_item_def leased_def)
    then show ?thesis using run m3(2) it(3,4) items by blast
  qed
qed

lemma run_drains:
  assumes "good m" and "sound sha m" and "accepting publish deliver" and "card (waiting now m) \<le> n"
    and "relay_run (cycle sha publish deliver) (replicate n now) (m, w) = (m', w')"
  shows "item m' pid = (if pid \<in> waiting now m then map_option (delivered_item \<circ> leased now) (item m pid) else item m pid)"
  using assms
proof (induction n arbitrary: m w)
  case 0
  then have "waiting now m = {}" using finite_waiting by simp
  with "0.prems" show ?case by simp
next
  case (Suc n)
  show ?case
  proof (cases "waiting now m = {}")
    case True
    obtain c m1 where c: "claim now m = (c, m1)" by (cases "claim now m")
    have "c = None"
    proof (cases c)
      case (Some row)
      from claimed [OF Suc.prems(1) c [unfolded Some]] True show ?thesis unfolding waiting_def by blast
    qed simp
    with c idle [OF Suc.prems(1)] have "cycle sha publish deliver now (m, w) = (Inr None, (m, w))"
      by (simp add: relay_with_def)
    then have "relay_run (cycle sha publish deliver) (replicate n now) (m, w) = (m', w')"
      using Suc.prems(5) by simp
    from Suc.IH [OF Suc.prems(1-3) _ this] True show ?thesis by simp
  next
    case False
    from cycle_delivers [OF Suc.prems(1,2) False Suc.prems(3), of w] obtain m1 w1 p it where c:
        "cycle sha publish deliver now (m, w) = (Inr (Some ''DELIVERED''), (m1, w1))" "good m1" "sound sha m1"
        "item m p = Some it" "claimable now it" "item m1 = (item m)(p \<mapsto> delivered_item (leased now it))" by blast
    have less: "waiting now m1 = waiting now m - {p}"
      by (auto simp: waiting_def c(6) claimable_def delivered_item_def)
    have "p \<in> waiting now m" using c(4,5) by (auto simp: waiting_def)
    then have "card (waiting now m1) \<le> n" using Suc.prems(4) less by (simp add: finite_waiting [OF Suc.prems(1)])
    moreover have "relay_run (cycle sha publish deliver) (replicate n now) (m1, w1) = (m', w')"
      using Suc.prems(5) c(1) by simp
    ultimately have "item m' pid = (if pid \<in> waiting now m1 then map_option (delivered_item \<circ> leased now) (item m1 pid)
        else item m1 pid)" using Suc.IH [OF c(2,3) Suc.prems(3)] by blast
    then show ?thesis using c(4,6) \<open>p \<in> waiting now m\<close> by (auto simp: less comp_def)
  qed
qed

end


subsection \<open>Both tables are such an outbox\<close>

definition outbox_good :: "(string, outbox_item) dict \<Rightarrow> bool" where
  "outbox_good d = (wf_dict d \<and> (\<forall>pid it. dict_get d pid = Some it \<longrightarrow>
     ob_id it = ''outbox-'' @ pid \<and> ob_protocol_id it = pid \<and> ob_event_id it = ''rin-'' @ pid \<and>
     0 \<le> ob_attempts it \<and> ob_attempts it \<le> MAX_ATTEMPTS))"

lemma outbox_goodD:
  assumes "outbox_good d" and "dict_get d pid = Some it"
  shows "ob_id it = ''outbox-'' @ pid" "ob_protocol_id it = pid" "ob_event_id it = ''rin-'' @ pid"
    "0 \<le> ob_attempts it" "ob_attempts it \<le> MAX_ATTEMPTS"
  using assms unfolding outbox_good_def by blast+

lemma outbox_good_set:
  assumes "outbox_good d" and "dict_get d pid = Some it"
    and "ob_id it' = ob_id it" "ob_protocol_id it' = ob_protocol_id it" "ob_event_id it' = ob_event_id it"
    and "0 \<le> ob_attempts it'" "ob_attempts it' \<le> MAX_ATTEMPTS"
  shows "outbox_good (dict_set pid it' d)"
  using assms unfolding outbox_good_def by (auto simp: dict_get_set split: if_splits)

text \<open>A change meant for one row changes that row.\<close>

lemma change_first_one:
  assumes "dict_get d k = Some v" and "P v" and "\<And>k' v'. (k', v') \<in> set d \<Longrightarrow> P v' \<Longrightarrow> k' = k"
  shows "change_first P f d = Some (dict_set k (f v) d)"
  using assms
proof (induction d)
  case (Cons kv d)
  obtain k1 v1 where kv: "kv = (k1, v1)" by (cases kv)
  show ?case
  proof (cases "k1 = k")
    case True
    with Cons.prems(1,2) kv show ?thesis by simp
  next
    case False
    with Cons.prems kv have "\<not> P v1" by auto
    with False Cons kv show ?thesis by auto
  qed
qed simp

lemma update_where_one:
  assumes "wf_dict d" and "dict_get d k = Some v" and "P v" and "\<And>k' v'. (k', v') \<in> set d \<Longrightarrow> P v' \<Longrightarrow> k' = k"
  shows "update_where P f d = dict_set k (f v) d"
  using assms
proof (induction d)
  case (Cons kv d)
  obtain k1 v1 where kv: "kv = (k1, v1)" by (cases kv)
  show ?case
  proof (cases "k1 = k")
    case True
    have "\<not> P v'" if "(k', v') \<in> set d" for k' v'
    proof
      assume "P v'"
      with Cons.prems(4) [of k' v'] that kv have "k' = k" by simp
      moreover have "k1 \<notin> fst ` set d" using Cons.prems(1) kv by (simp add: wf_dict_def)
      ultimately show False using that True by force
    qed
    then have "map (\<lambda>(k, v). (k, if P v then f v else v)) d = d" by (intro map_idI) auto
    moreover have "v1 = v" using Cons.prems(2) True kv by simp
    ultimately show ?thesis using True Cons.prems(3) kv by (simp add: update_where_def)
  next
    case False
    with Cons.prems(4) [of k1 v1] kv have "\<not> P v1" by auto
    moreover have "update_where P f d = dict_set k (f v) d"
    proof (rule Cons.IH)
      show "wf_dict d" using Cons.prems(1) by (simp add: wf_dict_def)
      show "dict_get d k = Some v" using Cons.prems(2) False kv by simp
      show "k' = k" if "(k', v') \<in> set d" "P v'" for k' v'
        using Cons.prems(4) [of k' v'] that by simp
    qed (rule Cons.prems(3))
    ultimately show ?thesis using False kv by (simp add: update_where_def)
  qed
qed simp

lemma in_delivery_one:
  assumes "outbox_good d" and "(k', it') \<in> set d" and "in_delivery (''outbox-'' @ pid) it'"
  shows "k' = pid"
proof -
  have "dict_get d k' = Some it'" using assms(1,2) by (simp add: outbox_good_def wf_dict_lookup)
  from outbox_goodD [OF assms(1) this] assms(3) show ?thesis by (simp add: in_delivery_def)
qed

lemma first_claimable:
  assumes "sort_key f (filter (\<lambda>(pid, item). claimable now item) d) = (pid, it) # rest" and "outbox_good d"
  shows "dict_get d pid = Some it \<and> claimable now it"
proof -
  have "(pid, it) \<in> set (sort_key f (filter (\<lambda>(pid, item). claimable now item) d))"
    by (simp only: assms(1) list.set_intros)
  then show ?thesis using assms(2) by (auto simp: outbox_good_def wf_dict_lookup)
qed

lemma none_claimable:
  assumes "sort_key f (filter (\<lambda>(pid, item). claimable now item) d) = []" and "dict_get d pid = Some it"
  shows "\<not> claimable now it"
proof -
  have "set (sort_key f (filter (\<lambda>(pid, item). claimable now item) d)) = {}" by (simp only: assms(1) list.set)
  then have "\<forall>(pid, item) \<in> set d. \<not> claimable now item" by (auto simp: filter_empty_conv)
  then show ?thesis using map_of_SomeD [OF assms(2)] by auto
qed

lemma leased_good:
  assumes "outbox_good d" and "dict_get d pid = Some it" and "claimable now it"
  shows "outbox_good (dict_set pid (leased now it) d)"
  by (rule outbox_good_set [OF assms(1,2)])
    (use outbox_goodD [OF assms(1,2)] assms(3) in \<open>auto simp: leased_def claimable_def MAX_ATTEMPTS_def\<close>)

lemma delivered_good:
  assumes "outbox_good d" and "dict_get d pid = Some it"
  shows "outbox_good (dict_set pid (delivered_item it) d)"
  by (rule outbox_good_set [OF assms]) (use outbox_goodD [OF assms] in \<open>auto simp: delivered_item_def\<close>)

lemma failed_good:
  assumes "outbox_good d" and "dict_get d pid = Some it"
  shows "outbox_good (dict_set pid (failed_item now err delay it) d)"
  by (rule outbox_good_set [OF assms]) (use outbox_goodD [OF assms] in \<open>auto simp: failed_item_def split: option.splits\<close>)

definition memory_outbox_good :: "memory_store \<Rightarrow> bool" where
  "memory_outbox_good ms = outbox_good (ms_outbox ms)"

definition pg_outbox_good :: "pg_store \<Rightarrow> bool" where
  "pg_outbox_good pg = outbox_good (pg_outbox pg)"

interpretation memory_relay: relay_outbox
  "\<lambda>ms. dict_get (ms_outbox ms)" claim_memory memory_protocol_body mark_memory_delivered mark_memory_failed
  memory_load_protocol memory_outbox_good
proof unfold_locales
  fix m now m'
  assume "memory_outbox_good m" "claim_memory now m = (None, m')"
  then have e: "m' = m" "sort_key (\<lambda>(pid, item). (ob_available_at item, pid))
      (filter (\<lambda>(pid, item). claimable now item) (ms_outbox m)) = []"
    by (auto simp: claim_memory_def split: list.splits)
  show "m' = m \<and> (\<forall>pid it. dict_get (ms_outbox m) pid = Some it \<longrightarrow> \<not> claimable now it)"
    using e(1) none_claimable [OF e(2)] by blast
next
  fix m now row m'
  assume good: "memory_outbox_good m" and claim: "claim_memory now m = (Some row, m')"
  then obtain pid it rest where s: "sort_key (\<lambda>(pid, item). (ob_available_at item, pid))
      (filter (\<lambda>(pid, item). claimable now item) (ms_outbox m)) = (pid, it) # rest"
      "row = row_of_item (leased now it)" "m' = m\<lparr>ms_outbox := dict_set pid (leased now it) (ms_outbox m)\<rparr>"
    by (auto simp: claim_memory_def split: list.splits)
  from first_claimable [OF s(1)] good have it: "dict_get (ms_outbox m) pid = Some it" "claimable now it"
    by (auto simp: memory_outbox_good_def)
  have "or_protocol_id row = pid"
    using outbox_goodD(2) [OF good [unfolded memory_outbox_good_def] it(1)] by (simp add: s(2) row_of_item_def leased_def)
  then show "memory_outbox_good m' \<and> memory_load_protocol m' = memory_load_protocol m \<and>
      (\<exists>it. dict_get (ms_outbox m) (or_protocol_id row) = Some it \<and> claimable now it \<and>
        row = row_of_item (leased now it) \<and>
        dict_get (ms_outbox m') = (dict_get (ms_outbox m))(or_protocol_id row \<mapsto> leased now it))"
    using leased_good [OF good [unfolded memory_outbox_good_def] it] it s(2,3)
    by (auto simp: memory_outbox_good_def memory_load_protocol_def dict_get_set fun_eq_iff)
next
  fix m pid it
  assume a: "memory_outbox_good m" "dict_get (ms_outbox m) pid = Some it" "ob_status it = ''DELIVERING''"
  note good = a(1) [unfolded memory_outbox_good_def]
  have "change_first (in_delivery (ob_id it)) delivered_item (ms_outbox m) = Some (dict_set pid (delivered_item it) (ms_outbox m))"
    by (rule change_first_one) (use a good in_delivery_one outbox_goodD(1) [OF good a(2)] in \<open>auto simp: in_delivery_def\<close>)
  then show "\<exists>m'. mark_memory_delivered (ob_id it) m = (Inr (), m') \<and> memory_outbox_good m' \<and>
      memory_load_protocol m' = memory_load_protocol m \<and>
      dict_get (ms_outbox m') = (dict_get (ms_outbox m))(pid \<mapsto> delivered_item it)"
    using delivered_good [OF good a(2)]
    by (auto simp: mark_memory_delivered_def memory_outbox_good_def memory_load_protocol_def dict_get_set fun_eq_iff)
next
  fix m pid it and row :: outbox_row and terminal delay now err
  assume a: "memory_outbox_good m" "dict_get (ms_outbox m) pid = Some it" "ob_status it = ''DELIVERING''"
    "or_id row = ob_id it" "pause_after row terminal = Inr delay"
  note good = a(1) [unfolded memory_outbox_good_def]
  have "change_first (in_delivery (ob_id it)) (failed_item now err delay) (ms_outbox m) =
      Some (dict_set pid (failed_item now err delay it) (ms_outbox m))"
    by (rule change_first_one) (use a good in_delivery_one outbox_goodD(1) [OF good a(2)] in \<open>auto simp: in_delivery_def\<close>)
  then show "\<exists>m'. mark_memory_failed row now err terminal m = (Inr (failed_status delay), m') \<and> memory_outbox_good m' \<and>
      dict_get (ms_outbox m') = (dict_get (ms_outbox m))(pid \<mapsto> failed_item now err delay it)"
    using failed_good [OF good a(2)] a(4,5)
    by (auto simp: mark_memory_failed_def memory_outbox_good_def dict_get_set fun_eq_iff)
next
  fix pid m r m'
  assume "memory_protocol_body pid m = (r, m')"
  then show "m' = m \<and> (\<forall>doc. memory_load_protocol m pid = Some doc \<longrightarrow> r = Inr (canon doc))"
    by (auto simp: memory_protocol_body_def split: option.splits)
next
  fix m
  show "memory_outbox_good m \<Longrightarrow> finite (dom (dict_get (ms_outbox m)))" by (simp add: finite_dom_map_of)
next
  fix m pid it
  assume "memory_outbox_good m" "dict_get (ms_outbox m) pid = Some it"
  then show "0 \<le> ob_attempts it \<and> ob_attempts it \<le> MAX_ATTEMPTS \<and> ob_event_id it = ''rin-'' @ pid"
    using outbox_goodD by (simp add: memory_outbox_good_def)
qed


lemma lease_where:
  assumes "outbox_good d" and "dict_get d pid = Some it"
  shows "update_where (\<lambda>other. ob_id other = ob_id it) g d = dict_set pid (g it) d"
proof (rule update_where_one)
  show "wf_dict d" using assms(1) by (simp add: outbox_good_def)
  show "k' = pid" if "(k', other) \<in> set d" "ob_id other = ob_id it" for k' other
  proof -
    have "dict_get d k' = Some other" using assms(1) that(1) by (simp add: outbox_good_def wf_dict_lookup)
    from outbox_goodD(1) [OF assms(1) this] outbox_goodD(1) [OF assms] that(2) show ?thesis by simp
  qed
qed (use assms(2) in simp_all)

lemma delivery_where:
  assumes "outbox_good d" and "dict_get d pid = Some it" and "ob_status it = ''DELIVERING''"
  shows "update_where (in_delivery (ob_id it)) g d = dict_set pid (g it) d"
proof (rule update_where_one)
  show "wf_dict d" using assms(1) by (simp add: outbox_good_def)
  show "k' = pid" if "(k', other) \<in> set d" "in_delivery (ob_id it) other" for k' other
    using in_delivery_one [OF assms(1) that(1)] that(2) outbox_goodD(1) [OF assms(1,2)] by simp
  show "in_delivery (ob_id it) it" using assms(3) by (simp add: in_delivery_def)
qed (use assms(2) in simp_all)

interpretation postgres_relay: relay_outbox
  "\<lambda>pg. dict_get (pg_outbox pg)" claim_postgres postgres_protocol_body mark_postgres_delivered mark_postgres_failed
  pg_load_protocol pg_outbox_good
proof unfold_locales
  fix m now m'
  assume "pg_outbox_good m" "claim_postgres now m = (None, m')"
  then have e: "m' = m" "sort_key (\<lambda>(pid, item). ob_created item)
      (filter (\<lambda>(pid, item). claimable now item) (pg_outbox m)) = []"
    by (auto simp: claim_postgres_def split: list.splits)
  show "m' = m \<and> (\<forall>pid it. dict_get (pg_outbox m) pid = Some it \<longrightarrow> \<not> claimable now it)"
    using e(1) none_claimable [OF e(2)] by blast
next
  fix m now row m'
  assume good: "pg_outbox_good m" and claim: "claim_postgres now m = (Some row, m')"
  note g = good [unfolded pg_outbox_good_def]
  from claim obtain pid it rest where s: "sort_key (\<lambda>(pid, item). ob_created item)
      (filter (\<lambda>(pid, item). claimable now item) (pg_outbox m)) = (pid, it) # rest"
      "row = row_of_item (leased now it)"
      "m' = m\<lparr>pg_outbox := update_where (\<lambda>other. ob_id other = ob_id it) (leased now) (pg_outbox m)\<rparr>"
    by (auto simp: claim_postgres_def split: list.splits)
  from first_claimable [OF s(1) g] have it: "dict_get (pg_outbox m) pid = Some it" "claimable now it" by simp_all
  have "or_protocol_id row = pid"
    using outbox_goodD(2) [OF g it(1)] by (simp add: s(2) row_of_item_def leased_def)
  then show "pg_outbox_good m' \<and> pg_load_protocol m' = pg_load_protocol m \<and>
      (\<exists>it. dict_get (pg_outbox m) (or_protocol_id row) = Some it \<and> claimable now it \<and>
        row = row_of_item (leased now it) \<and>
        dict_get (pg_outbox m') = (dict_get (pg_outbox m))(or_protocol_id row \<mapsto> leased now it))"
    using leased_good [OF g it] it s(2) unfolding s(3) lease_where [OF g it(1)]
    by (auto simp: pg_outbox_good_def pg_load_protocol_def dict_get_set fun_eq_iff)
next
  fix m pid it
  assume a: "pg_outbox_good m" "dict_get (pg_outbox m) pid = Some it" "ob_status it = ''DELIVERING''"
  note g = a(1) [unfolded pg_outbox_good_def]
  show "\<exists>m'. mark_postgres_delivered (ob_id it) m = (Inr (), m') \<and> pg_outbox_good m' \<and>
      pg_load_protocol m' = pg_load_protocol m \<and>
      dict_get (pg_outbox m') = (dict_get (pg_outbox m))(pid \<mapsto> delivered_item it)"
    using delivered_good [OF g a(2)]
    by (auto simp: mark_postgres_delivered_def delivery_where [OF g a(2,3)] pg_outbox_good_def
        pg_load_protocol_def dict_get_set fun_eq_iff)
next
  fix m pid it and row :: outbox_row and terminal delay now err
  assume a: "pg_outbox_good m" "dict_get (pg_outbox m) pid = Some it" "ob_status it = ''DELIVERING''"
    "or_id row = ob_id it" "pause_after row terminal = Inr delay"
  note g = a(1) [unfolded pg_outbox_good_def]
  show "\<exists>m'. mark_postgres_failed row now err terminal m = (Inr (failed_status delay), m') \<and> pg_outbox_good m' \<and>
      dict_get (pg_outbox m') = (dict_get (pg_outbox m))(pid \<mapsto> failed_item now err delay it)"
    using failed_good [OF g a(2)]
    by (auto simp: mark_postgres_failed_def a(4,5) delivery_where [OF g a(2,3)] pg_outbox_good_def dict_get_set fun_eq_iff)
next
  fix pid m r m'
  assume "postgres_protocol_body pid m = (r, m')"
  then show "m' = m \<and> (\<forall>doc. pg_load_protocol m pid = Some doc \<longrightarrow> r = Inr (canon doc))"
    by (auto simp: postgres_protocol_body_def split: option.splits)
next
  fix m
  show "pg_outbox_good m \<Longrightarrow> finite (dom (dict_get (pg_outbox m)))" by (simp add: finite_dom_map_of)
next
  fix m pid it
  assume "pg_outbox_good m" "dict_get (pg_outbox m) pid = Some it"
  then show "0 \<le> ob_attempts it \<and> ob_attempts it \<le> MAX_ATTEMPTS \<and> ob_event_id it = ''rin-'' @ pid"
    using outbox_goodD by (simp add: pg_outbox_good_def)
qed


subsection \<open>The outbox a finalisation fills\<close>

text \<open>
  After any materialisations every protocol in the outbox is pending, never tried, available since
  the time of one of the calls, and carries the digest of the stored protocol.
\<close>

definition outbox_filled ::
    "(json \<Rightarrow> string) \<Rightarrow> (timestamp \<times> process_snapshot \<times> json) list \<Rightarrow> (string \<Rightarrow> json option) \<Rightarrow>
     (string, outbox_item) dict \<Rightarrow> bool" where
  "outbox_filled sha jobs archive d =
     (wf_dict d \<and> (\<forall>pid it. dict_get d pid = Some it \<longrightarrow>
        (\<exists>process_id p. archive pid = Some p \<and>
          (\<exists>now \<in> fst ` set jobs. it = new_outbox_item process_id pid (''rin-'' @ pid) (sha p) now))))"

lemma outbox_filled_add:
  assumes "outbox_filled sha jobs archive d" and "now \<in> fst ` set jobs"
    and "archive pid = None \<or> archive pid = Some p"
  shows "outbox_filled sha jobs (archive(pid \<mapsto> p))
    (dict_set pid (new_outbox_item process_id pid (''rin-'' @ pid) (sha p) now) d)"
  using assms unfolding outbox_filled_def by (fastforce simp: dict_get_set split: if_splits)

lemma outbox_filled_more:
  assumes "outbox_filled sha jobs archive d" and "archive pid = None \<or> archive pid = Some p"
  shows "outbox_filled sha jobs (archive(pid \<mapsto> p)) d"
  using assms unfolding outbox_filled_def by fastforce

lemma outbox_filled_good: "outbox_filled sha jobs archive d \<Longrightarrow> outbox_good d"
  unfolding outbox_filled_def outbox_good_def by (fastforce simp: new_outbox_item_def MAX_ATTEMPTS_def)

lemma memory_outbox_step:
  assumes "memory_good ms" and "outbox_filled sha jobs (memory_stored ms) (ms_outbox ms)"
    and "now \<in> fst ` set jobs"
  shows "outbox_filled sha jobs (memory_stored (snd (memory_materialize sha now snap payload ms)))
    (ms_outbox (snd (memory_materialize sha now snap payload ms)))"
proof (cases "memory_materialize sha now snap payload ms")
  case (Pair r ms')
  show ?thesis
  proof (cases r)
    case (Inl e)
    with Pair memory_materialize_refused have "ms' = ms" by blast
    with Pair assms(2) show ?thesis by simp
  next
    case (Inr u)
    from memory_materialize_Inr [OF Pair [unfolded Inr]] obtain pid q where q: "sn_protocol_id snap = Some pid"
        "protocol_for_rin payload = Inr q" "ms' = materialized sha now snap pid (canon q) payload ms" by blast
    from memory_accepts [OF assms(1) Pair [unfolded Inr]] q(1,2) have
        "memory_stored ms pid = None \<or> memory_stored ms pid = Some (canon q)"
        "memory_stored ms' = (memory_stored ms)(pid \<mapsto> canon q)" by auto
    with outbox_filled_add [OF assms(2,3)] Pair q(3) show ?thesis by (simp add: materialized_def)
  qed
qed

lemma pg_outbox_step:
  assumes "pg_good pg" and "outbox_filled sha jobs (pg_stored pg) (pg_outbox pg)" and "now \<in> fst ` set jobs"
  shows "outbox_filled sha jobs (pg_stored (snd (pg_materialize tx sha now snap payload pg)))
    (pg_outbox (snd (pg_materialize tx sha now snap payload pg)))"
proof (cases "pg_materialize tx sha now snap payload pg")
  case (Pair r pg')
  show ?thesis
  proof (cases r)
    case (Inl e)
    with Pair pg_materialize_refused have "pg' = pg" by blast
    with Pair assms(2) show ?thesis by simp
  next
    case (Inr u)
    from pg_materialize_Inr [OF Pair [unfolded Inr]] obtain pid q row where q: "sn_protocol_id snap = Some pid"
        "protocol_for_rin payload = Inr q" "protocol_row_params sha now snap (canon q) payload = Inr row"
        "pg_outbox pg' = pg_outbox (insert_outbox
           (new_outbox_item (sn_process_id snap) pid (''rin-'' @ pid) (prow_sha256 row) now) pg)" by blast
    have "prow_sha256 row = sha (canon q)"
      using q(3) by (auto simp: protocol_row_params_def split: option.splits)
    then have ob: "pg_outbox pg' = (if dict_get (pg_outbox pg) pid = None
        then dict_set pid (new_outbox_item (sn_process_id snap) pid (''rin-'' @ pid) (sha (canon q)) now) (pg_outbox pg)
        else pg_outbox pg)"
      by (simp add: q(4) insert_outbox_def new_outbox_item_def)
    from pg_accepts [OF assms(1) Pair [unfolded Inr]] q(1,2) have st:
        "pg_stored pg pid = None \<or> pg_stored pg pid = Some (canon q)"
        "pg_stored pg' = (pg_stored pg)(pid \<mapsto> canon q)" by auto
    show ?thesis using outbox_filled_add [OF assms(2,3) st(1)] outbox_filled_more [OF assms(2) st(1)] Pair st(2)
      by (simp add: ob)
  qed
qed

lemma outbox_filled_runs:
  assumes step: "\<And>now snap payload s. good s \<Longrightarrow> now \<in> fst ` set jobs \<Longrightarrow> outbox_filled sha jobs (stored s) (box s) \<Longrightarrow>
      outbox_filled sha jobs (stored (snd (m now snap payload s))) (box (snd (m now snap payload s)))"
    and keeps: "\<And>now snap payload s. good s \<Longrightarrow> good (snd (m now snap payload s))"
    and "good s" and "outbox_filled sha jobs (stored s) (box s)" and "set js \<subseteq> set jobs"
  shows "outbox_filled sha jobs (stored (materialize_all m js s)) (box (materialize_all m js s))"
  using assms(3-5)
proof (induction js arbitrary: s)
  case (Cons j js)
  obtain now snap payload where j: "j = (now, snap, payload)" by (cases j)
  then have "now \<in> fst ` set jobs" using Cons.prems(3) by force
  with Cons j show ?case by (simp add: step keeps)
qed simp

lemma memory_outbox_reached:
  "outbox_filled sha jobs (memory_stored (memory_reached sha jobs)) (ms_outbox (memory_reached sha jobs))"
  unfolding memory_reached_def
proof (rule outbox_filled_runs [where good = memory_good])
  show "outbox_filled sha jobs (memory_stored empty_store) (ms_outbox empty_store)"
    by (simp add: outbox_filled_def empty_store_def)
qed (simp_all add: memory_outbox_step memory_archive.step_good)

lemma pg_good_empty: "pg_good empty_database"
  using agreeing_empty by (simp add: archives_agree_def)

lemma pg_outbox_reached:
  "outbox_filled sha jobs (pg_stored (pg_reached sha jobs)) (pg_outbox (pg_reached sha jobs))"
  unfolding pg_reached_def
proof (rule outbox_filled_runs [where good = pg_good])
  show "outbox_filled sha jobs (pg_stored empty_database) (pg_outbox empty_database)"
    by (simp add: outbox_filled_def empty_database_def)
qed (simp_all add: pg_outbox_step postgres_archive.step_good pg_good_empty)


lemma memory_reached_sound:
  assumes "\<And>j. strip (sha j) = sha j"
  shows "memory_relay.sound sha (memory_reached sha jobs)"
  unfolding memory_relay.sound_def
proof (intro allI impI)
  fix pid it
  assume "dict_get (ms_outbox (memory_reached sha jobs)) pid = Some it"
  then obtain p where p: "memory_stored (memory_reached sha jobs) pid = Some p" "ob_payload_sha256 it = sha p"
    using memory_outbox_reached [of sha jobs] unfolding outbox_filled_def by (fastforce simp: new_outbox_item_def)
  have "canon p = p" by (rule memory_stored_canon [OF memory_reached_good p(1)])
  with p assms show "\<exists>doc. memory_load_protocol (memory_reached sha jobs) pid = Some doc \<and>
      sha (canon doc) = strip (ob_payload_sha256 it)"
    by (simp add: memory_load_protocol_def memory_stored_def)
qed

lemma pg_reached_good: "pg_good (pg_reached sha jobs)"
  unfolding pg_reached_def by (rule postgres_archive.run_good [OF pg_good_empty])

lemma pg_reached_sound:
  assumes "\<And>j. strip (sha j) = sha j"
  shows "postgres_relay.sound sha (pg_reached sha jobs)"
  unfolding postgres_relay.sound_def
proof (intro allI impI)
  fix pid it
  assume "dict_get (pg_outbox (pg_reached sha jobs)) pid = Some it"
  then obtain p where p: "pg_stored (pg_reached sha jobs) pid = Some p" "ob_payload_sha256 it = sha p"
    using pg_outbox_reached [of sha jobs] unfolding outbox_filled_def by (fastforce simp: new_outbox_item_def)
  have "canon p = p"
    using pg_reached_good [of sha jobs] p(1) archive_good_filed by (auto simp: pg_good_def filed_def)
  with p assms show "\<exists>doc. pg_load_protocol (pg_reached sha jobs) pid = Some doc \<and>
      sha (canon doc) = strip (ob_payload_sha256 it)"
    by (auto simp: pg_load_protocol_def pg_stored_def)
qed

lemma filled_attempts: "outbox_filled sha jobs archive d \<Longrightarrow> dict_get d pid = Some it \<Longrightarrow> ob_attempts it = 0"
  unfolding outbox_filled_def by (fastforce simp: new_outbox_item_def)

lemma filled_claimable:
  assumes "outbox_filled sha jobs archive d" and "dict_get d pid = Some it" and "\<forall>t \<in> fst ` set jobs. t \<le> now"
  shows "claimable now it"
  using assms unfolding outbox_filled_def by (fastforce simp: new_outbox_item_def claimable_def MAX_ATTEMPTS_def)

subsection \<open>Properties\<close>


definition local_only :: "'w receiver" where
  "local_only body event w =
     (Inr \<lparr>rin_status = LOCAL_ONLY, rin_detail = ''no receiver address'', rin_retryable = False\<rparr>, w)"


text \<open>
  C27. A working broker drains the outbox: after any finalisations, as many relay cycles as there
  were calls, at a time no earlier than any of them, leave every row of the outbox delivered after
  one attempt, in memory and in PostgreSQL, when the broker confirms and the receiver accepts or is
  not configured. In particular no digest ever fails its check.
\<close>

theorem relay_drains_the_outbox:
  assumes "accepting publish deliver" and "\<And>j. strip (sha j) = sha j" and "\<forall>t \<in> fst ` set jobs. t \<le> now"
    and "card (dom (dict_get (ms_outbox (memory_reached sha jobs)))) \<le> n"
    and "card (dom (dict_get (pg_outbox (pg_reached sha jobs)))) \<le> n"
  shows "dict_get (ms_outbox (fst (relay_run (relay_once_memory sha publish deliver) (replicate n now)
        (memory_reached sha jobs, w)))) pid =
      map_option (\<lambda>it. delivered_item (leased now it)) (dict_get (ms_outbox (memory_reached sha jobs)) pid) \<and>
    dict_get (pg_outbox (fst (relay_run (relay_once_postgres sha publish deliver) (replicate n now)
        (pg_reached sha jobs, w)))) pid =
      map_option (\<lambda>it. delivered_item (leased now it)) (dict_get (pg_outbox (pg_reached sha jobs)) pid)"
proof
  have good: "memory_outbox_good (memory_reached sha jobs)" "pg_outbox_good (pg_reached sha jobs)"
    using outbox_filled_good [OF memory_outbox_reached] outbox_filled_good [OF pg_outbox_reached]
    by (simp_all add: memory_outbox_good_def pg_outbox_good_def)
  have all: "memory_relay.waiting now (memory_reached sha jobs) = dom (dict_get (ms_outbox (memory_reached sha jobs)))"
      "postgres_relay.waiting now (pg_reached sha jobs) = dom (dict_get (pg_outbox (pg_reached sha jobs)))"
    using filled_claimable [OF memory_outbox_reached _ assms(3)] filled_claimable [OF pg_outbox_reached _ assms(3)]
    by (auto simp: memory_relay.waiting_def postgres_relay.waiting_def)
  show "dict_get (ms_outbox (fst (relay_run (relay_once_memory sha publish deliver) (replicate n now)
        (memory_reached sha jobs, w)))) pid =
      map_option (\<lambda>it. delivered_item (leased now it)) (dict_get (ms_outbox (memory_reached sha jobs)) pid)"
    unfolding relay_once_memory_def
    using memory_relay.run_drains [OF good(1) memory_reached_sound [OF assms(2)] assms(1)
      assms(4) [folded all(1)] surjective_pairing]
    by (cases "dict_get (ms_outbox (memory_reached sha jobs)) pid") (auto simp: all comp_def)
  show "dict_get (pg_outbox (fst (relay_run (relay_once_postgres sha publish deliver) (replicate n now)
        (pg_reached sha jobs, w)))) pid =
      map_option (\<lambda>it. delivered_item (leased now it)) (dict_get (pg_outbox (pg_reached sha jobs)) pid)"
    unfolding relay_once_postgres_def
    using postgres_relay.run_drains [OF good(2) pg_reached_sound [OF assms(2)] assms(1)
      assms(5) [folded all(2)] surjective_pairing]
    by (cases "dict_get (pg_outbox (pg_reached sha jobs)) pid") (auto simp: all comp_def)
qed


definition confirming :: "nat publisher" where
  "confirming event body headers w = (Inr (), Suc w)"

lemma confirming_accepts: "accepting confirming local_only"
  by (simp add: accepting_def confirming_def local_only_def)

lemma sample_outboxes:
  "dict_get (ms_outbox (memory_reached (\<lambda>_. ''d'') [(0, sample_snapshot, sample_payload)])) =
     [''protocol-p'' \<mapsto> new_outbox_item ''p'' ''protocol-p'' ''rin-protocol-p'' ''d'' 0]"
  using sample_materialized [of "\<lambda>_. ''d''" 0]
  by (auto simp: memory_reached_def materialized_def empty_store_def sample_snapshot_def fun_eq_iff)

theorem relay_drains_the_outbox_witness:
  "\<exists>n. dict_get (ms_outbox (fst (relay_run (relay_once_memory (\<lambda>_. ''d'') confirming local_only) (replicate n 5)
       (memory_reached (\<lambda>_. ''d'') [(0, sample_snapshot, sample_payload)], 0)))) ''protocol-p'' =
     Some (delivered_item (leased 5 (new_outbox_item ''p'' ''protocol-p'' ''rin-protocol-p'' ''d'' 0)))"
proof -
  let ?jobs = "[(0, sample_snapshot, sample_payload)]"
  let ?n = "card (dom (dict_get (ms_outbox (memory_reached (\<lambda>_. ''d'') ?jobs)))) +
    card (dom (dict_get (pg_outbox (pg_reached (\<lambda>_. ''d'') ?jobs))))"
  have "strip ''d'' = ''d''" by (simp add: strip_def is_space_def)
  from relay_drains_the_outbox [OF confirming_accepts this, of ?jobs 5 ?n 0 "''protocol-p''"]
  show ?thesis by (intro exI [of _ ?n]) (simp add: sample_outboxes)
qed

text \<open>
  A relay cycle over PostgreSQL that returns has settled exactly one claimable row and counted
  the attempt: delivered; or pending again, due after the pause of its attempt (1, 5 or 15 minutes);
  or terminal. Every other row, the delivered and terminal ones among them, is as it was. When
  nothing is claimable the cycle does nothing.
\<close>

theorem relay_cycle_settles_one_row:
  assumes "outbox_good (pg_outbox pg)" and "relay_once_postgres sha publish deliver now (pg, w) = (Inr r, (pg', w'))"
  shows "case r of
      None \<Rightarrow> pg' = pg \<and> w' = w \<and> (\<forall>pid it. dict_get (pg_outbox pg) pid = Some it \<longrightarrow> \<not> claimable now it)
    | Some st \<Rightarrow> \<exists>pid it it'. dict_get (pg_outbox pg) pid = Some it \<and> claimable now it \<and>
        dict_get (pg_outbox pg') = (dict_get (pg_outbox pg))(pid \<mapsto> it') \<and>
        ob_status it' = st \<and> ob_attempts it' = ob_attempts it + 1 \<and>
        (st = ''DELIVERED'' \<or> st = ''FAILED_TERMINAL'' \<or>
         (st = ''PENDING'' \<and> ob_attempts it' < 4 \<and>
          ob_available_at it' = now + RETRY_SECONDS ! nat (ob_attempts it)))"
proof -
  have good: "pg_outbox_good pg" using assms(1) by (simp add: pg_outbox_good_def)
  have shape: "ob_status it' = st \<and> ob_attempts it' = ob_attempts it + 1 \<and>
      (st = ''DELIVERED'' \<or> st = ''FAILED_TERMINAL'' \<or>
       (st = ''PENDING'' \<and> ob_attempts it' < 4 \<and> ob_available_at it' = now + RETRY_SECONDS ! nat (ob_attempts it)))"
    if s: "settled now it it' (Inr (Some st))" and "0 \<le> ob_attempts it" for it it' st
  proof -
    from s consider "st = ''DELIVERED''" "it' = delivered_item (leased now it)"
      | err delay where "st = failed_status delay" "it' = failed_item now err delay (leased now it)"
          "delay = None \<or> retry_delay (ob_attempts it + 1) = Inr delay"
      by (auto simp: settled_def)
    then show ?thesis
    proof cases
      case 1
      then show ?thesis by (simp add: delivered_item_def leased_def)
    next
      case 2
      with that(2) show ?thesis
        by (cases delay) (auto simp: failed_item_def failed_status_def leased_def retry_delay_def MAX_ATTEMPTS_def split: if_splits)
    qed
  qed
  from postgres_relay.cycle_settles [OF good assms(2) [unfolded relay_once_postgres_def]]
  consider "r = None" "pg' = pg" "w' = w" "\<forall>pid it. dict_get (pg_outbox pg) pid = Some it \<longrightarrow> \<not> claimable now it"
    | pid it it' where "dict_get (pg_outbox pg) pid = Some it" "claimable now it"
        "dict_get (pg_outbox pg') = (dict_get (pg_outbox pg))(pid \<mapsto> it')" "settled now it it' (Inr r)"
    by auto
  then show ?thesis
  proof cases
    case 1
    then show ?thesis by simp
  next
    case 2
    then obtain st where r: "r = Some st" by (cases r) (auto simp: settled_def)
    have "0 \<le> ob_attempts it" by (rule outbox_goodD(4) [OF assms(1) 2(1)])
    from shape [OF 2(4) [unfolded r] this] 2(1-3) show ?thesis by (auto simp: r)
  qed
qed

definition refusing :: "unit publisher" where
  "refusing event body headers w = (raise PublishError ''publisher nack'' [], w)"

definition lone_outbox :: pg_store where
  "lone_outbox = empty_database\<lparr>pg_outbox := [(''a'', new_outbox_item ''p'' ''a'' ''rin-a'' ''d'' 0)],
     pg_protocols := [(''a'', \<lparr>prow_object_id = ''o'', prow_version = 1, prow_matrix_version = [], prow_dataset_version = [],
       prow_model_version = [], prow_manifest_hash = [], prow_status = JNull, prow_payload = JNull,
       prow_full_payload = None, prow_sha256 = ''d'', prow_finalized_at = 0, prow_supersedes = None\<rparr>)]\<rparr>"

theorem relay_cycle_settles_one_row_witness:
  "\<exists>pg' it. relay_once_postgres (\<lambda>_. ''d'') refusing local_only 7 (lone_outbox, ()) = (Inr (Some ''PENDING''), (pg', ())) \<and>
     dict_get (pg_outbox pg') ''a'' = Some it \<and> ob_available_at it = 67"
proof -
  have good: "outbox_good (pg_outbox lone_outbox)"
    by (simp add: outbox_good_def lone_outbox_def new_outbox_item_def MAX_ATTEMPTS_def wf_dict_def)
  obtain pg' where run: "relay_once_postgres (\<lambda>_. ''d'') refusing local_only 7 (lone_outbox, ()) = (Inr (Some ''PENDING''), (pg', ()))"
    by (simp add: relay_once_postgres_def relay_with_def claim_postgres_def lone_outbox_def claimable_def new_outbox_item_def
        MAX_ATTEMPTS_def bindp_apply on_store_def postgres_protocol_body_def pg_load_protocol_def publish_row_def
        row_of_item_def leased_def strip_def is_space_def on_world_def refusing_def mark_postgres_failed_def pause_after_def
        retry_delay_def failed_status_def)
  from relay_cycle_settles_one_row [OF good run] obtain pid it it' where
      "dict_get (pg_outbox lone_outbox) pid = Some it"
      "dict_get (pg_outbox pg') = (dict_get (pg_outbox lone_outbox))(pid \<mapsto> it')"
      "ob_available_at it' = 7 + RETRY_SECONDS ! nat (ob_attempts it)" by auto
  with run show ?thesis by (auto simp: lone_outbox_def new_outbox_item_def RETRY_SECONDS_def split: if_splits)
qed

end
