(* ===== verification/Sync_Relay.thy ===== *)
theory Sync_Relay
  imports Outbox
begin

section \<open>The relay projected into the process (infrastructure/sync\_relay.py)\<close>

text \<open>
  The relay variant that also writes \<open>processes.sync_state\<close>. It works on the same outbox; a confirm of
  the broker leaves the process in \<open>SYNCING\<close>, exhausted retries return it to \<open>PENDING_SYNC\<close> for a human.
  The functions run in the transaction of their caller, so what they leave behind when they raise is
  rolled back (\<open>run_once\<close>).
\<close>

subsection \<open>Writing the state and the journal\<close>

text \<open>\<open>UPDATE_PROCESS_SYNC_SQL\<close>; no row returned is an error.\<close>

definition with_sync :: "sync_state \<Rightarrow> int \<Rightarrow> string option \<Rightarrow> process_snapshot \<Rightarrow> process_snapshot" where
  "with_sync st attempts err p = p\<lparr>sn_sync_state := st, sn_sync_attempts := attempts, sn_last_error_code := err\<rparr>"

definition update_process_sync :: "outbox_row \<Rightarrow> sync_state \<Rightarrow> int \<Rightarrow> string option \<Rightarrow> (pg_store, unit) prog" where
  "update_process_sync row st attempts err pg =
     (case dict_get (pg_processes pg) (or_process_id row) of
        None \<Rightarrow> (raise SyncLifecycleError ''finalized process/protocol pair missing'' [or_event_id row], pg)
      | Some p \<Rightarrow>
          if sn_process_state p = FINALIZED \<and> sn_protocol_id p = Some (or_protocol_id row)
          then (Inr (), pg\<lparr>pg_processes := dict_set (or_process_id row) (with_sync st attempts err p) (pg_processes pg)\<rparr>)
          else (raise SyncLifecycleError ''finalized process/protocol pair missing'' [or_event_id row], pg))"

text \<open>
  \<open>INSERT_SYNC_AUDIT_SQL\<close>: selects the process, so it writes nothing when there is none, and nothing
  when a row of the same id exists.
\<close>

definition sync_audit_id :: "string \<Rightarrow> outbox_row \<Rightarrow> string" where
  "sync_audit_id act row = ''audit-'' @ str_lower act @ ''-'' @ or_event_id row"

definition sync_audit :: "outbox_row \<Rightarrow> string \<Rightarrow> string \<Rightarrow> json \<Rightarrow> pg_store \<Rightarrow> pg_store" where
  "sync_audit row who act details pg =
     (if dict_get (pg_processes pg) (or_process_id row) = None \<or>
         Some (sync_audit_id act row) \<in> fst ` set (pg_audit pg) then pg
      else pg\<lparr>pg_audit := pg_audit pg @
        [(Some (sync_audit_id act row), or_process_id row, (who, act, details))]\<rparr>)"

definition record_sync_claimed :: "outbox_row \<Rightarrow> (pg_store, unit) prog" where
  "record_sync_claimed row = update_process_sync row SYNCING (or_attempts row) None"

definition exhausted_details :: "outbox_row \<Rightarrow> string option \<Rightarrow> json" where
  "exhausted_details row err = JObj
     [(''event_id'', JStr (or_event_id row)), (''protocol_id'', JStr (or_protocol_id row)),
      (''attempts'', JInt (or_attempts row)), (''requires_manual_retry'', JBool True),
      (''error_code'', opt_json JStr err)]"

definition record_sync_outcome :: "outbox_row \<Rightarrow> string \<Rightarrow> string option \<Rightarrow> (pg_store, unit) prog" where
  "record_sync_outcome row result err =
     bindp (liftp (if result = ''DELIVERED'' then Inr (SYNCING, None)
                   else if result = ''PENDING'' then Inr (RETRY_WAIT, err)
                   else if result = ''FAILED_TERMINAL'' then Inr (PENDING_SYNC, err)
                   else raise ValueError ''unknown relay outcome'' [result])) (\<lambda>(st, last_error).
     bindp (update_process_sync row st (or_attempts row) last_error) (\<lambda>_.
       modp (\<lambda>pg. if result = ''FAILED_TERMINAL''
         then sync_audit row ''system:outbox-relay'' ''SYNC_RETRY_EXHAUSTED'' (exhausted_details row err) pg
         else pg)))"

subsection \<open>One cycle\<close>

definition fail_with_sync ::
    "outbox_row \<Rightarrow> timestamp \<Rightarrow> string \<Rightarrow> bool \<Rightarrow> (pg_store \<times> 'w, string option) prog" where
  "fail_with_sync row now err terminal =
     bindp (on_store (mark_postgres_failed row now err terminal)) (\<lambda>result.
     bindp (on_store (record_sync_outcome row result (Some err))) (\<lambda>_.
       liftp (Inr (Some result))))"

definition publish_with_sync ::
    "(json \<Rightarrow> string) \<Rightarrow> 'w publisher \<Rightarrow> timestamp \<Rightarrow> outbox_row \<Rightarrow> json \<Rightarrow> (pg_store \<times> 'w, string option) prog" where
  "publish_with_sync sha publish now row body s =
     (if sha (canon body) \<noteq> or_payload_sha256 row
      then fail_with_sync row now ''payload_sha256 mismatch'' True s
      else case on_world (publish (or_event_id row) body (row_headers row)) s of
          (Inl e, s') \<Rightarrow>
            if exc_cls e = PublishError then fail_with_sync row now (exc_text e) False s' else (Inl e, s')
        | (Inr _, s') \<Rightarrow>
            bindp (on_store (mark_postgres_delivered (or_id row))) (\<lambda>_.
            bindp (on_store (record_sync_outcome row ''DELIVERED'' None)) (\<lambda>_.
              liftp (Inr (Some ''DELIVERED'')))) s')"

definition relay_once_postgres_with_sync ::
    "(json \<Rightarrow> string) \<Rightarrow> 'w publisher \<Rightarrow> timestamp \<Rightarrow> (pg_store \<times> 'w, string option) prog" where
  "relay_once_postgres_with_sync sha publish now s =
     (case claim_postgres now (fst s) of
        (None, pg) \<Rightarrow> (Inr None, (pg, snd s))
      | (Some row, pg) \<Rightarrow>
          bindp (on_store (record_sync_claimed row)) (\<lambda>_.
          bindp (on_store (postgres_protocol_body (or_protocol_id row)))
            (publish_with_sync sha publish now row)) (pg, snd s))"

subsection \<open>The manual retry\<close>

text \<open>\<open>RESET_FAILED_OUTBOX_SQL\<close> resets every terminal row of the process and returns them.\<close>

definition terminal_of :: "string \<Rightarrow> outbox_item \<Rightarrow> bool" where
  "terminal_of process_id item = (ob_process_id item = process_id \<and> ob_status item = ''FAILED_TERMINAL'')"

definition reset_item :: "timestamp \<Rightarrow> outbox_item \<Rightarrow> outbox_item" where
  "reset_item now item = item\<lparr>ob_status := ''PENDING'', ob_attempts := 0, ob_available_at := now, ob_last_error := None\<rparr>"

definition retry_failed_sync :: "string \<Rightarrow> string \<Rightarrow> timestamp \<Rightarrow> (pg_store, string) prog" where
  "retry_failed_sync process_id who now pg =
     (if blank process_id then (raise ValueError ''process_id is required'' [], pg)
      else if blank who then (raise ValueError ''actor_id is required'' [], pg)
      else
        (let pg1 = pg\<lparr>pg_outbox := update_where (terminal_of process_id) (reset_item now) (pg_outbox pg)\<rparr>
         in case filter (terminal_of process_id) (dict_values (pg_outbox pg)) of
              [] \<Rightarrow> (raise LookupError ''no failed outbox row'' [process_id], pg1)
            | item # _ \<Rightarrow>
                (let row = \<lparr>or_id = ob_id item, or_process_id = process_id, or_protocol_id = ob_protocol_id item,
                      or_event_id = ob_event_id item, or_payload_sha256 = [], or_attempts = 0\<rparr>
                 in bindp (update_process_sync row PENDING_SYNC 0 None) (\<lambda>_.
                    bindp (modp (sync_audit row who ''SYNC_MANUAL_RETRY'' (JObj
                        [(''event_id'', JStr (or_event_id row)), (''protocol_id'', JStr (or_protocol_id row)),
                         (''requested_at'', JStr (iso_utc now))]))) (\<lambda>_.
                      liftp (Inr (or_id row)))) pg1)))"

subsection \<open>What a cycle does to the processes\<close>

definition sync_of :: "string \<Rightarrow> sync_state" where
  "sync_of result = (if result = ''DELIVERED'' then SYNCING else if result = ''PENDING'' then RETRY_WAIT else PENDING_SYNC)"

lemma update_process_sync_Inr:
  assumes "update_process_sync row st attempts err pg = (Inr u, pg')"
  shows "\<exists>p. dict_get (pg_processes pg) (or_process_id row) = Some p \<and> sn_process_state p = FINALIZED \<and>
    sn_protocol_id p = Some (or_protocol_id row) \<and>
    pg' = pg\<lparr>pg_processes := dict_set (or_process_id row) (with_sync st attempts err p) (pg_processes pg)\<rparr>"
  using assms by (auto simp: update_process_sync_def split: option.splits if_splits)

lemma sync_audit_frame [simp]:
  "pg_processes (sync_audit row who act details pg) = pg_processes pg"
  "pg_outbox (sync_audit row who act details pg) = pg_outbox pg"
  "pg_protocols (sync_audit row who act details pg) = pg_protocols pg"
  "pg_findings (sync_audit row who act details pg) = pg_findings pg"
  by (simp_all add: sync_audit_def)

lemma record_sync_outcome_Inr:
  assumes "record_sync_outcome row result err pg = (Inr u, pg')"
  shows "\<exists>p e. dict_get (pg_processes pg) (or_process_id row) = Some p \<and> sn_process_state p = FINALIZED \<and>
    sn_protocol_id p = Some (or_protocol_id row) \<and>
    pg_processes pg' = dict_set (or_process_id row) (with_sync (sync_of result) (or_attempts row) e p) (pg_processes pg) \<and>
    pg_outbox pg' = pg_outbox pg \<and> pg_protocols pg' = pg_protocols pg \<and> pg_findings pg' = pg_findings pg"
proof -
  from assms obtain pr where pr: "(if result = ''DELIVERED'' then Inr (SYNCING, None)
                   else if result = ''PENDING'' then Inr (RETRY_WAIT, err)
                   else if result = ''FAILED_TERMINAL'' then Inr (PENDING_SYNC, err)
                   else raise ValueError ''unknown relay outcome'' [result]) = Inr pr"
      "(case pr of (st, last_error) \<Rightarrow> bindp (update_process_sync row st (or_attempts row) last_error)
        (\<lambda>_. modp (\<lambda>pg. if result = ''FAILED_TERMINAL''
         then sync_audit row ''system:outbox-relay'' ''SYNC_RETRY_EXHAUSTED'' (exhausted_details row err) pg
         else pg))) pg = (Inr u, pg')"
    unfolding record_sync_outcome_def bindp_lift_Inr by blast
  obtain st last_error where st: "pr = (st, last_error)" by (cases pr)
  have one: "st = sync_of result"
      "bindp (update_process_sync row st (or_attempts row) last_error) (\<lambda>_. modp (\<lambda>pg. if result = ''FAILED_TERMINAL''
         then sync_audit row ''system:outbox-relay'' ''SYNC_RETRY_EXHAUSTED'' (exhausted_details row err) pg
         else pg)) pg = (Inr u, pg')"
    using pr by (auto simp: st sync_of_def split: if_splits)
  from one(2) obtain pg1 where o: "pg' = (if result = ''FAILED_TERMINAL''
         then sync_audit row ''system:outbox-relay'' ''SYNC_RETRY_EXHAUSTED'' (exhausted_details row err) pg1 else pg1)"
      "update_process_sync row st (or_attempts row) last_error pg = (Inr (), pg1)"
    unfolding bindp_Inr modp_apply by auto
  from update_process_sync_Inr [OF o(2)] o(1) one(1) show ?thesis by auto
qed


text \<open>
  The outbox functions leave the other tables alone, and a successful update of the process row is
  overwritten by the next one of the same row.
\<close>

lemma claim_postgres_frame:
  "claim_postgres now pg = (c, pg') \<Longrightarrow> pg_processes pg' = pg_processes pg \<and> pg_protocols pg' = pg_protocols pg \<and>
     pg_findings pg' = pg_findings pg"
  by (auto simp: claim_postgres_def split: list.splits)

lemma mark_failed_frame:
  "mark_postgres_failed row now err terminal pg = (Inr result, pg') \<Longrightarrow>
     pg_processes pg' = pg_processes pg \<and> pg_protocols pg' = pg_protocols pg \<and> pg_findings pg' = pg_findings pg"
  by (auto simp: mark_postgres_failed_def split: sum.splits)

lemma on_store_Inr: "on_store p (m, w) = (Inr x, (m', w')) \<longleftrightarrow> p m = (Inr x, m') \<and> w' = w"
  by (auto simp: on_store_def Let_def split: prod.splits)

definition process_synced :: "outbox_row \<Rightarrow> sync_state \<Rightarrow> pg_store \<Rightarrow> pg_store \<Rightarrow> bool" where
  "process_synced row st pg pg' = (\<exists>p e.
     dict_get (pg_processes pg) (or_process_id row) = Some p \<and> sn_process_state p = FINALIZED \<and>
     sn_protocol_id p = Some (or_protocol_id row) \<and>
     dict_get (pg_processes pg') = (dict_get (pg_processes pg))(or_process_id row \<mapsto> with_sync st (or_attempts row) e p) \<and>
     pg_protocols pg' = pg_protocols pg \<and> pg_findings pg' = pg_findings pg)"

lemma process_synced_outcome:
  assumes claimed: "update_process_sync row SYNCING (or_attempts row) None pg1 = (Inr u, pg2)"
    and frame: "pg_processes pg3 = pg_processes pg2" "pg_protocols pg3 = pg_protocols pg2" "pg_findings pg3 = pg_findings pg2"
    and out: "record_sync_outcome row result err pg3 = (Inr u', pg')"
  shows "process_synced row (sync_of result) pg1 pg'"
proof -
  from update_process_sync_Inr [OF claimed] obtain p where p: "dict_get (pg_processes pg1) (or_process_id row) = Some p"
      "sn_process_state p = FINALIZED" "sn_protocol_id p = Some (or_protocol_id row)"
      "pg2 = pg1\<lparr>pg_processes := dict_set (or_process_id row) (with_sync SYNCING (or_attempts row) None p) (pg_processes pg1)\<rparr>"
    by blast
  from record_sync_outcome_Inr [OF out] obtain e where
      "dict_get (pg_processes pg') = (dict_get (pg_processes pg3))
         (or_process_id row \<mapsto> with_sync (sync_of result) (or_attempts row) e
            (with_sync SYNCING (or_attempts row) None p))"
      "pg_protocols pg' = pg_protocols pg3" "pg_findings pg' = pg_findings pg3"
    using frame p(4) by (auto simp: dict_get_set fun_eq_iff)
  moreover have "with_sync st a e (with_sync st' a' e' p) = with_sync st a e p" for st a e st' a' e'
    by (simp add: with_sync_def)
  ultimately show ?thesis using p frame
    unfolding process_synced_def by (intro exI [of _ p] exI [of _ e]) (simp add: dict_get_set fun_eq_iff)
qed

lemma fail_with_sync_Inr:
  assumes "fail_with_sync row now err terminal (pg, w) = (Inr r, (pg', w'))"
  shows "\<exists>result pg1 e u. r = Some result \<and> mark_postgres_failed row now err terminal pg = (Inr result, pg1) \<and>
    record_sync_outcome row result e pg1 = (Inr u, pg')"
proof -
  from assms obtain result s1 where one: "on_store (mark_postgres_failed row now err terminal) (pg, w) = (Inr result, s1)"
      "bindp (on_store (record_sync_outcome row result (Some err))) (\<lambda>_. liftp (Inr (Some result))) s1 = (Inr r, (pg', w'))"
    unfolding fail_with_sync_def bindp_Inr [of "on_store (mark_postgres_failed _ _ _ _)"] by blast
  obtain pg1 w1 where s1: "s1 = (pg1, w1)" by (cases s1)
  from one(2) obtain u s2 where "on_store (record_sync_outcome row result (Some err)) s1 = (Inr u, s2)"
      "r = Some result" "s2 = (pg', w')"
    unfolding bindp_Inr [of "on_store (record_sync_outcome _ _ _)"] by auto
  with one(1) s1 show ?thesis by (auto simp: on_store_Inr)
qed

lemma synced_cycle:
  assumes "relay_once_postgres_with_sync sha publish now (pg, w) = (Inr (Some result), (pg', w'))"
  shows "\<exists>row pg1. claim_postgres now pg = (Some row, pg1) \<and> process_synced row (sync_of result) pg pg'"
proof -
  obtain c pg1 where claim: "claim_postgres now pg = (c, pg1)" by (cases "claim_postgres now pg")
  with assms obtain row where row: "c = Some row" by (cases c) (auto simp: relay_once_postgres_with_sync_def)
  let ?rest = "publish_with_sync sha publish now row"
  have "bindp (on_store (record_sync_claimed row)) (\<lambda>_.
      bindp (on_store (postgres_protocol_body (or_protocol_id row))) ?rest) (pg1, w) = (Inr (Some result), (pg', w'))"
    using assms claim row by (simp add: relay_once_postgres_with_sync_def)
  then obtain u s2 where two: "on_store (record_sync_claimed row) (pg1, w) = (Inr u, s2)"
      "bindp (on_store (postgres_protocol_body (or_protocol_id row))) ?rest s2 = (Inr (Some result), (pg', w'))"
    unfolding bindp_Inr [of "on_store (record_sync_claimed row)"] by blast
  obtain pg2 w2 where s2: "s2 = (pg2, w2)" by (cases s2)
  with two(1) have upd: "update_process_sync row SYNCING (or_attempts row) None pg1 = (Inr u, pg2)"
    by (simp add: on_store_Inr record_sync_claimed_def)
  from two(2) obtain body s3 where three: "on_store (postgres_protocol_body (or_protocol_id row)) s2 = (Inr body, s3)"
      "?rest body s3 = (Inr (Some result), (pg', w'))"
    unfolding bindp_Inr [of "on_store (postgres_protocol_body _)"] by blast
  obtain pg3 w3 where s3: "s3 = (pg3, w3)" by (cases s3)
  with three(1) s2 have pg3: "pg3 = pg2"
    by (auto simp: on_store_Inr postgres_protocol_body_def split: option.splits)
  have failing: "process_synced row (sync_of result) pg1 pg'"
    if "fail_with_sync row now err terminal (pg2, v) = (Inr (Some result), (pg', w'))" for err terminal v
  proof -
    from fail_with_sync_Inr [OF that] obtain pg4 e u2 where f: "mark_postgres_failed row now err terminal pg2 = (Inr result, pg4)"
        "record_sync_outcome row result e pg4 = (Inr u2, pg')" by auto
    from mark_failed_frame [OF f(1)] process_synced_outcome [OF upd _ _ _ f(2)] show ?thesis by blast
  qed
  have "process_synced row (sync_of result) pg1 pg'"
  proof (cases "sha (canon body) \<noteq> or_payload_sha256 row")
    case True
    with three(2) s3 pg3 failing show ?thesis by (simp add: publish_with_sync_def)
  next
    case False
    obtain q w4 where pub: "publish (or_event_id row) body (row_headers row) w3 = (q, w4)"
      by (cases "publish (or_event_id row) body (row_headers row) w3")
    show ?thesis
    proof (cases q)
      case (Inl e)
      with three(2) False pub s3 pg3 failing show ?thesis
        by (auto simp: publish_with_sync_def on_world_apply split: if_splits)
    next
      case (Inr v)
      with three(2) False pub s3 pg3 have "bindp (on_store (mark_postgres_delivered (or_id row))) (\<lambda>_.
          bindp (on_store (record_sync_outcome row ''DELIVERED'' None)) (\<lambda>_. liftp (Inr (Some ''DELIVERED'')))) (pg2, w4) =
          (Inr (Some result), (pg', w'))" by (simp add: publish_with_sync_def on_world_apply)
      then obtain u5 u6 s5 s6 where d: "on_store (mark_postgres_delivered (or_id row)) (pg2, w4) = (Inr u5, s5)"
          "on_store (record_sync_outcome row ''DELIVERED'' None) s5 = (Inr u6, s6)" "result = ''DELIVERED''" "s6 = (pg', w')"
        unfolding bindp_Inr by auto
      obtain pg5 w5 where s5: "s5 = (pg5, w5)" by (cases s5)
      have "pg_processes pg5 = pg_processes pg2" "pg_protocols pg5 = pg_protocols pg2" "pg_findings pg5 = pg_findings pg2"
        using d(1) by (auto simp: s5 on_store_Inr mark_postgres_delivered_def)
      from process_synced_outcome [OF upd this, of "''DELIVERED''" None u6 pg'] d(2-4) s5 show ?thesis
        by (simp add: on_store_Inr)
    qed
  qed
  then have "process_synced row (sync_of result) pg pg'"
    using claim_postgres_frame [OF claim] by (simp add: process_synced_def)
  then show ?thesis using claim row by blast
qed


subsection \<open>The manual retry and its journal\<close>

lemma retry_Inr:
  assumes "retry_failed_sync process_id who now pg = (Inr i, pg')" and "outbox_good (pg_outbox pg)"
  shows "\<exists>pid row details. i = ''outbox-'' @ pid \<and> or_event_id row = ''rin-'' @ pid \<and> or_process_id row = process_id \<and>
    dict_get (pg_processes pg) process_id \<noteq> None \<and>
    pg_audit pg' = pg_audit (sync_audit row who ''SYNC_MANUAL_RETRY'' details pg)"
proof -
  let ?t = "filter (terminal_of process_id) (dict_values (pg_outbox pg))"
  from assms(1) obtain item rest where t: "?t = item # rest"
    by (cases ?t) (auto simp: retry_failed_sync_def Let_def split: if_splits)
  let ?row = "\<lparr>or_id = ob_id item, or_process_id = process_id, or_protocol_id = ob_protocol_id item,
      or_event_id = ob_event_id item, or_payload_sha256 = [], or_attempts = 0\<rparr>"
  let ?details = "JObj [(''event_id'', JStr (ob_event_id item)), (''protocol_id'', JStr (ob_protocol_id item)),
      (''requested_at'', JStr (iso_utc now))]"
  let ?pg1 = "pg\<lparr>pg_outbox := update_where (terminal_of process_id) (reset_item now) (pg_outbox pg)\<rparr>"
  have "item \<in> set ?t" by (simp only: t list.set_intros)
  then obtain pid where pid: "dict_get (pg_outbox pg) pid = Some item"
    using assms(2) wf_dict_value [of "pg_outbox pg" item] by (auto simp: outbox_good_def)
  from assms(1) have "bindp (update_process_sync ?row PENDING_SYNC 0 None) (\<lambda>_.
      bindp (modp (sync_audit ?row who ''SYNC_MANUAL_RETRY'' ?details)) (\<lambda>_. liftp (Inr (ob_id item)))) ?pg1 = (Inr i, pg')"
    by (auto simp: retry_failed_sync_def t Let_def split: if_splits)
  then obtain u pg2 where r: "update_process_sync ?row PENDING_SYNC 0 None ?pg1 = (Inr u, pg2)"
      "pg' = sync_audit ?row who ''SYNC_MANUAL_RETRY'' ?details pg2" "i = ob_id item"
    unfolding bindp_Inr [of "update_process_sync _ _ _ _"] by (auto simp only: bindp_modp liftp_apply prod.inject sum.inject)
  from update_process_sync_Inr [OF r(1)] obtain p where p: "dict_get (pg_processes pg) process_id = Some p"
      "pg2 = ?pg1\<lparr>pg_processes := dict_set process_id (with_sync PENDING_SYNC 0 None p) (pg_processes pg)\<rparr>" by auto
  have "pg_audit pg' = pg_audit (sync_audit ?row who ''SYNC_MANUAL_RETRY'' ?details pg)"
    using p by (simp add: r(2) sync_audit_def)
  then show ?thesis
    using p(1) outbox_goodD [OF assms(2) pid] r(3)
    by (intro exI [of _ pid] exI [of _ ?row] exI [of _ ?details]) simp
qed

subsection \<open>Properties\<close>


definition finalized_db :: "sync_state \<Rightarrow> pg_store" where
  "finalized_db st = lone_outbox\<lparr>pg_processes :=
     [(''p'', sample_snapshot\<lparr>sn_protocol_id := Some ''a'', sn_sync_state := st\<rparr>)]\<rparr>"

lemma finalized_db_cycle:
  "\<exists>pg' w'. relay_once_postgres_with_sync (\<lambda>_. ''d'') confirming 7 (finalized_db st, 0) =
     (Inr (Some ''DELIVERED''), (pg', w'))"
  by (simp add: relay_once_postgres_with_sync_def claim_postgres_def lone_outbox_def claimable_def new_outbox_item_def
      finalized_db_def MAX_ATTEMPTS_def bindp_apply on_store_def postgres_protocol_body_def pg_load_protocol_def
      publish_with_sync_def row_of_item_def leased_def strip_def is_space_def on_world_def confirming_def
      mark_postgres_delivered_def record_sync_claimed_def record_sync_outcome_def update_process_sync_def
      with_sync_def sample_snapshot_def)


text \<open>
  The relay does not wait for a request: a protocol whose process was never asked to be transferred
  is claimed, published and its process moved from \<open>NOT_REQUESTED\<close> to \<open>SYNCING\<close>, a step the table of
  sync transitions does not have.
\<close>

theorem unrequested_protocol_is_sent:
  "\<exists>pg' w'. relay_once_postgres_with_sync (\<lambda>_. ''d'') confirming 7 (finalized_db NOT_REQUESTED, 0) =
      (Inr (Some ''DELIVERED''), (pg', w')) \<and>
    map_option sn_sync_state (dict_get (pg_processes pg') ''p'') = Some SYNCING \<and>
    SYNCING \<notin> set (SYNC_TRANSITIONS NOT_REQUESTED)"
proof -
  obtain pg' w' where run: "relay_once_postgres_with_sync (\<lambda>_. ''d'') confirming 7 (finalized_db NOT_REQUESTED, 0) =
      (Inr (Some ''DELIVERED''), (pg', w'))" using finalized_db_cycle by blast
  from synced_cycle [OF run] obtain row where "process_synced row (sync_of ''DELIVERED'') (finalized_db NOT_REQUESTED) pg'"
    by blast
  with run show ?thesis
    by (auto simp: process_synced_def sync_of_def finalized_db_def with_sync_def split: if_splits)
qed


definition failed_db :: "(string option \<times> string \<times> audit_event) list \<Rightarrow> pg_store" where
  "failed_db evs = (finalized_db PENDING_SYNC)\<lparr>pg_audit := evs, pg_outbox :=
     [(''a'', (new_outbox_item ''p'' ''a'' ''rin-a'' ''d'' 0)\<lparr>ob_status := ''FAILED_TERMINAL'', ob_attempts := 4\<rparr>)]\<rparr>"

lemma failed_db_retry: "\<exists>pg'. retry_failed_sync ''p'' who now (failed_db evs) = (Inr ''outbox-a'', pg')" if "\<not> blank who"
  using that by (simp add: retry_failed_sync_def blank_iff [of "''p''"] is_space_def failed_db_def terminal_of_def
      new_outbox_item_def Let_def bindp_apply update_process_sync_def finalized_db_def sample_snapshot_def)


end
