(* ===== verification/Inbox.thy ===== *)
theory Inbox
  imports Outbox
begin

section \<open>The inbox consumer (infrastructure/inbox.py, inbox\_worker.py)\<close>

text \<open>
  The broker delivers a message at least once; the inbox table has one row per event. The database
  commits before the broker is answered. A body is the JSON value its bytes decode to, \<open>None\<close> when
  they do not. The channel is the double of the source, a list of the calls it received.
\<close>

record broker_delivery =
  bd_event_id :: string
  bd_process_id :: string
  bd_protocol_id :: string
  bd_payload_sha256 :: string
  bd_body :: "json option"
  bd_redelivery_count :: int
  bd_delivery_tag :: string

record inbox_row =
  ir_event_id :: string
  ir_process_id :: string
  ir_protocol_id :: string
  ir_payload_sha256 :: string
  ir_status :: string
  ir_delivery_attempts :: int
  ir_last_error :: "string option"

definition payload_digest :: "(json \<Rightarrow> string) \<Rightarrow> json option \<Rightarrow> string result" where
  "payload_digest sha body =
     (case body of
        None \<Rightarrow> raise ValueError ''body'' []
      | Some j \<Rightarrow> if is_obj j then Inr (sha (canon j)) else raise TypeError ''protocol payload'' [])"

text \<open>\<open>int(text)\<close>: blanks around it, a sign, digits with single underscores.\<close>

definition parse_int :: "string \<Rightarrow> int option" where
  "parse_int text =
     (case signed_split (strip text) of (sg, ds) \<Rightarrow> map_option (\<lambda>d. sg * int (nat_of_digits d)) (digit_part ds))"

definition delivery_attempt :: "(string, json) dict \<Rightarrow> int" where
  "delivery_attempt headers =
     (case dict_get headers ''x-delivery-count'' of
        None \<Rightarrow> 1
      | Some (JInt n) \<Rightarrow> max n 0 + 1
      | Some (JBool b) \<Rightarrow> (if b then 2 else 1)
      | Some (JStr s) \<Rightarrow> (case parse_int s of None \<Rightarrow> 1 | Some n \<Rightarrow> max n 0 + 1)
      | Some _ \<Rightarrow> 1)"

definition delivery_error :: "(json \<Rightarrow> string) \<Rightarrow> broker_delivery \<Rightarrow> string option" where
  "delivery_error sha d =
     (if blank (bd_event_id d) then Some ''missing event_id''
      else if blank (bd_process_id d) \<or> blank (bd_protocol_id d) then Some ''missing process/protocol''
      else case payload_digest sha (bd_body d) of
          Inl e \<Rightarrow> Some ''invalid protocol payload''
        | Inr digest \<Rightarrow>
            if digest \<noteq> str_lower (strip (bd_payload_sha256 d)) then Some ''payload_sha256 mismatch'' else None)"

definition usable_sha :: "string \<Rightarrow> string" where
  "usable_sha v =
     (let candidate = str_lower (strip v)
      in if length candidate = 64 \<and> list_all (\<lambda>c. c \<in> set ''0123456789abcdef'') candidate then candidate
         else replicate 64 (CHR ''0''))"

definition row_for :: "broker_delivery \<Rightarrow> string \<Rightarrow> string \<Rightarrow> int \<Rightarrow> string option \<Rightarrow> inbox_row" where
  "row_for d digest status attempts err =
     \<lparr>ir_event_id = bd_event_id d, ir_process_id = bd_process_id d, ir_protocol_id = bd_protocol_id d,
      ir_payload_sha256 = digest, ir_status = status, ir_delivery_attempts = attempts, ir_last_error = err\<rparr>"

definition classify_inbox_delivery ::
    "(json \<Rightarrow> string) \<Rightarrow> broker_delivery \<Rightarrow> (string \<times> inbox_row option) result" where
  "classify_inbox_delivery sha d =
     (if bd_redelivery_count d < 1 then raise ValueError ''redelivery_count must be positive'' []
      else case delivery_error sha d of
        None \<Rightarrow> Inr (''ack'', Some (row_for d (bd_payload_sha256 d) ''RECEIVED''
                  (min (bd_redelivery_count d) MAX_ATTEMPTS) None))
      | Some err \<Rightarrow>
          if bd_redelivery_count d < MAX_ATTEMPTS then Inr (''requeue'', None)
          else if blank (bd_event_id d) \<or> blank (bd_process_id d) \<or> blank (bd_protocol_id d)
          then Inr (''dead_letter'', None)
          else Inr (''dead_letter'', Some (row_for d (usable_sha (bd_payload_sha256 d)) ''POISON'' MAX_ATTEMPTS (Some err))))"

subsection \<open>The transaction\<close>

text \<open>
  The table, and the keys its rows refer to. \<open>INSERT_INBOX_SQL\<close> does nothing on a known event and
  fails on an unknown process or protocol, or a digest that is not 64 hex digits.
\<close>

record inbox_db =
  ib_rows :: "(string, inbox_row) dict"
  ib_processes :: "string list"
  ib_protocols :: "string list"

definition hex_digest :: "string \<Rightarrow> bool" where
  "hex_digest s = (length s = 64 \<and> list_all (\<lambda>c. c \<in> set ''0123456789abcdef'') s)"

definition insert_inbox :: "inbox_row \<Rightarrow> (inbox_db, bool) prog" where
  "insert_inbox row db =
     (if \<not> hex_digest (ir_payload_sha256 row) then (raise CheckViolation ''integration_inbox'' [], db)
      else if dict_get (ib_rows db) (ir_event_id row) \<noteq> None then (Inr False, db)
      else if ir_process_id row \<notin> set (ib_processes db) \<or> ir_protocol_id row \<notin> set (ib_protocols db)
      then (raise ForeignKeyViolation ''integration_inbox'' [], db)
      else (Inr True, db\<lparr>ib_rows := dict_set (ir_event_id row) row (ib_rows db)\<rparr>))"

definition persist_inbox_delivery :: "(json \<Rightarrow> string) \<Rightarrow> broker_delivery \<Rightarrow> (inbox_db, string) prog" where
  "persist_inbox_delivery sha d db =
     (case classify_inbox_delivery sha d of
        Inl e \<Rightarrow> (Inl e, db)
      | Inr (act, row) \<Rightarrow>
          (case (case row of None \<Rightarrow> (Inr False, db) | Some r \<Rightarrow> insert_inbox r db) of
             (Inl e, _) \<Rightarrow> (Inl e, db)
           | (Inr _, db') \<Rightarrow>
               if act = ''requeue'' then (Inr ''NACK_REQUEUE'', db)
               else if act = ''dead_letter'' \<and> row = None then (Inr ''NACK_DEAD_LETTER'', db)
               else if act = ''dead_letter'' then (Inr ''NACK_DEAD_LETTER'', db')
               else (Inr ''ACK'', db')))"

datatype channel_call = Ack string | Nack string bool

definition settlement :: "string \<Rightarrow> string \<Rightarrow> channel_call" where
  "settlement result tag =
     (if result = ''ACK'' then Ack tag else if result = ''NACK_REQUEUE'' then Nack tag True else Nack tag False)"

text \<open>\<open>settle_inbox_delivery\<close>, and \<open>settle_async_inbox_delivery\<close>, which awaits the same call.\<close>

definition settle_inbox_delivery ::
    "(json \<Rightarrow> string) \<Rightarrow> broker_delivery \<Rightarrow> (inbox_db \<times> channel_call list, string) prog" where
  "settle_inbox_delivery sha d s =
     (case persist_inbox_delivery sha d (fst s) of
        (Inl e, db) \<Rightarrow> (Inl e, (db, snd s))
      | (Inr r, db) \<Rightarrow> (Inr r, (db, snd s @ [settlement r (bd_delivery_tag d)])))"

fun settle_all :: "(json \<Rightarrow> string) \<Rightarrow> broker_delivery list \<Rightarrow> inbox_db \<times> channel_call list \<Rightarrow> inbox_db \<times> channel_call list" where
  "settle_all sha [] s = s"
| "settle_all sha (d # ds) s = settle_all sha ds (snd (settle_inbox_delivery sha d s))"

subsection \<open>The rows only grow\<close>

lemma insert_inbox_Inr:
  "insert_inbox row db = (Inr b, db') \<Longrightarrow>
     dict_get (ib_rows db') (ir_event_id row) \<noteq> None \<and>
     (\<forall>e r. dict_get (ib_rows db) e = Some r \<longrightarrow> dict_get (ib_rows db') e = Some r) \<and>
     (\<forall>e. dict_get (ib_rows db') e = dict_get (ib_rows db) e \<or>
        (e = ir_event_id row \<and> dict_get (ib_rows db) e = None \<and> dict_get (ib_rows db') e = Some row)) \<and>
     ib_processes db' = ib_processes db \<and> ib_protocols db' = ib_protocols db"
  by (auto simp: insert_inbox_def dict_get_set split: if_splits)

lemma persist_grows:
  assumes "persist_inbox_delivery sha d db = (r, db')"
  shows "(\<forall>e row. dict_get (ib_rows db) e = Some row \<longrightarrow> dict_get (ib_rows db') e = Some row)"
proof (cases "classify_inbox_delivery sha d")
  case (Inl e)
  with assms show ?thesis by (simp add: persist_inbox_delivery_def)
next
  case (Inr c)
  obtain act row where c: "c = (act, row)" by (cases c)
  show ?thesis
  proof (cases row)
    case None
    with assms Inr c show ?thesis by (auto simp: persist_inbox_delivery_def split: if_splits)
  next
    case (Some rw)
    obtain q db1 where ins: "insert_inbox rw db = (q, db1)" by (cases "insert_inbox rw db")
    with assms Inr c Some insert_inbox_Inr [of rw db _ db1] show ?thesis
      by (cases q) (auto simp: persist_inbox_delivery_def split: if_splits)
  qed
qed

lemma settle_grows:
  assumes "dict_get (ib_rows (fst s)) e = Some row"
  shows "dict_get (ib_rows (fst (snd (settle_inbox_delivery sha d s)))) e = Some row"
  using assms persist_grows [of sha d "fst s"]
  by (auto simp: settle_inbox_delivery_def split: prod.splits sum.splits)

lemma settle_all_grows:
  "dict_get (ib_rows (fst s)) e = Some row \<Longrightarrow> dict_get (ib_rows (fst (settle_all sha ds s))) e = Some row"
proof (induction ds arbitrary: s)
  case (Cons d ds)
  show ?case using Cons.IH [OF settle_grows [OF Cons.prems]] by simp
qed simp

text \<open>A delivery whose content is accepted, and what becomes of any delivery.\<close>

lemma classify_cases:
  assumes "classify_inbox_delivery sha d = Inr (act, row)"
  shows "1 \<le> bd_redelivery_count d \<and>
    ((act = ''ack'' \<and> delivery_error sha d = None \<and>
        row = Some (row_for d (bd_payload_sha256 d) ''RECEIVED'' (min (bd_redelivery_count d) MAX_ATTEMPTS) None)) \<or>
     (act = ''requeue'' \<and> delivery_error sha d \<noteq> None \<and> bd_redelivery_count d < MAX_ATTEMPTS \<and> row = None) \<or>
     (act = ''dead_letter'' \<and> delivery_error sha d \<noteq> None \<and> MAX_ATTEMPTS \<le> bd_redelivery_count d \<and>
        (row = None \<or> (\<exists>err. row = Some (row_for d (usable_sha (bd_payload_sha256 d)) ''POISON'' MAX_ATTEMPTS (Some err))))))"
  using assms by (auto simp: classify_inbox_delivery_def split: if_splits option.splits)

lemma persist_Inr:
  assumes "persist_inbox_delivery sha d db = (Inr r, db')"
  shows "(r = ''ACK'' \<and> delivery_error sha d = None \<and> dict_get (ib_rows db') (bd_event_id d) =
       (case dict_get (ib_rows db) (bd_event_id d) of
          Some old \<Rightarrow> Some old
        | None \<Rightarrow> Some (row_for d (bd_payload_sha256 d) ''RECEIVED'' (min (bd_redelivery_count d) MAX_ATTEMPTS) None))) \<or>
    (r = ''NACK_REQUEUE'' \<and> delivery_error sha d \<noteq> None \<and> bd_redelivery_count d < MAX_ATTEMPTS \<and> db' = db) \<or>
    (r = ''NACK_DEAD_LETTER'' \<and> delivery_error sha d \<noteq> None \<and> MAX_ATTEMPTS \<le> bd_redelivery_count d)"
proof -
  from assms obtain act row where c: "classify_inbox_delivery sha d = Inr (act, row)"
    by (auto simp: persist_inbox_delivery_def split: sum.splits)
  from classify_cases [OF c] consider
      "act = ''ack''" "delivery_error sha d = None"
        "row = Some (row_for d (bd_payload_sha256 d) ''RECEIVED'' (min (bd_redelivery_count d) MAX_ATTEMPTS) None)"
    | "act = ''requeue''" "delivery_error sha d \<noteq> None" "bd_redelivery_count d < MAX_ATTEMPTS" "row = None"
    | "act = ''dead_letter''" "delivery_error sha d \<noteq> None" "MAX_ATTEMPTS \<le> bd_redelivery_count d"
    by (elim conjE disjE) simp_all
  then show ?thesis
  proof cases
    case 1
    let ?row = "row_for d (bd_payload_sha256 d) ''RECEIVED'' (min (bd_redelivery_count d) MAX_ATTEMPTS) None"
    obtain q db1 where ins: "insert_inbox ?row db = (q, db1)" by (cases "insert_inbox ?row db")
    with assms c 1 have q: "\<exists>b. q = Inr b" "r = ''ACK''" "db' = db1"
      by (auto simp: persist_inbox_delivery_def split: sum.splits)
    have e: "ir_event_id ?row = bd_event_id d" by (simp add: row_for_def)
    have "dict_get (ib_rows db1) (bd_event_id d) = (case dict_get (ib_rows db) (bd_event_id d) of
        Some old \<Rightarrow> Some old | None \<Rightarrow> Some ?row)"
      using ins q(1) unfolding insert_inbox_def e by (auto split: if_splits option.splits)
    with 1 q show ?thesis by simp
  next
    case 2
    with assms c show ?thesis by (simp add: persist_inbox_delivery_def)
  next
    case 3
    with assms c show ?thesis by (auto simp: persist_inbox_delivery_def split: sum.splits prod.splits option.splits if_splits)
  qed
qed

subsection \<open>Properties\<close>

text \<open>
  C28. At-least-once delivery has an exactly-once effect: once an event has a row, no sequence of
  further deliveries, duplicated, corrupted or forged, changes or removes it, and a delivery is
  acknowledged only with the row of its event in the table.
\<close>

theorem inbox_effect_is_exactly_once:
  assumes "settle_inbox_delivery sha d (db, calls) = (Inr r, s1)"
  shows "(r = ''ACK'' \<longrightarrow> (\<exists>row. dict_get (ib_rows (fst s1)) (bd_event_id d) = Some row \<and>
      (dict_get (ib_rows db) (bd_event_id d) = None \<longrightarrow> ir_status row = ''RECEIVED'') \<and>
      dict_get (ib_rows (fst (settle_all sha later s1))) (bd_event_id d) = Some row)) \<and>
    (\<forall>e row. dict_get (ib_rows db) e = Some row \<longrightarrow> dict_get (ib_rows (fst (settle_all sha later s1))) e = Some row) \<and>
    snd s1 = calls @ [settlement r (bd_delivery_tag d)]"
proof -
  from assms obtain db' where p: "persist_inbox_delivery sha d db = (Inr r, db')"
      "s1 = (db', calls @ [settlement r (bd_delivery_tag d)])"
    by (auto simp: settle_inbox_delivery_def split: prod.splits sum.splits)
  have ack: "\<exists>row. dict_get (ib_rows db') (bd_event_id d) = Some row \<and>
      (dict_get (ib_rows db) (bd_event_id d) = None \<longrightarrow> ir_status row = ''RECEIVED'')" if "r = ''ACK''"
    using persist_Inr [OF p(1)] that by (auto simp: row_for_def split: option.splits)
  have keep: "dict_get (ib_rows (fst (settle_all sha later s1))) e = Some row"
    if "dict_get (ib_rows db') e = Some row" for e row
    by (rule settle_all_grows) (use that p(2) in simp)
  have "\<forall>e row. dict_get (ib_rows db) e = Some row \<longrightarrow> dict_get (ib_rows (fst (settle_all sha later s1))) e = Some row"
    using keep persist_grows [OF p(1)] by blast
  moreover have "\<exists>row. dict_get (ib_rows (fst s1)) (bd_event_id d) = Some row \<and>
      (dict_get (ib_rows db) (bd_event_id d) = None \<longrightarrow> ir_status row = ''RECEIVED'') \<and>
      dict_get (ib_rows (fst (settle_all sha later s1))) (bd_event_id d) = Some row" if "r = ''ACK''"
  proof -
    from ack [OF that] obtain row where row: "dict_get (ib_rows db') (bd_event_id d) = Some row \<and>
        (dict_get (ib_rows db) (bd_event_id d) = None \<longrightarrow> ir_status row = ''RECEIVED'')" ..
    have "dict_get (ib_rows (fst s1)) (bd_event_id d) = Some row" using row p(2) by (simp only: fst_conv)
    with row keep [OF conjunct1 [OF row]] show ?thesis by (intro exI [of _ row] conjI) (elim conjE, assumption)+
  qed
  moreover have "snd s1 = calls @ [settlement r (bd_delivery_tag d)]" using p(2) by simp
  ultimately show ?thesis by blast
qed

definition sample_body :: json where
  "sample_body = JObj [(''protocol_id'', JStr ''a'')]"

definition hex_zero :: string where
  "hex_zero = replicate 64 (CHR ''0'')"

definition sample_delivery :: broker_delivery where
  "sample_delivery = \<lparr>bd_event_id = ''rin-a'', bd_process_id = ''p'', bd_protocol_id = ''a'', bd_payload_sha256 = hex_zero,
     bd_body = Some sample_body, bd_redelivery_count = 1, bd_delivery_tag = ''1''\<rparr>"

definition sample_inbox :: inbox_db where
  "sample_inbox = \<lparr>ib_rows = [], ib_processes = [''p''], ib_protocols = [''a'']\<rparr>"

lemma hex_zero_lower: "str_lower (strip hex_zero) = hex_zero"
proof -
  have "map (\<lambda>c. char_of (lower_code (of_char c))) hex_zero = hex_zero"
    unfolding hex_zero_def map_replicate by (simp add: lower_code_def odd_case_pairs_def char_of_def bit_iff_odd)
  moreover have "strip hex_zero = hex_zero"
    by (rule strip_fixed) (simp add: hex_zero_def is_space_def)
  ultimately show ?thesis by (simp add: str_lower_def)
qed

lemma sample_delivery_acked:
  "\<exists>s1. settle_inbox_delivery (\<lambda>_. hex_zero) sample_delivery (sample_inbox, []) = (Inr ''ACK'', s1)"
proof -
  have "delivery_error (\<lambda>_. hex_zero) sample_delivery = None"
    by (simp add: delivery_error_def sample_delivery_def blank_iff is_space_def payload_digest_def sample_body_def hex_zero_lower)
  then show ?thesis
    by (simp add: settle_inbox_delivery_def persist_inbox_delivery_def classify_inbox_delivery_def insert_inbox_def
        row_for_def sample_inbox_def hex_digest_def)
      (simp add: sample_delivery_def hex_zero_def list_all_iff)
qed

theorem inbox_effect_is_exactly_once_witness:
  "\<exists>s1 row. settle_inbox_delivery (\<lambda>_. hex_zero) sample_delivery (sample_inbox, []) = (Inr ''ACK'', s1) \<and>
    dict_get (ib_rows (fst (settle_all (\<lambda>_. hex_zero) [sample_delivery] s1))) ''rin-a'' = Some row \<and>
    ir_status row = ''RECEIVED''"
proof -
  obtain s1 where s1: "settle_inbox_delivery (\<lambda>_. hex_zero) sample_delivery (sample_inbox, []) = (Inr ''ACK'', s1)"
    using sample_delivery_acked by blast
  from inbox_effect_is_exactly_once [OF s1, of "[sample_delivery]"] s1 show ?thesis
    by (auto simp: sample_delivery_def sample_inbox_def)
qed

text \<open>
  A message cannot circulate for ever: a delivery that returns is requeued only while its
  content is rejected and it is at most the third attempt; from the fourth on a rejected message is
  dead-lettered and an accepted one acknowledged.
\<close>

theorem requeue_is_bounded:
  assumes "persist_inbox_delivery sha d db = (Inr r, db')"
  shows "r = (if delivery_error sha d = None then ''ACK''
              else if bd_redelivery_count d < 4 then ''NACK_REQUEUE'' else ''NACK_DEAD_LETTER'')"
  using persist_Inr [OF assms] by (auto simp: MAX_ATTEMPTS_def)

theorem requeue_is_bounded_witness:
  "\<exists>db'. persist_inbox_delivery (\<lambda>_. hex_zero) sample_delivery sample_inbox = (Inr ''ACK'', db')"
proof -
  obtain s1 where "settle_inbox_delivery (\<lambda>_. hex_zero) sample_delivery (sample_inbox, []) = (Inr ''ACK'', s1)"
    using sample_delivery_acked by blast
  then obtain r db' where p: "persist_inbox_delivery (\<lambda>_. hex_zero) sample_delivery sample_inbox = (Inr r, db')"
      "r = ''ACK''"
    by (auto simp: settle_inbox_delivery_def split: prod.splits sum.splits)
  have "r = (if delivery_error (\<lambda>_. hex_zero) sample_delivery = None then ''ACK''
      else if bd_redelivery_count sample_delivery < 4 then ''NACK_REQUEUE'' else ''NACK_DEAD_LETTER'')"
    by (rule requeue_is_bounded [OF p(1)])
  with p show ?thesis by simp
qed

text \<open>
  A valid delivery of an event whose row is already poisoned is acknowledged and the row stays
  poisoned: its content is never received.
\<close>

theorem poisoned_event_swallows_valid_delivery:
  assumes "delivery_error sha d = None" and "1 \<le> bd_redelivery_count d" and "hex_digest (bd_payload_sha256 d)"
    and "dict_get (ib_rows db) (bd_event_id d) = Some row" and "ir_status row = ''POISON''"
  shows "persist_inbox_delivery sha d db = (Inr ''ACK'', db)"
  using assms by (simp add: persist_inbox_delivery_def classify_inbox_delivery_def insert_inbox_def row_for_def)

subsection \<open>The supervisor of sessions\<close>

text \<open>
  \<open>InboxConsumerWorker.run_forever\<close> over a finite list of what its sessions do: \<open>True\<close> for a session
  that ends, \<open>False\<close> for one that raises. \<open>stops\<close> answers \<open>stop_requested\<close>, asked before a session, and
  twice after one that ends (once after one that raises). The result is the list of pauses.
\<close>

record worker_settings =
  ws_empty_seconds :: rat
  ws_error_seconds :: rat

definition mk_worker_settings :: "worker_settings \<Rightarrow> worker_settings result" where
  "mk_worker_settings s =
     (if ws_empty_seconds s \<le> 0 then raise ValueError ''empty_seconds must be finite and positive'' []
      else if ws_error_seconds s \<le> 0 then raise ValueError ''error_seconds must be finite and positive'' []
      else Inr s)"

fun supervise :: "worker_settings \<Rightarrow> (bool \<times> bool) list \<Rightarrow> rat list" where
  "supervise ws [] = []"
| "supervise ws ((ended, stop_after) # rest) =
     (if stop_after then []
      else (if ended then ws_empty_seconds ws else ws_error_seconds ws) # supervise ws rest)"

end
