(* ===== verification/Revision_Diff.thy ===== *)
theory Revision_Diff
  imports Protocol
begin

section \<open>Parameter changes between two revisions (application/revision\_diff.py)\<close>

text \<open>
  What two revisions of one document say about every parameter of the matrix. The sets of the code
  are lists without equal members (\<open>py_eq\<close> on the value, so \<open>True\<close> and \<open>1.0\<close> are one member); the
  order in which Python iterates over such a set is an argument \<open>shuffle\<close>, and the theorems hold for
  every rearrangement.
\<close>

datatype change_kind = ADDED | REMOVED | CHANGED | UNCHANGED | AMBIGUOUS

fun change_kind_value :: "change_kind \<Rightarrow> string" where
  "change_kind_value ADDED = ''ADDED''"
| "change_kind_value REMOVED = ''REMOVED''"
| "change_kind_value CHANGED = ''CHANGED''"
| "change_kind_value UNCHANGED = ''UNCHANGED''"
| "change_kind_value AMBIGUOUS = ''AMBIGUOUS''"

record value_at =
  va_value :: "py_scalar option"
  va_unit :: "string option"
  va_page :: int
  va_grounded :: bool

record parameter_change =
  ch_rule_code :: string
  ch_kind :: change_kind
  ch_old :: "value_at option"
  ch_new :: "value_at option"

definition change_usable :: "parameter_change \<Rightarrow> bool" where
  "change_usable c = list_all (\<lambda>v. case v of None \<Rightarrow> True | Some x \<Rightarrow> va_grounded x) [ch_old c, ch_new c]"

type_synonym reading = "py_scalar option \<times> string option \<times> int \<times> bool"

definition reading_of :: "evidence_fragment \<Rightarrow> reading" where
  "reading_of fr = (normalized_value (extracted fr), ext_unit (extracted fr), page fr,
     usable_for_automatic_finding (extracted fr))"

fun same_value :: "reading \<Rightarrow> reading \<Rightarrow> bool" where
  "same_value (v, u, _) (v', u', _) = (py_eq v v' \<and> u = u')"

fun same_reading :: "reading \<Rightarrow> reading \<Rightarrow> bool" where
  "same_reading (v, u, pg, g) (v', u', pg', g') = (py_eq v v' \<and> u = u' \<and> pg = pg' \<and> g = g')"

definition set_add :: "reading \<Rightarrow> reading list \<Rightarrow> reading list" where
  "set_add r rs = (if list_ex (same_reading r) rs then rs else rs @ [r])"

definition readings_in :: "evidence_group list \<Rightarrow> string \<Rightarrow> (string \<times> reading) list" where
  "readings_in groups file_id =
     concat (map (\<lambda>g. map (\<lambda>fr. (group_rule_code g, reading_of fr))
         (filter (\<lambda>fr. doc_file_id (frag_document fr) = file_id)
           (fragments g @ prior_revision_fragments g))) groups)"

definition add_reading :: "string \<times> reading \<Rightarrow> (string, reading list) dict \<Rightarrow> (string, reading list) dict" where
  "add_reading cr found =
     dict_set (fst cr) (set_add (snd cr) (case dict_get found (fst cr) of None \<Rightarrow> [] | Some rs \<Rightarrow> rs)) found"

definition values_of :: "evidence_group list \<Rightarrow> string \<Rightarrow> (string, reading list) dict" where
  "values_of groups file_id = fold add_reading (readings_in groups file_id) []"

text \<open>\<open>min\<close> returns the first of the least members in the order of iteration.\<close>

definition single :: "(reading list \<Rightarrow> reading list) \<Rightarrow> reading list \<Rightarrow> value_at option" where
  "single shuffle items =
     (case items of
        [] \<Rightarrow> None
      | r # rs \<Rightarrow>
          if list_all (same_value r) rs
          then (case arg_min_list (\<lambda>(_, _, pg, _). pg) (shuffle items) of
              (v, u, pg, g) \<Rightarrow> Some \<lparr>va_value = v, va_unit = u, va_page = pg, va_grounded = g\<rparr>)
          else None)"

definition change_of ::
    "(reading list \<Rightarrow> reading list) \<Rightarrow> string \<Rightarrow> reading list \<Rightarrow> reading list \<Rightarrow> parameter_change" where
  "change_of shuffle code old_items new_items =
     (let old_value = (if old_items \<noteq> [] then single shuffle old_items else None);
          new_value = (if new_items \<noteq> [] then single shuffle new_items else None);
          kind = (if (old_items \<noteq> [] \<and> old_value = None) \<or> (new_items \<noteq> [] \<and> new_value = None) then AMBIGUOUS
                  else case (old_value, new_value) of
                    (None, _) \<Rightarrow> ADDED
                  | (_, None) \<Rightarrow> REMOVED
                  | (Some a, Some b) \<Rightarrow>
                      if py_eq (va_value a) (va_value b) \<and> va_unit a = va_unit b then UNCHANGED else CHANGED)
      in \<lparr>ch_rule_code = code, ch_kind = kind, ch_old = old_value, ch_new = new_value\<rparr>)"

definition diff_revisions ::
    "(reading list \<Rightarrow> reading list) \<Rightarrow> evidence_group list \<Rightarrow> document_ref \<Rightarrow> document_ref \<Rightarrow> parameter_change list result" where
  "diff_revisions shuffle groups old new =
     (if predecessor_file_id new \<noteq> Some (doc_file_id old)
      then raise RevisionChainError ''not a recorded successor; order is not guessed'' [doc_file_id new, doc_file_id old]
      else let before = values_of groups (doc_file_id old);
               after = values_of groups (doc_file_id new);
               items = (\<lambda>found code. case dict_get found code of None \<Rightarrow> [] | Some rs \<Rightarrow> rs)
           in Inr (map (\<lambda>code. change_of shuffle code (items before code) (items after code))
                (sorted_list_of_set (set (dict_keys before) \<union> set (dict_keys after)))))"

definition value_to_schema :: "value_at option \<Rightarrow> json" where
  "value_to_schema v =
     (case v of
        None \<Rightarrow> JNull
      | Some x \<Rightarrow> JObj [(''value'', case va_value x of None \<Rightarrow> JNull | Some s \<Rightarrow> scalar_json s),
          (''unit'', case va_unit x of None \<Rightarrow> JNull | Some s \<Rightarrow> JStr s),
          (''page'', JInt (va_page x)), (''grounded'', JBool (va_grounded x))])"

definition change_to_schema :: "parameter_change \<Rightarrow> json" where
  "change_to_schema c = JObj
     [(''rule_code'', JStr (ch_rule_code c)), (''kind'', JStr (change_kind_value (ch_kind c))),
      (''old'', value_to_schema (ch_old c)), (''new'', value_to_schema (ch_new c)),
      (''usable_for_automatic_finding'', JBool (change_usable c))]"

definition dict_setdefault :: "'k \<Rightarrow> 'v \<Rightarrow> ('k, 'v) dict \<Rightarrow> ('k, 'v) dict" where
  "dict_setdefault k v d = (if dict_get d k = None then dict_set k v d else d)"

definition documents_in :: "evidence_group list \<Rightarrow> (string, document_ref) dict" where
  "documents_in groups =
     fold (\<lambda>g found. fold (\<lambda>ref. dict_setdefault (doc_file_id ref) ref)
         (resolved_revisions g @ map frag_document (fragments g @ prior_revision_fragments g)) found) groups []"

text \<open>The body of a pair; \<open>keep\<close> selects the changes that are listed.\<close>

definition diff_payload :: "(parameter_change \<Rightarrow> bool) \<Rightarrow> document_ref \<Rightarrow> document_ref \<Rightarrow> parameter_change list \<Rightarrow> json" where
  "diff_payload keep old new changes = JObj
     [(''old_file_id'', JStr (doc_file_id old)), (''new_file_id'', JStr (doc_file_id new)),
      (''document_code'', JStr (document_code new)), (''old_revision'', JStr (revision old)),
      (''new_revision'', JStr (revision new)), (''changes'', JArr (map change_to_schema (filter keep changes)))]"

definition revision_diff_payload ::
    "(reading list \<Rightarrow> reading list) \<Rightarrow> evidence_group list \<Rightarrow> document_ref \<Rightarrow> document_ref \<Rightarrow> json result" where
  "revision_diff_payload shuffle groups old new =
     bindr (diff_revisions shuffle groups old new) (\<lambda>changes. Inr (diff_payload (\<lambda>_. True) old new changes))"

text \<open>One round of the loop of \<open>revision_changes\<close>: the pair of a document, when it is listed.\<close>

definition pair_changes ::
    "(reading list \<Rightarrow> reading list) \<Rightarrow> evidence_group list \<Rightarrow> (string, document_ref) dict \<Rightarrow> string \<Rightarrow> json list result" where
  "pair_changes shuffle groups documents file_id =
     (case dict_get documents file_id of
        None \<Rightarrow> raise KeyError file_id []
      | Some new \<Rightarrow>
          (case Option.bind (predecessor_file_id new) (dict_get documents) of
             None \<Rightarrow> Inr []
           | Some old \<Rightarrow>
               bindr (diff_revisions shuffle groups old new) (\<lambda>changes.
                 let kept = filter (\<lambda>c. ch_kind c \<noteq> UNCHANGED) changes
                 in if kept = [] then Inr []
                    else Inr [diff_payload (\<lambda>c. ch_kind c \<noteq> UNCHANGED) old new changes])))"

definition revision_changes :: "(reading list \<Rightarrow> reading list) \<Rightarrow> evidence_group list \<Rightarrow> json list result" where
  "revision_changes shuffle groups =
     (let documents = documents_in groups
      in bindr (traverse (pair_changes shuffle groups documents) (sort (dict_keys documents)))
           (\<lambda>pairs. Inr (concat pairs)))"

subsection \<open>Readings that agree\<close>

lemma py_eq_trans: "py_eq x y \<Longrightarrow> py_eq y z \<Longrightarrow> py_eq x z"
  by (cases x; cases y; cases z; cases "the x"; cases "the y"; cases "the z") (auto split: if_splits)

lemma same_value_refl [simp]: "same_value r r"
  by (cases r) simp

lemma same_value_sym: "same_value r r' \<Longrightarrow> same_value r' r"
  by (cases r; cases r') (simp add: py_eq_sym)

lemma same_value_trans: "same_value a b \<Longrightarrow> same_value b c \<Longrightarrow> same_value a c"
  by (cases a; cases b; cases c) (auto intro: py_eq_trans)

lemma same_reading_value: "same_reading r r' \<Longrightarrow> same_value r r'"
  by (cases r; cases r') simp

lemma same_reading_refl [simp]: "same_reading r r"
  by (cases r) simp

definition agree :: "reading set \<Rightarrow> bool" where
  "agree rs = (\<forall>x \<in> rs. \<forall>y \<in> rs. same_value x y)"

lemma agree_empty [simp]: "agree {}"
  by (simp add: agree_def)

lemma agree_from_one: "r \<in> rs \<Longrightarrow> agree rs \<longleftrightarrow> (\<forall>x \<in> rs. same_value r x)"
  unfolding agree_def by (meson same_value_sym same_value_trans)

lemma agree_cover:
  assumes "rs' \<subseteq> rs" and "\<And>r. r \<in> rs \<Longrightarrow> \<exists>r' \<in> rs'. same_value r r'"
  shows "agree rs' \<longleftrightarrow> agree rs"
proof
  assume a: "agree rs'"
  show "agree rs"
    unfolding agree_def
  proof (intro ballI)
    fix x y assume "x \<in> rs" "y \<in> rs"
    with assms(2) obtain x' y' where xy: "x' \<in> rs'" "y' \<in> rs'" "same_value x x'" "same_value y y'" by blast
    with a have "same_value x' y'" by (simp add: agree_def)
    with xy show "same_value x y" using same_value_sym same_value_trans by blast
  qed
next
  assume "agree rs"
  with assms(1) show "agree rs'" unfolding agree_def by blast
qed

lemma fold_set_add:
  "set (fold set_add rs acc) \<subseteq> set rs \<union> set acc \<and>
   (\<forall>r \<in> set rs \<union> set acc. \<exists>r' \<in> set (fold set_add rs acc). same_value r r')"
proof (induction rs arbitrary: acc)
  case Nil
  show ?case by simp (blast intro: same_value_refl)
next
  case (Cons r rs)
  have sub: "set (set_add r acc) \<subseteq> insert r (set acc)" "set acc \<subseteq> set (set_add r acc)"
    by (auto simp: set_add_def)
  have r: "\<exists>r' \<in> set (set_add r acc). same_value r r'"
    by (auto simp: set_add_def list_ex_iff dest: same_reading_value)
  let ?res = "set (fold set_add rs (set_add r acc))"
  have ih: "?res \<subseteq> set rs \<union> set (set_add r acc)"
      "\<And>x. x \<in> set rs \<union> set (set_add r acc) \<Longrightarrow> \<exists>r' \<in> ?res. same_value x r'"
    using Cons.IH [of "set_add r acc"] by blast+
  have "\<exists>r' \<in> ?res. same_value r r'"
    using r ih(2) same_value_trans by blast
  then have "\<exists>r' \<in> ?res. same_value x r'" if "x \<in> set (r # rs) \<union> set acc" for x
    using that ih(2) [of x] sub(2) by auto
  with ih(1) sub(1) show ?case by auto
qed

definition set_of :: "reading list \<Rightarrow> reading list" where
  "set_of rs = fold set_add rs []"

lemma set_of_sub: "set (set_of rs) \<subseteq> set rs"
  using fold_set_add [of rs "[]"] by (simp add: set_of_def)

lemma set_of_covers: "r \<in> set rs \<Longrightarrow> \<exists>r' \<in> set (set_of rs). same_value r r'"
  using fold_set_add [of rs "[]"] by (simp add: set_of_def)

lemma set_of_Nil_iff [simp]: "set_of rs = [] \<longleftrightarrow> rs = []"
proof
  assume "set_of rs = []"
  then show "rs = []" using set_of_covers [of "hd rs" rs] by (cases rs) auto
qed (simp add: set_of_def)

lemma agree_set_of [simp]: "agree (set (set_of rs)) \<longleftrightarrow> agree (set rs)"
  by (rule agree_cover) (use set_of_sub set_of_covers in auto)

text \<open>What the groups say in a file about a rule.\<close>

definition readings :: "evidence_group list \<Rightarrow> string \<Rightarrow> string \<Rightarrow> reading list" where
  "readings groups file_id code = map snd (filter (\<lambda>cr. fst cr = code) (readings_in groups file_id))"

lemma fold_add_reading:
  "dict_get (fold add_reading crs found) code =
     (let rs = map snd (filter (\<lambda>cr. fst cr = code) crs)
      in if rs = [] then dict_get found code
         else Some (fold set_add rs (case dict_get found code of None \<Rightarrow> [] | Some xs \<Rightarrow> xs)))"
  by (induction crs arbitrary: found) (auto simp: add_reading_def Let_def dict_get_set split: option.splits)

lemma values_of_get:
  "dict_get (values_of groups file_id) code =
     (let rs = readings groups file_id code in if rs = [] then None else Some (set_of rs))"
  by (simp add: values_of_def fold_add_reading readings_def set_of_def)

lemma values_of_keys: "fst ` set (values_of groups file_id) = fst ` set (readings_in groups file_id)"
proof -
  have "code \<in> fst ` set (values_of groups file_id) \<longleftrightarrow> dict_get (values_of groups file_id) code \<noteq> None" for code
    by (simp add: map_of_eq_None_iff)
  moreover have "dict_get (values_of groups file_id) code \<noteq> None \<longleftrightarrow> readings groups file_id code \<noteq> []" for code
    by (simp add: values_of_get Let_def)
  moreover have "readings groups file_id code \<noteq> [] \<longleftrightarrow> code \<in> fst ` set (readings_in groups file_id)" for code
    by (force simp: readings_def filter_empty_conv)
  ultimately show ?thesis by blast
qed

text \<open>What one document says about a rule, in any order of iteration.\<close>

lemma single_None:
  assumes "rs \<noteq> []"
  shows "single shuffle rs = None \<longleftrightarrow> \<not> agree (set rs)"
proof -
  obtain r rest where rs: "rs = r # rest" using assms by (cases rs) auto
  have "agree (set rs) \<longleftrightarrow> list_all (same_value r) rest"
    using agree_from_one [of r "set rs"] by (auto simp: rs list_all_iff)
  then show ?thesis by (auto simp: rs single_def split: prod.splits)
qed

lemma single_Some:
  assumes "\<And>xs. set (shuffle xs) = set xs" and "single shuffle rs = Some v"
  shows "rs \<noteq> [] \<and> agree (set rs) \<and> (va_value v, va_unit v, va_page v, va_grounded v) \<in> set rs"
proof -
  have rs: "rs \<noteq> []" using assms(2) by (auto simp: single_def)
  with assms(1) [of rs] have "shuffle rs \<noteq> []" by auto
  then have "arg_min_list (\<lambda>(_, _, pg, _). pg) (shuffle rs) \<in> set rs"
    using arg_min_list_in assms(1) by metis
  moreover have "agree (set rs)" using single_None [OF rs, of shuffle] assms(2) by simp
  ultimately show ?thesis using assms(2) rs by (auto simp: single_def split: list.splits if_splits prod.splits)
qed

lemma change_of_kind:
  assumes sh: "\<And>xs. set (shuffle xs) = set xs" and "olds \<noteq> [] \<or> news \<noteq> []"
  shows "ch_kind (change_of shuffle code (set_of olds) (set_of news)) =
    (if \<not> agree (set olds) \<or> \<not> agree (set news) then AMBIGUOUS
     else if olds = [] then ADDED
     else if news = [] then REMOVED
     else if agree (set olds \<union> set news) then UNCHANGED
     else CHANGED)"
proof (cases "agree (set olds) \<and> agree (set news) \<and> olds \<noteq> [] \<and> news \<noteq> []")
  case False
  then show ?thesis
    using assms(2) single_None [of "set_of olds" shuffle] single_None [of "set_of news" shuffle]
    by (cases "single shuffle (set_of olds)"; cases "single shuffle (set_of news)") (auto simp: change_of_def Let_def)
next
  case True
  then obtain a b where ab: "single shuffle (set_of olds) = Some a" "single shuffle (set_of news) = Some b"
    using single_None [of "set_of olds" shuffle] single_None [of "set_of news" shuffle] by auto
  let ?ra = "(va_value a, va_unit a, va_page a, va_grounded a)"
  let ?rb = "(va_value b, va_unit b, va_page b, va_grounded b)"
  have a: "?ra \<in> set olds" and b: "?rb \<in> set news"
    using single_Some [OF sh ab(1)] single_Some [OF sh ab(2)] set_of_sub by blast+
  have "agree (set olds \<union> set news) \<longleftrightarrow> same_value ?ra ?rb"
  proof
    assume "same_value ?ra ?rb"
    then have "\<forall>x \<in> set olds \<union> set news. same_value ?ra x"
      using True a b same_value_trans unfolding agree_def by blast
    then show "agree (set olds \<union> set news)" using agree_from_one [of ?ra "set olds \<union> set news"] a by blast
  qed (use a b in \<open>unfold agree_def, blast\<close>)
  with True ab show ?thesis by (simp add: change_of_def)
qed

subsection \<open>Properties\<close>

text \<open>
  C22. The comparison of two recorded revisions lists every rule either of them has a reading of,
  once and in order, and classifies it by the readings themselves: ambiguous when one of the
  documents contradicts itself, added or removed when only one has readings, unchanged when all
  readings of both are one value in one unit, changed otherwise. A listed value was read in its
  document. The order of a Python set does not matter.
\<close>

theorem revision_changes_are_classified:
  assumes "diff_revisions shuffle groups old new = Inr changes" and "\<And>xs. set (shuffle xs) = set xs"
  shows "sorted (map ch_rule_code changes) \<and> distinct (map ch_rule_code changes) \<and>
    set (map ch_rule_code changes) =
      fst ` (set (readings_in groups (doc_file_id old)) \<union> set (readings_in groups (doc_file_id new))) \<and>
    (\<forall>c \<in> set changes.
      let olds = readings groups (doc_file_id old) (ch_rule_code c);
          news = readings groups (doc_file_id new) (ch_rule_code c)
      in ch_kind c = (if \<not> agree (set olds) \<or> \<not> agree (set news) then AMBIGUOUS
           else if olds = [] then ADDED else if news = [] then REMOVED
           else if agree (set olds \<union> set news) then UNCHANGED else CHANGED) \<and>
         (\<forall>v. ch_old c = Some v \<longrightarrow> (va_value v, va_unit v, va_page v, va_grounded v) \<in> set olds) \<and>
         (\<forall>v. ch_new c = Some v \<longrightarrow> (va_value v, va_unit v, va_page v, va_grounded v) \<in> set news))"
proof -
  let ?codes = "fst ` set (readings_in groups (doc_file_id old)) \<union> fst ` set (readings_in groups (doc_file_id new))"
  let ?c = "\<lambda>code. change_of shuffle code (set_of (readings groups (doc_file_id old) code))
    (set_of (readings groups (doc_file_id new) code))"
  have items: "(case dict_get (values_of groups f) code of None \<Rightarrow> [] | Some rs \<Rightarrow> rs) =
      set_of (readings groups f code)" for f code
    by (simp add: values_of_get Let_def set_of_def)
  have changes: "changes = map ?c (sorted_list_of_set ?codes)"
    using assms(1) by (auto simp: diff_revisions_def items values_of_keys Let_def split: if_splits)
  have fin: "finite ?codes" by simp
  have code: "ch_rule_code (change_of shuffle code xs ys) = code" for code xs ys
    by (simp add: change_of_def Let_def)
  have names: "map ch_rule_code changes = sorted_list_of_set ?codes"
    by (simp add: changes code comp_def)
  have one: "ch_kind (?c code) = (if \<not> agree (set olds) \<or> \<not> agree (set news) then AMBIGUOUS
           else if olds = [] then ADDED else if news = [] then REMOVED
           else if agree (set olds \<union> set news) then UNCHANGED else CHANGED)"
    if "code \<in> ?codes" "olds = readings groups (doc_file_id old) code"
       "news = readings groups (doc_file_id new) code" for code olds news
  proof -
    have "olds \<noteq> [] \<or> news \<noteq> []" using that by (force simp: readings_def filter_empty_conv)
    from change_of_kind [OF assms(2) this] that show ?thesis by simp
  qed
  have val: "(va_value v, va_unit v, va_page v, va_grounded v) \<in> set rs"
    if "single shuffle (set_of rs) = Some v" for rs v
    using single_Some [OF assms(2) that] set_of_sub by blast
  have old: "ch_old (?c code) = Some v \<Longrightarrow> single shuffle (set_of (readings groups (doc_file_id old) code)) = Some v"
    and new: "ch_new (?c code) = Some v \<Longrightarrow> single shuffle (set_of (readings groups (doc_file_id new) code)) = Some v"
    for code v by (simp_all add: change_of_def Let_def split: if_splits)
  show ?thesis
  proof (intro conjI ballI)
    show "sorted (map ch_rule_code changes)" "distinct (map ch_rule_code changes)" unfolding names by simp_all
    show "set (map ch_rule_code changes) = fst ` (set (readings_in groups (doc_file_id old)) \<union>
        set (readings_in groups (doc_file_id new)))"
      unfolding names using fin by (simp add: image_Un)
  next
    fix c assume "c \<in> set changes"
    then obtain code where c: "c = ?c code" "code \<in> ?codes" using changes fin by auto
    show "let olds = readings groups (doc_file_id old) (ch_rule_code c);
          news = readings groups (doc_file_id new) (ch_rule_code c)
      in ch_kind c = (if \<not> agree (set olds) \<or> \<not> agree (set news) then AMBIGUOUS
           else if olds = [] then ADDED else if news = [] then REMOVED
           else if agree (set olds \<union> set news) then UNCHANGED else CHANGED) \<and>
         (\<forall>v. ch_old c = Some v \<longrightarrow> (va_value v, va_unit v, va_page v, va_grounded v) \<in> set olds) \<and>
         (\<forall>v. ch_new c = Some v \<longrightarrow> (va_value v, va_unit v, va_page v, va_grounded v) \<in> set news)"
      unfolding Let_def c(1) code
      by (intro conjI allI impI one [OF c(2) refl refl] val old new)
  qed
qed

definition keyed :: "(string, document_ref) dict \<Rightarrow> bool" where
  "keyed d = (\<forall>i ref. dict_get d i = Some ref \<longrightarrow> doc_file_id ref = i)"

lemma keyed_setdefault: "keyed d \<Longrightarrow> keyed (dict_setdefault (doc_file_id ref) ref d)"
  by (simp add: keyed_def dict_setdefault_def dict_get_set)

lemma keyed_documents: "keyed (documents_in groups)"
  unfolding documents_in_def
  by (rule fold_invariant [where Q = "\<lambda>_. True"], simp, simp add: keyed_def)
    (rule fold_invariant [where Q = "\<lambda>_. True"], simp, assumption, rule keyed_setdefault)

lemma documents_keyed: "dict_get (documents_in groups) i = Some d \<Longrightarrow> doc_file_id d = i"
  using keyed_documents unfolding keyed_def by blast

lemma pair_changes_total:
  assumes "i \<in> set (dict_keys (documents_in groups))"
  shows "\<exists>ps. pair_changes shuffle groups (documents_in groups) i = Inr ps \<and>
    (\<forall>p. p \<in> set ps \<longleftrightarrow> (\<exists>old new changes. dict_get (documents_in groups) i = Some new \<and>
       predecessor_file_id new = Some (doc_file_id old) \<and>
       dict_get (documents_in groups) (doc_file_id old) = Some old \<and>
       diff_revisions shuffle groups old new = Inr changes \<and>
       (\<exists>c \<in> set changes. ch_kind c \<noteq> UNCHANGED) \<and>
       p = diff_payload (\<lambda>c. ch_kind c \<noteq> UNCHANGED) old new changes))"
proof -
  from assms have "dict_get (documents_in groups) i \<noteq> None" by (simp add: map_of_eq_None_iff)
  then obtain new where new: "dict_get (documents_in groups) i = Some new" by blast
  show ?thesis
  proof (cases "Option.bind (predecessor_file_id new) (dict_get (documents_in groups))")
    case None
    with new show ?thesis by (auto simp: pair_changes_def)
  next
    case (Some old)
    then have pred: "predecessor_file_id new = Some (doc_file_id old)"
        "dict_get (documents_in groups) (doc_file_id old) = Some old"
      using documents_keyed by (auto simp: bind_eq_Some_conv)
    then obtain changes where ch: "diff_revisions shuffle groups old new = Inr changes"
      by (simp add: diff_revisions_def Let_def)
    let ?p = "diff_payload (\<lambda>c. ch_kind c \<noteq> UNCHANGED) old new changes"
    have "pair_changes shuffle groups (documents_in groups) i =
        Inr (if \<exists>c \<in> set changes. ch_kind c \<noteq> UNCHANGED then [?p] else [])"
      using new Some ch by (simp add: pair_changes_def Let_def filter_empty_conv)
    moreover have "(\<exists>old' new' changes'. dict_get (documents_in groups) i = Some new' \<and>
        predecessor_file_id new' = Some (doc_file_id old') \<and>
        dict_get (documents_in groups) (doc_file_id old') = Some old' \<and>
        diff_revisions shuffle groups old' new' = Inr changes' \<and>
        (\<exists>c \<in> set changes'. ch_kind c \<noteq> UNCHANGED) \<and>
        p = diff_payload (\<lambda>c. ch_kind c \<noteq> UNCHANGED) old' new' changes') \<longleftrightarrow>
      (\<exists>c \<in> set changes. ch_kind c \<noteq> UNCHANGED) \<and> p = ?p" for p
      using new pred ch by auto
    ultimately show ?thesis by auto
  qed
qed

text \<open>
  C23. The revision changes of a package are always computed, and they are the pairs of documents of
  the package one of which records the other as its predecessor, each with the parameters that are
  not unchanged, and only those pairs that have one.
\<close>

theorem every_recorded_pair_is_compared:
  "\<exists>pairs. revision_changes shuffle groups = Inr pairs \<and>
    set pairs = {p. \<exists>old new changes. dict_get (documents_in groups) (doc_file_id new) = Some new \<and>
      dict_get (documents_in groups) (doc_file_id old) = Some old \<and>
      predecessor_file_id new = Some (doc_file_id old) \<and>
      diff_revisions shuffle groups old new = Inr changes \<and>
      (\<exists>c \<in> set changes. ch_kind c \<noteq> UNCHANGED) \<and>
      p = diff_payload (\<lambda>c. ch_kind c \<noteq> UNCHANGED) old new changes}"
proof -
  let ?keys = "sort (dict_keys (documents_in groups))"
  have "\<forall>i \<in> set ?keys. \<exists>ps. pair_changes shuffle groups (documents_in groups) i = Inr ps"
    using pair_changes_total by (metis set_sort)
  then obtain pss where pss: "traverse (pair_changes shuffle groups (documents_in groups)) ?keys = Inr pss"
    using traverse_ok_iff by blast
  have in_keys: "i \<in> set ?keys" if "dict_get (documents_in groups) i = Some d" for i d
    using that by (force dest: map_of_SomeD)
  have "p \<in> set (concat pss) \<longleftrightarrow> (\<exists>i \<in> set ?keys. \<exists>ps.
      pair_changes shuffle groups (documents_in groups) i = Inr ps \<and> p \<in> set ps)" for p
  proof
    assume "p \<in> set (concat pss)"
    then obtain ps where "ps \<in> set pss" "p \<in> set ps" by auto
    with traverse_bwd [OF pss] show "\<exists>i \<in> set ?keys. \<exists>ps.
      pair_changes shuffle groups (documents_in groups) i = Inr ps \<and> p \<in> set ps" by blast
  next
    assume "\<exists>i \<in> set ?keys. \<exists>ps. pair_changes shuffle groups (documents_in groups) i = Inr ps \<and> p \<in> set ps"
    then obtain i ps where "i \<in> set ?keys" "pair_changes shuffle groups (documents_in groups) i = Inr ps" "p \<in> set ps"
      by blast
    with traverse_fwd [OF pss, of i] have "ps \<in> set pss" by (metis sum.inject(2))
    with \<open>p \<in> set ps\<close> show "p \<in> set (concat pss)" by auto
  qed
  moreover have "(\<exists>i \<in> set ?keys. \<exists>ps. pair_changes shuffle groups (documents_in groups) i = Inr ps \<and> p \<in> set ps) \<longleftrightarrow>
      (\<exists>old new changes. dict_get (documents_in groups) (doc_file_id new) = Some new \<and>
        dict_get (documents_in groups) (doc_file_id old) = Some old \<and>
        predecessor_file_id new = Some (doc_file_id old) \<and>
        diff_revisions shuffle groups old new = Inr changes \<and>
        (\<exists>c \<in> set changes. ch_kind c \<noteq> UNCHANGED) \<and>
        p = diff_payload (\<lambda>c. ch_kind c \<noteq> UNCHANGED) old new changes)" (is "?L \<longleftrightarrow> ?R") for p
  proof
    assume ?L
    then obtain i ps where i: "i \<in> set (dict_keys (documents_in groups))"
        "pair_changes shuffle groups (documents_in groups) i = Inr ps" "p \<in> set ps" by auto
    from pair_changes_total [OF i(1), of shuffle] i(2,3) obtain old new changes where
      "dict_get (documents_in groups) i = Some new" "predecessor_file_id new = Some (doc_file_id old)"
      "dict_get (documents_in groups) (doc_file_id old) = Some old"
      "diff_revisions shuffle groups old new = Inr changes" "\<exists>c \<in> set changes. ch_kind c \<noteq> UNCHANGED"
      "p = diff_payload (\<lambda>c. ch_kind c \<noteq> UNCHANGED) old new changes" by auto
    with documents_keyed [of groups i new] show ?R by blast
  next
    assume ?R
    then obtain old new changes where R: "dict_get (documents_in groups) (doc_file_id new) = Some new"
      "predecessor_file_id new = Some (doc_file_id old)"
      "dict_get (documents_in groups) (doc_file_id old) = Some old"
      "diff_revisions shuffle groups old new = Inr changes" "\<exists>c \<in> set changes. ch_kind c \<noteq> UNCHANGED"
      "p = diff_payload (\<lambda>c. ch_kind c \<noteq> UNCHANGED) old new changes" by blast
    have i: "doc_file_id new \<in> set (dict_keys (documents_in groups))" using in_keys [OF R(1)] by simp
    from pair_changes_total [OF i, of shuffle] obtain ps where
      "pair_changes shuffle groups (documents_in groups) (doc_file_id new) = Inr ps" "p \<in> set ps" using R by blast
    moreover have "doc_file_id new \<in> set ?keys" using i by (simp only: set_sort)
    ultimately show ?L by blast
  qed
  ultimately have "set (concat pss) = {p. \<exists>old new changes. dict_get (documents_in groups) (doc_file_id new) = Some new \<and>
      dict_get (documents_in groups) (doc_file_id old) = Some old \<and>
      predecessor_file_id new = Some (doc_file_id old) \<and>
      diff_revisions shuffle groups old new = Inr changes \<and>
      (\<exists>c \<in> set changes. ch_kind c \<noteq> UNCHANGED) \<and>
      p = diff_payload (\<lambda>c. ch_kind c \<noteq> UNCHANGED) old new changes}"
    by blast
  with pss show ?thesis by (simp add: revision_changes_def Let_def)
qed

subsection \<open>A value that changed\<close>

definition sheet_of :: "string \<Rightarrow> string option \<Rightarrow> document_ref" where
  "sheet_of i prior = \<lparr>doc_file_id = i, doc_file_hash = i, doc_stage = PD, document_code = ''AR'', revision = [],
     approval_status = UNKNOWN, approval_basis = UNPROVEN, discipline = None, approval_date = None,
     sheet = None, predecessor_file_id = prior, successor_file_id = None, source_name = [], revision_kind = []\<rparr>"

definition value_on :: "document_ref \<Rightarrow> rat \<Rightarrow> evidence_fragment" where
  "value_on d v = \<lparr>fragment_id = ''e'', frag_role = EXPECTED, frag_document = d, page = 1,
     polygon_source = [], polygon_norm = [],
     extracted = \<lparr>raw_token = [], engine = VECTOR, engine_version = [], confidence = 1, normalized_value = Some (PyFloat v),
       ext_unit = None, grounded_in_source_tokens = True, second_read_agrees = None, confidence_features = []\<rparr>,
     room_id = None\<rparr>"

definition changed_group :: evidence_group where
  "changed_group = \<lparr>group_id = ''g'', group_object_id = [], group_rule_code = ''PZ-001'', group_matrix_version = [],
     fragments = [value_on (sheet_of ''a'' None) 5, value_on (sheet_of ''b'' (Some ''a'')) 6],
     resolved_revisions = [], prior_revision_fragments = []\<rparr>"

theorem revision_changes_are_classified_witness:
  "\<exists>c. diff_revisions (\<lambda>x. x) [changed_group] (sheet_of ''a'' None) (sheet_of ''b'' (Some ''a'')) = Inr [c] \<and>
     ch_rule_code c = ''PZ-001'' \<and> ch_kind c = CHANGED"
proof -
  obtain c where c: "diff_revisions (\<lambda>x. x) [changed_group] (sheet_of ''a'' None) (sheet_of ''b'' (Some ''a'')) = Inr [c]"
      "ch_rule_code c = ''PZ-001''"
    by (simp add: diff_revisions_def changed_group_def sheet_of_def value_on_def values_of_def readings_in_def add_reading_def
        reading_of_def set_add_def change_of_def Let_def)
  from revision_changes_are_classified [OF c(1) refl]
  have "ch_kind c = (let olds = readings [changed_group] ''a'' ''PZ-001''; news = readings [changed_group] ''b'' ''PZ-001''
     in if \<not> agree (set olds) \<or> \<not> agree (set news) then AMBIGUOUS
           else if olds = [] then ADDED else if news = [] then REMOVED
           else if agree (set olds \<union> set news) then UNCHANGED else CHANGED)"
    using c(2) by (simp add: Let_def sheet_of_def)
  moreover have "readings [changed_group] ''a'' ''PZ-001'' = [(Some (PyFloat 5), None, 1, usable_for_automatic_finding (extracted (value_on (sheet_of ''a'' None) 5)))]"
      "readings [changed_group] ''b'' ''PZ-001'' = [(Some (PyFloat 6), None, 1, usable_for_automatic_finding (extracted (value_on (sheet_of ''b'' (Some ''a'')) 6)))]"
    by (simp_all add: readings_def readings_in_def changed_group_def sheet_of_def value_on_def reading_of_def)
  ultimately have "ch_kind c = CHANGED" by (simp add: Let_def agree_def)
  with c show ?thesis by blast
qed

end
