(* ===== verification/Intake.thy ===== *)
theory Intake
  imports Py_Text "HOL-Library.Multiset"
begin

section \<open>Accepting uploaded files (application/intake.py, infrastructure/clamd.py, presentation/upload\_limits.py)\<close>

text \<open>
  The gate every uploaded file passes: the bounded read that hashes it, the antivirus, the checks of
  one file in the order of the code and the decision on the batch. A byte string is a \<open>string\<close> whose
  characters are the bytes. The digest, the directory of a zip file (\<open>zipfile\<close>: the pairs of
  compressed and plain size, \<open>None\<close> when it is damaged) and the antivirus daemon are arguments. The
  detail of a rejection is its fixed text with the values it interpolates.
\<close>

type_synonym bytes = string

definition BOMB_EXPAND_RATIO :: int where
  "BOMB_EXPAND_RATIO = 100"

definition BOMB_UNCOMPRESSED_BYTES :: int where
  "BOMB_UNCOMPRESSED_BYTES = 100 * 1024 * 1024"

definition MAX_FILE_BYTES :: int where
  "MAX_FILE_BYTES = 50 * 1024 * 1024"

definition MAX_BATCH_BYTES :: int where
  "MAX_BATCH_BYTES = 200 * 1024 * 1024"

definition BATCH_SCOPE :: string where
  "BATCH_SCOPE = ''*''"

definition ALLOWED_DOCUMENT_SUFFIXES :: "string list" where
  "ALLOWED_DOCUMENT_SUFFIXES = [''.pdf'', ''.docx'', ''.xml'']"

definition ALLOWED_ARCHIVE_SUFFIXES :: "string list" where
  "ALLOWED_ARCHIVE_SUFFIXES = [''.zip'', ''.7z'', ''.rar'']"

definition ALLOWED_SUFFIXES :: "string list" where
  "ALLOWED_SUFFIXES = ALLOWED_DOCUMENT_SUFFIXES @ ALLOWED_ARCHIVE_SUFFIXES"

definition MAGIC_PREFIXES :: "(string, bytes list) dict" where
  "MAGIC_PREFIXES =
     [(''.pdf'', [''%PDF-'']),
      (''.docx'', [[CHR ''P'', CHR ''K'', CHR 0x03, CHR 0x04]]),
      (''.xml'', [''<'', [CHR 0xEF, CHR 0xBB, CHR 0xBF, CHR ''<'']]),
      (''.zip'', [[CHR ''P'', CHR ''K'', CHR 0x03, CHR 0x04], [CHR ''P'', CHR ''K'', CHR 0x05, CHR 0x06],
                 [CHR ''P'', CHR ''K'', CHR 0x07, CHR 0x08]]),
      (''.7z'', [[CHR ''7'', CHR ''z'', CHR 0xBC, CHR 0xAF, CHR 0x27, CHR 0x1C]]),
      (''.rar'', [''Rar!'' @ [CHR 0x1A, CHR 0x07, CHR 0x00], ''Rar!'' @ [CHR 0x1A, CHR 0x07, CHR 0x01, CHR 0x00]])]"

definition MAX_NAME_BYTES :: nat where
  "MAX_NAME_BYTES = 255"

datatype rejection_reason =
    UNSUPPORTED_FORMAT | CORRUPTED_FILE | FILE_TOO_LARGE | BATCH_LIMIT_EXCEEDED | ANTIVIRUS_REJECTED
  | ENCRYPTED_FILE | PROCESSING_TIMEOUT | UNSAFE_FILENAME

fun HTTP_STATUS :: "rejection_reason \<Rightarrow> int" where
  "HTTP_STATUS UNSUPPORTED_FORMAT = 415"
| "HTTP_STATUS CORRUPTED_FILE = 422"
| "HTTP_STATUS FILE_TOO_LARGE = 413"
| "HTTP_STATUS BATCH_LIMIT_EXCEEDED = 413"
| "HTTP_STATUS ANTIVIRUS_REJECTED = 422"
| "HTTP_STATUS ENCRYPTED_FILE = 422"
| "HTTP_STATUS PROCESSING_TIMEOUT = 504"
| "HTTP_STATUS UNSAFE_FILENAME = 422"

record upload_candidate =
  up_filename :: string
  up_size_bytes :: int
  up_header :: "bytes option"
  up_content_hash :: "string option"

definition mk_candidate :: "upload_candidate \<Rightarrow> upload_candidate result" where
  "mk_candidate c = (if up_size_bytes c < 0 then raise ValueError ''size may not be negative'' [] else Inr c)"

record rejection =
  rej_filename :: string
  rej_reason :: rejection_reason
  rej_detail :: string

record intake_decision =
  accepted :: "upload_candidate list"
  rejected :: "rejection list"
  duplicates :: "upload_candidate list"

definition intake_ok :: "intake_decision \<Rightarrow> bool" where
  "intake_ok d = (rejected d = [])"

definition intake_http_status :: "intake_decision \<Rightarrow> int" where
  "intake_http_status d =
     (if rejected d = [] then 202 else Max (set (map (\<lambda>r. HTTP_STATUS (rej_reason r)) (rejected d))))"

subsection \<open>One file\<close>

text \<open>\<open>PurePosixPath(filename).suffix.lower()\<close>: the last part of the path and its last dot.\<close>

definition path_name :: "string \<Rightarrow> string" where
  "path_name filename =
     (case filter (\<lambda>p. p \<noteq> [] \<and> p \<noteq> ''.'') (split_on (CHR ''/'') filename) of [] \<Rightarrow> [] | ps \<Rightarrow> last ps)"

definition suffix_of :: "string \<Rightarrow> string" where
  "suffix_of filename =
     (let name = path_name filename; i = rfind (CHR ''.'') name
      in str_lower (if 0 < i \<and> i < int (length name) - 1 then drop (nat i) name else []))"

text \<open>The length of a name in UTF-8: two bytes for a letter, three for the marks of the code page.\<close>

definition utf8_width :: "char \<Rightarrow> nat" where
  "utf8_width c =
     (let n = of_char c :: nat
      in if n < 128 then 1
         else if n \<in> set [130, 132, 133, 134, 135, 136, 137, 139, 145, 146, 147, 148, 149, 150, 151, 153, 155, 185]
         then 3 else 2)"

definition is_control :: "char \<Rightarrow> bool" where
  "is_control c = ((of_char c :: nat) < 32 \<or> (of_char c :: nat) = 127)"

definition filename_is_safe :: "string \<Rightarrow> bool" where
  "filename_is_safe filename =
     (if filename = [] \<or> filename \<noteq> strip filename then False
      else if list_ex is_control filename \<or> list_ex (\<lambda>c. c = CHR 0x5C \<or> c = CHR ''/'') filename then False
      else if filename \<in> set [''.'', ''..''] \<or> starts_with filename ''..'' then False
      else sum_list (map utf8_width filename) \<le> MAX_NAME_BYTES)"

definition header_matches_suffix :: "string \<Rightarrow> bytes option \<Rightarrow> bool" where
  "header_matches_suffix suffix header =
     (case header of
        None \<Rightarrow> True
      | Some h \<Rightarrow>
          (case dict_get MAGIC_PREFIXES suffix of
             None \<Rightarrow> True
           | Some ps \<Rightarrow> if ps = [] then True else list_ex (starts_with h) ps))"

type_synonym zip_directory = "bytes \<Rightarrow> (int \<times> int) list option"

definition archive_looks_like_bomb :: "zip_directory \<Rightarrow> bytes \<Rightarrow> bool" where
  "archive_looks_like_bomb directory payload =
     (if \<not> starts_with payload [CHR ''P'', CHR ''K'', CHR 0x03, CHR 0x04] then False
      else case directory payload of
        None \<Rightarrow> False
      | Some infos \<Rightarrow>
          let compressed = sum_list (map (\<lambda>(c, u). max 0 c) infos);
              uncompressed = sum_list (map (\<lambda>(c, u). max 0 u) infos)
          in if uncompressed > BOMB_UNCOMPRESSED_BYTES then True
             else if compressed > 0 \<and> uncompressed > BOMB_EXPAND_RATIO * compressed then True
             else False)"

definition reject :: "string \<Rightarrow> rejection_reason \<Rightarrow> string \<Rightarrow> rejection option" where
  "reject name why detail = Some \<lparr>rej_filename = name, rej_reason = why, rej_detail = detail\<rparr>"

definition check_file :: "zip_directory \<Rightarrow> upload_candidate \<Rightarrow> rejection option" where
  "check_file directory c =
     (let name = up_filename c
      in if \<not> filename_is_safe name then reject name UNSAFE_FILENAME ''separator, dots or control character in the name''
         else let suffix = suffix_of name
              in if suffix \<notin> set ALLOWED_SUFFIXES then reject name UNSUPPORTED_FORMAT (''extension '' @ suffix)
                 else if up_size_bytes c = 0 then reject name CORRUPTED_FILE ''empty file''
                 else if up_size_bytes c > MAX_FILE_BYTES then
                   reject name FILE_TOO_LARGE (show_int (up_size_bytes c) @ '' B over the limit'')
                 else if \<not> header_matches_suffix suffix (up_header c) then
                   reject name CORRUPTED_FILE (''signature is not that of '' @ suffix)
                 else if suffix \<in> set [''.zip'', ''.docx''] \<and>
                     (case up_header c of None \<Rightarrow> False | Some h \<Rightarrow> archive_looks_like_bomb directory h) then
                   reject name CORRUPTED_FILE ''archive bomb''
                 else None)"

subsection \<open>A batch\<close>

text \<open>One round of the loop; the state is the accepted, rejected and duplicate lists and the hashes seen.\<close>

definition batch_step ::
    "zip_directory \<Rightarrow> upload_candidate \<Rightarrow> intake_decision \<times> string list \<Rightarrow> intake_decision \<times> string list" where
  "batch_step directory c = (\<lambda>(d, seen).
     case check_file directory c of
       Some problem \<Rightarrow> (d\<lparr>rejected := rejected d @ [problem]\<rparr>, seen)
     | None \<Rightarrow>
         (case up_content_hash c of
            Some h \<Rightarrow>
              if h \<in> set seen then (d\<lparr>duplicates := duplicates d @ [c]\<rparr>, seen)
              else (d\<lparr>accepted := accepted d @ [c]\<rparr>, seen @ [h])
          | None \<Rightarrow> (d\<lparr>accepted := accepted d @ [c]\<rparr>, seen)))"

definition empty_decision :: intake_decision where
  "empty_decision = \<lparr>accepted = [], rejected = [], duplicates = []\<rparr>"

definition evaluate_batch :: "zip_directory \<Rightarrow> upload_candidate list \<Rightarrow> intake_decision" where
  "evaluate_batch directory items =
     (let total = sum_list (map up_size_bytes items)
      in if total > MAX_BATCH_BYTES
         then empty_decision\<lparr>rejected := [\<lparr>rej_filename = BATCH_SCOPE, rej_reason = BATCH_LIMIT_EXCEEDED,
                rej_detail = show_int total @ '' B over the limit''\<rparr>]\<rparr>
         else fst (fold (batch_step directory) items (empty_decision, [])))"

subsection \<open>The antivirus (clamd.py)\<close>

datatype av_status = CLEAN | INFECTED | UNAVAILABLE | NOT_CONFIGURED

fun av_status_value :: "av_status \<Rightarrow> string" where
  "av_status_value CLEAN = ''CLEAN''"
| "av_status_value INFECTED = ''INFECTED''"
| "av_status_value UNAVAILABLE = ''UNAVAILABLE''"
| "av_status_value NOT_CONFIGURED = ''NOT_CONFIGURED''"

definition ends_with :: "string \<Rightarrow> string \<Rightarrow> bool" where
  "ends_with s p = starts_with (rev s) (rev p)"

definition parse_clamd_reply :: "string \<Rightarrow> av_status \<times> string" where
  "parse_clamd_reply reply =
     (let cleaned = strip (filter (\<lambda>c. c \<noteq> CHR 0x00) reply)
      in if ends_with cleaned ''OK'' then (CLEAN, [])
         else if ends_with cleaned ''FOUND'' then
           (INFECTED, or_str (Some (strip (case split1 (CHR '':'') cleaned of None \<Rightarrow> cleaned | Some (_, r) \<Rightarrow> r))) ''FOUND'')
         else if cleaned = [] then (UNAVAILABLE, ''no answer'')
         else (UNAVAILABLE, ''unexpected answer: '' @ take 200 cleaned))"

definition CLAMD_CHUNK :: nat where
  "CLAMD_CHUNK = 65536"

definition big_endian :: "nat \<Rightarrow> bytes" where
  "big_endian n = map char_of [n div 2 ^ 24 mod 256, n div 2 ^ 16 mod 256, n div 2 ^ 8 mod 256, n mod 256]"

function chunks_of :: "nat \<Rightarrow> bytes \<Rightarrow> bytes list" where
  "chunks_of k xs = (if xs = [] \<or> k = 0 then [] else take k xs # chunks_of k (drop k xs))"
  by auto
termination by (relation "measure (\<lambda>(k, xs). length xs)") auto

declare chunks_of.simps [simp del]

definition instream_command :: "bytes \<Rightarrow> bytes" where
  "instream_command payload =
     ''zINSTREAM'' @ [CHR 0x00] @
     concat (map (\<lambda>piece. big_endian (length piece) @ piece) (chunks_of CLAMD_CHUNK payload)) @ big_endian 0"

text \<open>The daemon: what it answers to the bytes sent, or the name of the \<open>OSError\<close>.\<close>

type_synonym av_daemon = "bytes \<Rightarrow> string + string"

definition scan_instream :: "av_daemon \<Rightarrow> bytes \<Rightarrow> av_status \<times> string" where
  "scan_instream daemon payload =
     (case daemon (instream_command payload) of
        Inl err \<Rightarrow> (UNAVAILABLE, ''antivirus unavailable: '' @ err)
      | Inr reply \<Rightarrow> parse_clamd_reply reply)"

definition scan_bytes :: "av_daemon \<Rightarrow> string \<Rightarrow> bool \<Rightarrow> bytes \<Rightarrow> av_status \<times> string" where
  "scan_bytes daemon host required payload =
     (if host = [] then (if required then UNAVAILABLE else NOT_CONFIGURED, ''antivirus is not connected'')
      else scan_instream daemon payload)"

record av_env =
  env_host :: string
  env_required :: "string option"
  env_kontur :: "string option"

definition clamd_required :: "av_env \<Rightarrow> bool" where
  "clamd_required env =
     (if str_lower (strip (or_str (env_required env) [])) = ''true'' then True
      else str_lower (strip (or_str (env_kontur env) ''dev'')) \<notin> set [''dev'', ''test'', ''local'', ''demo''])"

definition scan_from_env :: "av_env \<Rightarrow> av_daemon \<Rightarrow> bytes \<Rightarrow> av_status \<times> string" where
  "scan_from_env env daemon payload = scan_bytes daemon (strip (env_host env)) (clamd_required env) payload"

definition antivirus_rejection :: "av_env \<Rightarrow> av_daemon \<Rightarrow> string \<Rightarrow> bytes \<Rightarrow> rejection option" where
  "antivirus_rejection env daemon filename payload =
     (let (status, detail) = scan_from_env env daemon payload
      in if status \<in> set [CLEAN, NOT_CONFIGURED] then None
         else reject filename ANTIVIRUS_REJECTED (or_str (Some detail) (av_status_value status)))"

subsection \<open>The bounded read (upload\_limits.py) and the loop over the uploads (api.py)\<close>

record upload =
  ul_filename :: "string option"
  ul_chunks :: "bytes list"

text \<open>
  The reads of one upload, none of them empty; \<open>Inl\<close> is the size at the first byte past the limit
  and the header so far.
\<close>

fun read_chunks :: "int \<Rightarrow> bytes list \<Rightarrow> bytes \<Rightarrow> bytes \<Rightarrow> (int \<times> bytes) + (bytes \<times> bytes)" where
  "read_chunks limit [] header body = Inr (header, body)"
| "read_chunks limit (chunk # chunks) header body =
     (let amount = int (length body) + int (length chunk)
      in if amount > limit then Inl (amount, header)
         else read_chunks limit chunks
                (if length header < 16 then header @ take (16 - length header) chunk else header)
                (body @ chunk))"

definition none_if_empty :: "bytes \<Rightarrow> bytes option" where
  "none_if_empty b = (if b = [] then None else Some b)"

definition read_bounded_upload ::
    "(bytes \<Rightarrow> string) \<Rightarrow> int \<Rightarrow> upload \<Rightarrow> upload_candidate \<times> bytes option" where
  "read_bounded_upload sha limit u =
     (let name = or_str (ul_filename u) ''unnamed''
      in case read_chunks limit (ul_chunks u) [] [] of
           Inl (amount, header) \<Rightarrow>
             (\<lparr>up_filename = name, up_size_bytes = amount, up_header = none_if_empty header, up_content_hash = None\<rparr>, None)
         | Inr (header, body) \<Rightarrow>
             (\<lparr>up_filename = name, up_size_bytes = int (length body),
               up_header = (if starts_with header [CHR ''P'', CHR ''K'', CHR 0x03, CHR 0x04] then Some body
                            else none_if_empty header),
               up_content_hash = Some (sha body)\<rparr>, Some body))"

record intake_env =
  in_sha :: "bytes \<Rightarrow> string"
  in_directory :: zip_directory
  in_daemon :: av_daemon
  in_av :: av_env

definition body_of :: "bytes option \<Rightarrow> bytes" where
  "body_of b = (case b of None \<Rightarrow> [] | Some x \<Rightarrow> x)"

text \<open>What the loop keeps of one upload: its payload, or the rejection of the antivirus.\<close>

definition receive :: "intake_env \<Rightarrow> upload \<Rightarrow> rejection + (upload_candidate \<times> bytes)" where
  "receive env u =
     (let (c, b) = read_bounded_upload (in_sha env) MAX_FILE_BYTES u
      in case antivirus_rejection (in_av env) (in_daemon env) (up_filename c) (body_of b) of
           Some infected \<Rightarrow> Inl infected
         | None \<Rightarrow> Inr (c, body_of b))"

definition accept_uploads :: "intake_env \<Rightarrow> upload list \<Rightarrow> intake_decision \<times> (upload_candidate \<times> bytes) list" where
  "accept_uploads env uploads =
     (let received = map (receive env) uploads;
          payloads = List.map_filter (\<lambda>r. case r of Inl _ \<Rightarrow> None | Inr p \<Rightarrow> Some p) received;
          infected = List.map_filter (\<lambda>r. case r of Inl i \<Rightarrow> Some i | Inr _ \<Rightarrow> None) received;
          decision = evaluate_batch (in_directory env) (map fst payloads)
      in (decision\<lparr>rejected := rejected decision @ infected\<rparr>, payloads))"

subsection \<open>What the checks of one file establish\<close>

lemma check_file_None:
  assumes "check_file directory c = None"
  shows "filename_is_safe (up_filename c) \<and> suffix_of (up_filename c) \<in> set ALLOWED_SUFFIXES \<and>
    up_size_bytes c \<noteq> 0 \<and> up_size_bytes c \<le> MAX_FILE_BYTES \<and>
    header_matches_suffix (suffix_of (up_filename c)) (up_header c) \<and>
    (suffix_of (up_filename c) \<in> set [''.zip'', ''.docx''] \<longrightarrow>
       (\<forall>h. up_header c = Some h \<longrightarrow> \<not> archive_looks_like_bomb directory h))"
  using assms by (auto simp: check_file_def Let_def reject_def split: if_splits)

lemma check_file_Some: "check_file directory c = Some r \<Longrightarrow> rej_filename r = up_filename c"
  by (auto simp: check_file_def Let_def reject_def split: if_splits)

text \<open>The invariant of the loop over a batch.\<close>

definition hashes :: "upload_candidate list \<Rightarrow> string list" where
  "hashes cs = List.map_filter up_content_hash cs"

definition batch_inv ::
    "zip_directory \<Rightarrow> upload_candidate list \<Rightarrow> intake_decision \<times> string list \<Rightarrow> bool" where
  "batch_inv directory processed ds =
     (let d = fst ds
      in snd ds = hashes (accepted d) \<and> distinct (snd ds) \<and>
         rejected d = List.map_filter (check_file directory) processed \<and>
         mset (accepted d) + mset (duplicates d) = mset (filter (\<lambda>c. check_file directory c = None) processed) \<and>
         (\<forall>c \<in> set (duplicates d). \<exists>h \<in> set (snd ds). up_content_hash c = Some h))"

lemma batch_inv_step:
  assumes "batch_inv directory processed ds"
  shows "batch_inv directory (processed @ [c]) (batch_step directory c ds)"
proof (cases "check_file directory c")
  case (Some r)
  with assms show ?thesis
    by (cases ds) (auto simp: batch_inv_def batch_step_def Let_def map_filter_def)
next
  case None
  obtain d seen where ds: "ds = (d, seen)" by (cases ds)
  show ?thesis
  proof (cases "up_content_hash c")
    case (Some h)
    show ?thesis
    proof (cases "h \<in> set seen")
      case True
      with assms None Some ds show ?thesis
        by (auto simp: batch_inv_def batch_step_def Let_def map_filter_def)
    next
      case False
      with assms None Some ds show ?thesis
        by (auto simp: batch_inv_def batch_step_def Let_def map_filter_def hashes_def)
    qed
  next
    case None': None
    with assms None ds show ?thesis
      by (auto simp: batch_inv_def batch_step_def Let_def map_filter_def hashes_def)
  qed
qed

lemma batch_inv_fold:
  "batch_inv directory processed ds \<Longrightarrow> batch_inv directory (processed @ cs) (fold (batch_step directory) cs ds)"
proof (induction cs arbitrary: processed ds)
  case (Cons c cs)
  from Cons.IH [OF batch_inv_step [OF Cons.prems]] show ?case by simp
qed simp

lemma batch_inv_all: "batch_inv directory cs (fold (batch_step directory) cs (empty_decision, []))"
  using batch_inv_fold [of directory "[]" "(empty_decision, [])" cs]
  by (simp add: batch_inv_def empty_decision_def hashes_def map_filter_def)

lemma batch_is_partitioned_core:
  fixes directory :: zip_directory and items :: "upload_candidate list"
  defines "d \<equiv> evaluate_batch directory items"
  shows "if sum_list (map up_size_bytes items) > MAX_BATCH_BYTES
    then accepted d = [] \<and> duplicates d = [] \<and> map rej_reason (rejected d) = [BATCH_LIMIT_EXCEEDED]
    else rejected d = List.map_filter (check_file directory) items \<and>
      mset (accepted d) + mset (duplicates d) = mset (filter (\<lambda>c. check_file directory c = None) items) \<and>
      distinct (hashes (accepted d)) \<and>
      (\<forall>c \<in> set (duplicates d). \<exists>a \<in> set (accepted d). up_content_hash a = up_content_hash c \<and> up_content_hash c \<noteq> None)"
proof (cases "sum_list (map up_size_bytes items) > MAX_BATCH_BYTES")
  case True
  then show ?thesis by (auto simp: d_def evaluate_batch_def Let_def empty_decision_def)
next
  case False
  then have d: "d = fst (fold (batch_step directory) items (empty_decision, []))"
    by (simp add: d_def evaluate_batch_def Let_def)
  have dup: "\<exists>a \<in> set (accepted d). up_content_hash a = up_content_hash c \<and> up_content_hash c \<noteq> None"
    if "h \<in> set (hashes (accepted d))" "up_content_hash c = Some h" for c h
    using that by (auto simp: hashes_def map_filter_def)
  from batch_inv_all [of directory items] have
      "rejected d = List.map_filter (check_file directory) items \<and>
       mset (accepted d) + mset (duplicates d) = mset (filter (\<lambda>c. check_file directory c = None) items) \<and>
       distinct (hashes (accepted d)) \<and>
       (\<forall>c \<in> set (duplicates d). \<exists>h \<in> set (hashes (accepted d)). up_content_hash c = Some h)"
    unfolding batch_inv_def d [symmetric] Let_def by (elim conjE) simp
  with False dup show ?thesis by (simp del: set_append) blast
qed

text \<open>
  A batch within its limit is divided without loss: every file is rejected by its own check, or
  accepted, or a duplicate of an accepted file; no digest is accepted twice. A batch over the limit
  is refused as a whole.
\<close>

theorem batch_is_partitioned:
  assumes "evaluate_batch directory items = d"
  shows "if sum_list (map up_size_bytes items) > MAX_BATCH_BYTES
    then accepted d = [] \<and> duplicates d = [] \<and> map rej_reason (rejected d) = [BATCH_LIMIT_EXCEEDED]
    else rejected d = List.map_filter (check_file directory) items \<and>
      mset (accepted d) + mset (duplicates d) = mset (filter (\<lambda>c. check_file directory c = None) items) \<and>
      distinct (hashes (accepted d)) \<and>
      (\<forall>c \<in> set (duplicates d). \<exists>a \<in> set (accepted d). up_content_hash a = up_content_hash c \<and> up_content_hash c \<noteq> None)"
  using batch_is_partitioned_core [where directory = directory and items = items] unfolding assms .

subsection \<open>From the bytes of the request to the decision\<close>

lemma read_chunks_Inr:
  "read_chunks limit cs header body = Inr (header', body') \<Longrightarrow> header = take 16 body \<Longrightarrow>
   int (length body) \<le> limit \<Longrightarrow>
   body' = body @ concat cs \<and> header' = take 16 body' \<and> int (length body') \<le> limit"
proof (induction cs arbitrary: header body)
  case (Cons c cs)
  have h: "(if length header < 16 then header @ take (16 - length header) c else header) = take 16 (body @ c)"
    using Cons.prems(2) by auto
  from Cons.prems(1) have "\<not> int (length body) + int (length c) > limit"
      "read_chunks limit cs (take 16 (body @ c)) (body @ c) = Inr (header', body')"
    by (simp_all add: Let_def h split: if_splits)
  from Cons.IH [OF this(2) refl] this(1) show ?case by auto
qed simp

lemma read_chunks_Inl:
  "read_chunks limit cs header body = Inl (amount, h) \<Longrightarrow> limit < amount"
  by (induction cs arbitrary: header body) (auto simp: Let_def split: if_splits)

lemma read_bounded:
  assumes "read_bounded_upload sha limit u = (c, b)" and "0 \<le> limit"
  shows "up_filename c = or_str (ul_filename u) ''unnamed'' \<and>
    (case b of
       None \<Rightarrow> limit < up_size_bytes c \<and> up_content_hash c = None
     | Some body \<Rightarrow> body = concat (ul_chunks u) \<and> up_size_bytes c = int (length body) \<and>
         up_content_hash c = Some (sha body) \<and>
         up_header c = (if starts_with body [CHR ''P'', CHR ''K'', CHR 0x03, CHR 0x04] then Some body
                        else none_if_empty (take 16 body)))"
proof (cases "read_chunks limit (ul_chunks u) [] []")
  case (Inl p)
  with assms read_chunks_Inl show ?thesis
    by (cases p) (auto simp: read_bounded_upload_def Let_def)
next
  case (Inr p)
  obtain header body where p: "p = (header, body)" by (cases p)
  from read_chunks_Inr [OF Inr [unfolded p]] assms(2) have
    b: "body = concat (ul_chunks u)" "header = take 16 body" by auto
  have "starts_with (take 16 body) [CHR ''P'', CHR ''K'', CHR 0x03, CHR 0x04] =
      starts_with body [CHR ''P'', CHR ''K'', CHR 0x03, CHR 0x04]"
    by (cases body; cases "tl body"; cases "tl (tl body)"; cases "tl (tl (tl body))") auto
  with assms(1) Inr p b show ?thesis by (auto simp: read_bounded_upload_def Let_def)
qed

text \<open>A signature no longer than the header can be read from the header or from the whole body.\<close>

lemma starts_with_take: "length p \<le> n \<Longrightarrow> starts_with (take n s) p = starts_with s p"
  by (auto simp: starts_with_iff) (metis append_eq_conv_conj take_append take_take min.absorb1 append_take_drop_id append.assoc)+

lemma magic_short: "dict_get MAGIC_PREFIXES sfx = Some ps \<Longrightarrow> p \<in> set ps \<Longrightarrow> length p \<le> 16"
  by (auto simp: MAGIC_PREFIXES_def split: if_splits)

lemma header_of_body:
  assumes "header_matches_suffix sfx (if starts_with body [CHR ''P'', CHR ''K'', CHR 0x03, CHR 0x04] then Some body
             else none_if_empty (take 16 body))" and "body \<noteq> []"
  shows "header_matches_suffix sfx (Some body)"
proof -
  have "header_matches_suffix sfx (Some (take 16 body)) \<Longrightarrow> header_matches_suffix sfx (Some body)"
    using magic_short [of sfx]
    by (auto simp: header_matches_suffix_def list_ex_iff starts_with_take split: option.splits if_splits)
  with assms show ?thesis by (auto simp: none_if_empty_def split: if_splits)
qed

definition clean_or_dev :: "intake_env \<Rightarrow> bytes \<Rightarrow> bool" where
  "clean_or_dev env body =
     (if strip (env_host (in_av env)) = [] then \<not> clamd_required (in_av env)
      else fst (scan_instream (in_daemon env) body) = CLEAN)"

lemma antivirus_passes:
  assumes "antivirus_rejection (in_av env) (in_daemon env) n body = None"
  shows "clean_or_dev env body"
proof -
  have nc: "fst (parse_clamd_reply r) \<noteq> NOT_CONFIGURED" for r
    by (simp add: parse_clamd_reply_def Let_def)
  then have "fst (scan_instream (in_daemon env) body) \<noteq> NOT_CONFIGURED"
    by (auto simp: scan_instream_def split: sum.splits)
  with assms show ?thesis
    by (auto simp: antivirus_rejection_def reject_def scan_from_env_def scan_bytes_def clean_or_dev_def
        split: if_splits prod.splits)
qed

lemma sum_list_parts:
  fixes f :: "'a \<Rightarrow> int"
  assumes "mset xs + mset ys = mset zs"
  shows "sum_list (map f xs) + sum_list (map f ys) = sum_list (map f zs)"
proof -
  have "mset (map f (xs @ ys)) = mset (map f zs)" using assms by (simp only: mset_map mset_append)
  then have "sum_list (map f (xs @ ys)) = sum_list (map f zs)" by (metis sum_mset_sum_list)
  then show ?thesis by simp
qed

lemma sum_list_filter_le:
  fixes f :: "'a \<Rightarrow> int"
  shows "(\<And>x. x \<in> set xs \<Longrightarrow> 0 \<le> f x) \<Longrightarrow> sum_list (map f (filter P xs)) \<le> sum_list (map f xs)"
  by (induction xs) fastforce+

lemma payload_of_upload:
  assumes "(c, body) \<in> set (snd (accept_uploads env uploads))"
  shows "\<exists>u \<in> set uploads. receive env u = Inr (c, body)"
  using assms by (auto simp: accept_uploads_def Let_def map_filter_def split: sum.splits)

lemma accepted_checked:
  assumes "c \<in> set (accepted (evaluate_batch directory items))"
  shows "check_file directory c = None \<and> c \<in> set items"
proof (cases "MAX_BATCH_BYTES < sum_list (map up_size_bytes items)")
  case True
  with batch_is_partitioned_core [where directory = directory and items = items] assms show ?thesis by simp
next
  case False
  with batch_is_partitioned_core [where directory = directory and items = items] have
    "mset (accepted (evaluate_batch directory items)) + mset (duplicates (evaluate_batch directory items)) =
      mset (filter (\<lambda>c. check_file directory c = None) items)" by simp
  from arg_cong [OF this, of set_mset] assms show ?thesis by auto
qed

lemma accepted_has_payload:
  assumes "c \<in> set (accepted (fst (accept_uploads env uploads)))"
  shows "check_file (in_directory env) c = None \<and> (\<exists>body. (c, body) \<in> set (snd (accept_uploads env uploads)))"
proof -
  let ?items = "map fst (snd (accept_uploads env uploads))"
  have c: "c \<in> set (accepted (evaluate_batch (in_directory env) ?items))"
    using assms by (simp add: accept_uploads_def Let_def)
  from accepted_checked [OF this] show ?thesis by auto
qed

text \<open>
  C19. A file that is accepted has been checked on its own bytes: its digest is that of the body that
  was read, the body is the whole upload, not empty and at most 50 MB, it starts with a signature of
  its suffix, the suffix is one of the six and the name is safe, an archive is no bomb by its own
  directory, the antivirus found it clean (or none is configured and none is required). Accepted files
  have distinct digests and together at most 200 MB.
\<close>

theorem accepted_uploads_are_checked:
  assumes "accept_uploads env uploads = (d, payloads)"
  shows "distinct (hashes (accepted d)) \<and> sum_list (map up_size_bytes (accepted d)) \<le> MAX_BATCH_BYTES \<and>
    (\<forall>c \<in> set (accepted d). \<exists>u \<in> set uploads. \<exists>body. (c, body) \<in> set payloads \<and> body = concat (ul_chunks u) \<and>
       up_filename c = or_str (ul_filename u) ''unnamed'' \<and>
       up_content_hash c = Some (in_sha env body) \<and> body \<noteq> [] \<and> int (length body) \<le> MAX_FILE_BYTES \<and>
       filename_is_safe (up_filename c) \<and> suffix_of (up_filename c) \<in> set ALLOWED_SUFFIXES \<and>
       header_matches_suffix (suffix_of (up_filename c)) (Some body) \<and>
       (suffix_of (up_filename c) \<in> set [''.zip'', ''.docx''] \<longrightarrow> \<not> archive_looks_like_bomb (in_directory env) body) \<and>
       clean_or_dev env body)"
proof (intro conjI ballI)
  fix c assume "c \<in> set (accepted d)"
  with assms have "c \<in> set (accepted (fst (accept_uploads env uploads)))" by simp
  from accepted_has_payload [OF this] assms obtain body where
    ok: "check_file (in_directory env) c = None" and p: "(c, body) \<in> set payloads" by auto
  from p assms payload_of_upload obtain u where u: "u \<in> set uploads" "receive env u = Inr (c, body)"
    by (metis snd_conv)
  obtain c' b where r: "read_bounded_upload (in_sha env) MAX_FILE_BYTES u = (c', b)"
    by (cases "read_bounded_upload (in_sha env) MAX_FILE_BYTES u")
  with u(2) have cb: "c' = c" "body = body_of b"
      "antivirus_rejection (in_av env) (in_daemon env) (up_filename c) (body_of b) = None"
    by (auto simp: receive_def split: option.splits)
  note checks = check_file_None [OF ok]
  from read_bounded [OF r [unfolded cb(1)]] have rb: "up_filename c = or_str (ul_filename u) ''unnamed'' \<and>
    (case b of None \<Rightarrow> MAX_FILE_BYTES < up_size_bytes c \<and> up_content_hash c = None
     | Some body \<Rightarrow> body = concat (ul_chunks u) \<and> up_size_bytes c = int (length body) \<and>
         up_content_hash c = Some (in_sha env body) \<and>
         up_header c = (if starts_with body [CHR ''P'', CHR ''K'', CHR 0x03, CHR 0x04] then Some body
                        else none_if_empty (take 16 body)))"
    by (simp add: MAX_FILE_BYTES_def)
  with checks have "b \<noteq> None" by (auto split: option.splits)
  with cb(2) have b: "b = Some body" by (auto simp: body_of_def)
  from rb b have body: "body = concat (ul_chunks u)" "up_size_bytes c = int (length body)"
      "up_content_hash c = Some (in_sha env body)"
      "up_header c = (if starts_with body [CHR ''P'', CHR ''K'', CHR 0x03, CHR 0x04] then Some body
                        else none_if_empty (take 16 body))" by simp_all
  have nonempty: "body \<noteq> []" using checks body(2) by auto
  have magic: "header_matches_suffix (suffix_of (up_filename c)) (Some body)"
    by (rule header_of_body [OF _ nonempty]) (use checks body(4) in simp)
  have bomb: "suffix_of (up_filename c) \<in> set [''.zip'', ''.docx''] \<longrightarrow> \<not> archive_looks_like_bomb (in_directory env) body"
    using checks body(4) by (cases "starts_with body [CHR ''P'', CHR ''K'', CHR 0x03, CHR 0x04]")
      (simp_all add: archive_looks_like_bomb_def)
  have "clean_or_dev env body" using antivirus_passes cb(3) b by (auto simp: body_of_def)
  with u(1) p rb body nonempty checks magic bomb show "\<exists>u \<in> set uploads. \<exists>body. (c, body) \<in> set payloads \<and> body = concat (ul_chunks u) \<and>
       up_filename c = or_str (ul_filename u) ''unnamed'' \<and>
       up_content_hash c = Some (in_sha env body) \<and> body \<noteq> [] \<and> int (length body) \<le> MAX_FILE_BYTES \<and>
       filename_is_safe (up_filename c) \<and> suffix_of (up_filename c) \<in> set ALLOWED_SUFFIXES \<and>
       header_matches_suffix (suffix_of (up_filename c)) (Some body) \<and>
       (suffix_of (up_filename c) \<in> set [''.zip'', ''.docx''] \<longrightarrow> \<not> archive_looks_like_bomb (in_directory env) body) \<and>
       clean_or_dev env body"
    by (intro bexI [of _ u] exI [of _ body] conjI) simp_all
next
  let ?items = "map fst (snd (accept_uploads env uploads))"
  have d: "accepted d = accepted (evaluate_batch (in_directory env) ?items)"
    using assms by (auto simp: accept_uploads_def Let_def)
  note part = batch_is_partitioned_core [where directory = "in_directory env" and items = ?items]
  show "distinct (hashes (accepted d))"
    using part by (auto simp: d hashes_def map_filter_def split: if_splits)
  have size: "0 \<le> up_size_bytes c" if "c \<in> set ?items" for c
  proof -
    from that payload_of_upload obtain u body where "receive env u = Inr (c, body)" by fastforce
    then obtain b where "read_bounded_upload (in_sha env) MAX_FILE_BYTES u = (c, b)"
      by (auto simp: receive_def split: option.splits prod.splits)
    from read_bounded [OF this] show ?thesis by (auto simp: MAX_FILE_BYTES_def split: option.splits)
  qed
  have "sum_list (map up_size_bytes (accepted d)) \<le> sum_list (map up_size_bytes ?items)" if "\<not> sum_list (map up_size_bytes ?items) > MAX_BATCH_BYTES"
  proof -
    let ?ok = "filter (\<lambda>c. check_file (in_directory env) c = None) ?items"
    have eq: "mset (accepted d) + mset (duplicates (evaluate_batch (in_directory env) ?items)) = mset ?ok"
      using part that d by simp
    from arg_cong [OF this, of set_mset]
    have sub: "set (duplicates (evaluate_batch (in_directory env) ?items)) \<subseteq> set ?items" by auto
    have "sum_list (map up_size_bytes (accepted d)) + sum_list (map up_size_bytes (duplicates (evaluate_batch (in_directory env) ?items))) =
        sum_list (map up_size_bytes ?ok)"
      by (rule sum_list_parts [OF eq])
    moreover have "0 \<le> sum_list (map up_size_bytes (duplicates (evaluate_batch (in_directory env) ?items)))"
      using sub size by (intro sum_list_nonneg) auto
    moreover have "sum_list (map up_size_bytes ?ok) \<le> sum_list (map up_size_bytes ?items)"
      using size by (intro sum_list_filter_le) auto
    ultimately show ?thesis by linarith
  qed
  then show "sum_list (map up_size_bytes (accepted d)) \<le> MAX_BATCH_BYTES"
    using part d by (cases "sum_list (map up_size_bytes ?items) > MAX_BATCH_BYTES") (auto simp: MAX_BATCH_BYTES_def)
qed

definition sample_intake :: intake_env where
  "sample_intake = \<lparr>in_sha = id, in_directory = (\<lambda>_. None), in_daemon = (\<lambda>_. Inr ''stream: OK''),
     in_av = \<lparr>env_host = ''clamd'', env_required = None, env_kontur = None\<rparr>\<rparr>"

definition sample_upload :: upload where
  "sample_upload = \<lparr>ul_filename = Some ''a.pdf'', ul_chunks = [''%PDF'', ''-1'']\<rparr>"

definition sample_candidate :: upload_candidate where
  "sample_candidate = \<lparr>up_filename = ''a.pdf'', up_size_bytes = 6, up_header = Some ''%PDF-1'', up_content_hash = Some ''%PDF-1''\<rparr>"

lemma sample_received: "receive sample_intake sample_upload = Inr (sample_candidate, ''%PDF-1'')"
proof -
  have r: "read_bounded_upload id MAX_FILE_BYTES sample_upload = (sample_candidate, Some ''%PDF-1'')"
    by (simp add: read_bounded_upload_def sample_upload_def sample_candidate_def MAX_FILE_BYTES_def none_if_empty_def)
  have "parse_clamd_reply ''stream: OK'' = (CLEAN, [])" by code_simp
  moreover have "strip ''clamd'' = ''clamd''" by code_simp
  ultimately have "antivirus_rejection (in_av sample_intake) (in_daemon sample_intake) n body = None" for n body
    by (simp add: antivirus_rejection_def scan_from_env_def scan_bytes_def scan_instream_def sample_intake_def)
  with r show ?thesis by (simp add: receive_def sample_intake_def body_of_def)
qed

lemma sample_name: "filename_is_safe ''a.pdf'' \<and> suffix_of ''a.pdf'' = ''.pdf''"
proof
  have "strip ''a.pdf'' = ''a.pdf''" by (rule strip_fixed) (simp add: is_space_def)
  then show "filename_is_safe ''a.pdf''"
    by (simp add: filename_is_safe_def is_control_def utf8_width_def MAX_NAME_BYTES_def)
  show "suffix_of ''a.pdf'' = ''.pdf''"
    by (simp add: suffix_of_def path_name_def rfind_def rsplit1_def str_lower_def lower_code_def odd_case_pairs_def
        char_of_def bit_iff_odd)
qed

lemma sample_checked: "check_file (\<lambda>_. None) sample_candidate = None"
  using sample_name
  by (simp add: check_file_def sample_candidate_def ALLOWED_SUFFIXES_def ALLOWED_DOCUMENT_SUFFIXES_def
      MAX_FILE_BYTES_def header_matches_suffix_def MAGIC_PREFIXES_def)

lemma sample_accepted:
  "accept_uploads sample_intake [sample_upload, sample_upload] =
     (empty_decision\<lparr>accepted := [sample_candidate], duplicates := [sample_candidate]\<rparr>,
      [(sample_candidate, ''%PDF-1''), (sample_candidate, ''%PDF-1'')])"
proof -
  have "evaluate_batch (\<lambda>_. None) [sample_candidate, sample_candidate] =
      empty_decision\<lparr>accepted := [sample_candidate], duplicates := [sample_candidate]\<rparr>"
    using sample_checked
    by (simp add: evaluate_batch_def MAX_BATCH_BYTES_def batch_step_def empty_decision_def)
      (simp add: sample_candidate_def)
  then show ?thesis
    by (simp add: accept_uploads_def sample_received map_filter_def Let_def)
      (simp add: sample_intake_def empty_decision_def)
qed

theorem accepted_uploads_are_checked_witness:
  "accepted (fst (accept_uploads sample_intake [sample_upload, sample_upload])) = [sample_candidate] \<and>
   header_matches_suffix ''.pdf'' (Some ''%PDF-1'') \<and> clean_or_dev sample_intake ''%PDF-1''"
proof -
  have "suffix_of (up_filename sample_candidate) = ''.pdf''" using sample_name by (simp add: sample_candidate_def)
  then have "header_matches_suffix ''.pdf'' (Some ''%PDF-1'') \<and> clean_or_dev sample_intake ''%PDF-1''"
    using conjunct2 [OF conjunct2 [OF accepted_uploads_are_checked [OF sample_accepted]]]
    by (simp add: empty_decision_def) (simp add: sample_upload_def)
  then show ?thesis by (simp add: sample_accepted empty_decision_def)
qed

theorem batch_is_partitioned_witness:
  "\<exists>d. evaluate_batch (\<lambda>_. None) [sample_candidate, sample_candidate] = d \<and>
     mset (accepted d) + mset (duplicates d) = {#sample_candidate, sample_candidate#} \<and> distinct (hashes (accepted d))"
proof -
  have "sum_list (map up_size_bytes [sample_candidate, sample_candidate]) \<le> MAX_BATCH_BYTES"
    by (simp add: sample_candidate_def MAX_BATCH_BYTES_def)
  with batch_is_partitioned [of "\<lambda>_. None" "[sample_candidate, sample_candidate]", OF refl] sample_checked
  show ?thesis by (simp split: if_splits)
qed

end
