(* ===== verification/Process_Pipeline.thy ===== *)
theory Process_Pipeline
  imports Revision_Resolver Scenarios Intake
begin

section \<open>One run of the matrix over a package (application/process\_pipeline.py, archive\_expand.py)\<close>

text \<open>
  From the files of a process to its findings: archives are opened, every file is read and gets its
  approval, the heads of the revision resolver become the pages of a stage, every rule of the matrix
  is evaluated on them. What reads a file (the PDF, DOCX and XML readers with the passport of the
  document), what lists a zip and what evaluates one rule are arguments: \<open>'p\<close> is the content of a
  page, which this code only hands on. A reader returns \<open>Inl\<close> for an exception the code does not catch.
  The clocks are arguments of the workspace that calls the run.
\<close>

record pipeline_file =
  pf_file_id :: string
  pf_file_hash :: string
  pf_filename :: string
  pf_stage :: doc_stage
  pf_predecessor :: "string option"
  pf_successor :: "string option"
  pf_manifest_section :: "string option"
  pf_manifest_path :: "string option"

record passport_facts =
  ps_identity_code :: "string option"
  ps_revision :: "string option"
  ps_approval_status :: approval_status
  ps_approval_basis :: approval_basis
  ps_sheet :: "string option"
  ps_discipline :: "string option"
  ps_revision_kind :: string

text \<open>
  What a reader makes of a body: unreadable with a message, no text in it, or a page with its passport,
  the flag of the injection scan and the parts it skipped. \<open>rd_stamp\<close> reads the stamp of a PDF alone, without
  recognition (\<open>None\<close> when it is unreadable).
\<close>

datatype 'p page_reading = Unreadable string | NoText | Readable 'p passport_facts bool "string list"

record zip_entry =
  ze_filename :: string
  ze_is_dir :: bool
  ze_content :: "bytes option"

record 'p readers =
  rd_xml :: "pipeline_file \<Rightarrow> bytes \<Rightarrow> 'p page_reading result"
  rd_docx :: "pipeline_file \<Rightarrow> bytes \<Rightarrow> 'p page_reading result"
  rd_pdf :: "pipeline_file \<Rightarrow> bytes \<Rightarrow> 'p page_reading result"
  rd_stamp :: "pipeline_file \<Rightarrow> bytes \<Rightarrow> approval_status option result"
  rd_directory :: zip_directory
  rd_zip :: "bytes \<Rightarrow> zip_entry list option"
  rd_sha :: "bytes \<Rightarrow> string"

subsection \<open>Archives\<close>

definition MAX_MEMBERS :: nat where
  "MAX_MEMBERS = 40"

definition zip_suffix :: "string \<Rightarrow> string" where
  "zip_suffix name = (let dot = rfind (CHR ''.'') name in if dot < 0 then [] else str_lower (drop (nat dot) name))"

definition unsafe_name :: "string \<Rightarrow> bool" where
  "unsafe_name name =
     (if name = [] \<or> starts_with name ''/'' \<or> starts_with name [CHR 0x5C] then True
      else list_ex (\<lambda>part. part \<in> set [[], ''.'', ''..'']) (split_on (CHR ''/'') name))"

definition slashes :: "string \<Rightarrow> string" where
  "slashes name = map (\<lambda>c. if c = CHR 0x5C then CHR ''/'' else c) name"

definition base_name :: "string \<Rightarrow> string" where
  "base_name name = (case rsplit1 (CHR ''/'') name of None \<Rightarrow> name | Some (_, b) \<Rightarrow> b)"

fun zip_documents :: "string \<Rightarrow> zip_entry list \<Rightarrow> (string \<times> bytes) list result" where
  "zip_documents file_id [] = Inr []"
| "zip_documents file_id (e # es) =
     (let name = slashes (ze_filename e)
      in if ze_is_dir e then zip_documents file_id es
         else if unsafe_name name then raise ValueError (file_id @ '': ZIP: unsafe name '') [name]
         else if zip_suffix name \<notin> set ALLOWED_DOCUMENT_SUFFIXES then zip_documents file_id es
         else case ze_content e of
             None \<Rightarrow> raise ValueError (file_id @ '': ZIP: not read'') []
           | Some content \<Rightarrow>
               bindr (zip_documents file_id es) (\<lambda>rest. Inr ((base_name name, content) # rest)))"

definition expand_zip :: "'p readers \<Rightarrow> string \<Rightarrow> bytes \<Rightarrow> (string \<times> bytes) list result" where
  "expand_zip rd file_id payload =
     (if archive_looks_like_bomb (rd_directory rd) payload then raise ValueError (file_id @ '': ZIP: rejected as a bomb'') []
      else case rd_zip rd payload of
        None \<Rightarrow> raise ValueError (file_id @ '': ZIP: not read'') []
      | Some entries \<Rightarrow>
          bindr (zip_documents file_id entries) (\<lambda>documents.
            if length documents > MAX_MEMBERS then raise ValueError (file_id @ '': ZIP: too many documents'') []
            else if documents = [] then raise ValueError (file_id @ '': ZIP: no PDF, DOCX or XML'') []
            else Inr documents))"

subsection \<open>Files to pages\<close>

definition is_pdf :: "string \<Rightarrow> bool" where
  "is_pdf filename = ends_with (str_lower filename) ''.pdf''"

definition archive_suffix :: "string \<Rightarrow> string option" where
  "archive_suffix filename = find (ends_with (str_lower filename)) [''.zip'', ''.7z'', ''.rar'']"

definition office_suffix :: "string \<Rightarrow> string option" where
  "office_suffix filename = find (ends_with (str_lower filename)) [''.docx'', ''.xml'']"

definition mk_document_ref :: "pipeline_file \<Rightarrow> passport_facts \<Rightarrow> approval_status \<Rightarrow> approval_basis \<Rightarrow> document_ref" where
  "mk_document_ref item p approval basis =
     \<lparr>doc_file_id = pf_file_id item, doc_file_hash = pf_file_hash item, doc_stage = pf_stage item,
      document_code = or_str (ps_identity_code p) [], revision = or_str (ps_revision p) [],
      approval_status = approval, approval_basis = basis, discipline = ps_discipline p,
      approval_date = None, sheet = ps_sheet p, predecessor_file_id = pf_predecessor item,
      successor_file_id = pf_successor item, source_name = pf_filename item,
      revision_kind = ps_revision_kind p\<rparr>"

record 'p stage_page =
  page_document :: document_ref
  page_content :: 'p

record 'p build =
  bd_stored :: "(string, bytes) dict"
  bd_seen :: "string list"
  bd_errors :: "string list"
  bd_stamps :: "(string, approval_status) dict"
  bd_clean :: "(string, bool) dict"
  bd_built :: "(document_ref \<times> 'p stage_page) list"
  bd_expanded :: "pipeline_file list"
  bd_expanded_blobs :: "(string, bytes) dict"

definition add_error :: "string \<Rightarrow> string \<Rightarrow> 'p build \<Rightarrow> 'p build" where
  "add_error file_id text st = st\<lparr>bd_errors := bd_errors st @ [file_id @ '': '' @ text]\<rparr>"

text \<open>\<open>_append_text_page\<close>, and the last part of the branch of a PDF.\<close>

definition append_page :: "string list \<Rightarrow> pipeline_file \<Rightarrow> 'p \<Rightarrow> passport_facts \<Rightarrow> bool \<Rightarrow> 'p build \<Rightarrow> 'p build" where
  "append_page approved item content p clean st =
     (let (approval, basis) = approval_with_basis (ps_approval_status p) (ps_approval_basis p)
            (pf_file_id item \<in> set approved);
          ref = mk_document_ref item p approval basis
      in st\<lparr>bd_stamps := dict_set (pf_file_id item) (ps_approval_status p) (bd_stamps st),
            bd_clean := dict_set (pf_file_id item) clean (bd_clean st),
            bd_built := bd_built st @ [(ref, \<lparr>page_document = ref, page_content = content\<rparr>)]\<rparr>)"

text \<open>A reader applied to the stored body: \<open>label\<close> starts the messages, \<open>needs_text\<close> asks for text.\<close>

definition read_with ::
    "(pipeline_file \<Rightarrow> bytes \<Rightarrow> 'p page_reading result) \<Rightarrow> string \<Rightarrow> string list \<Rightarrow> pipeline_file \<Rightarrow> 'p build \<Rightarrow> 'p build result" where
  "read_with reader label approved item st =
     (case dict_get (bd_stored st) (pf_file_id item) of
        None \<Rightarrow> Inr (add_error (pf_file_id item) ''no content in memory'' st)
      | Some raw \<Rightarrow>
          bindr (reader item raw) (\<lambda>reading.
            case reading of
              Unreadable text \<Rightarrow> Inr (add_error (pf_file_id item) text st)
            | NoText \<Rightarrow> Inr (add_error (pf_file_id item) (label @ '': no text'') st)
            | Readable content p clean skipped \<Rightarrow>
                Inr (append_page approved item content p clean
                  (if skipped = [] then st
                   else add_error (pf_file_id item) (label @ '': skipped '' @ concat skipped) st))))"

definition child_of :: "'p readers \<Rightarrow> pipeline_file \<Rightarrow> nat \<Rightarrow> string \<times> bytes \<Rightarrow> pipeline_file" where
  "child_of rd item index = (\<lambda>(filename, content).
     \<lparr>pf_file_id = pf_file_id item @ ''__'' @ show_nat index, pf_file_hash = rd_sha rd content,
      pf_filename = filename, pf_stage = pf_stage item, pf_predecessor = None, pf_successor = None,
      pf_manifest_section = pf_manifest_section item, pf_manifest_path = pf_manifest_path item\<rparr>)"

definition children_of :: "'p readers \<Rightarrow> pipeline_file \<Rightarrow> (string \<times> bytes) list \<Rightarrow> (pipeline_file \<times> bytes) list" where
  "children_of rd item members =
     map (\<lambda>(i, m). (child_of rd item i m, snd m)) (enumerate 1 members)"

definition add_children :: "(pipeline_file \<times> bytes) list \<Rightarrow> 'p build \<Rightarrow> 'p build" where
  "add_children cs st =
     fold (\<lambda>(c, content) st. st\<lparr>bd_stored := dict_set (pf_file_id c) content (bd_stored st),
         bd_expanded := bd_expanded st @ [c],
         bd_expanded_blobs := dict_set (pf_file_id c) content (bd_expanded_blobs st)\<rparr>) cs st"

text \<open>One round of the loop: what the popped file adds to the state and to the end of the queue.\<close>

definition build_file ::
    "'p readers \<Rightarrow> string list \<Rightarrow> pipeline_file \<Rightarrow> 'p build \<Rightarrow> (pipeline_file list \<times> 'p build) result" where
  "build_file rd approved item st =
     (let fid = pf_file_id item
      in if fid \<in> set (bd_seen st) then Inr ([], add_error fid ''file_id repeated'' st)
         else let st = st\<lparr>bd_seen := bd_seen st @ [fid]\<rparr>;
                  office = office_suffix (pf_filename item);
                  archive = archive_suffix (pf_filename item)
              in if office = Some ''.xml'' then bindr (read_with (rd_xml rd) ''XML'' approved item st) (\<lambda>st. Inr ([], st))
                 else if office = Some ''.docx'' then bindr (read_with (rd_docx rd) ''DOCX'' approved item st) (\<lambda>st. Inr ([], st))
                 else if archive = Some ''.zip'' then
                   (case dict_get (bd_stored st) fid of
                      None \<Rightarrow> Inr ([], add_error fid ''no content in memory'' st)
                    | Some raw \<Rightarrow>
                        (case expand_zip rd fid raw of
                           Inl e \<Rightarrow> Inr ([], st\<lparr>bd_errors := bd_errors st @ [exc_text e @ concat (exc_args e)]\<rparr>)
                         | Inr members \<Rightarrow>
                             let cs = children_of rd item members in Inr (map fst cs, add_children cs st)))
                 else if archive \<noteq> None then
                   Inr ([], add_error fid (''ARCHIVE_NOT_EXPANDED: '' @ the archive) st)
                 else if \<not> is_pdf (pf_filename item) then
                   Inr ([], add_error fid (''UNSUPPORTED_FORMAT: '' @ or_str (Some (zip_suffix (pf_filename item))) ''.none'') st)
                 else bindr (read_with (rd_pdf rd) ''PDF'' approved item st) (\<lambda>st. Inr ([], st)))"

subsection \<open>The queue runs empty\<close>

text \<open>
  An archive puts at most forty files on the queue, none of them an archive of the kind that is
  opened; weighing such an archive forty-two and any other file one, every round makes the queue
  lighter.
\<close>

definition weight :: "pipeline_file \<Rightarrow> nat" where
  "weight item = (if archive_suffix (pf_filename item) = Some ''.zip'' then 42 else 1)"

lemma last_ends_with: "ends_with s p \<Longrightarrow> p \<noteq> [] \<Longrightarrow> s \<noteq> [] \<and> last s = last p"
  by (auto simp: ends_with_def starts_with_iff) (metis last_appendR rev_append rev_rev_ident append_Nil2 rev_is_Nil_conv)

lemma last_lower: "s \<noteq> [] \<Longrightarrow> last (str_lower s) = char_of (lower_code (of_char (last s)))"
  by (simp add: str_lower_def last_map)

lemma document_suffix_last:
  assumes "zip_suffix name \<in> set ALLOWED_DOCUMENT_SUFFIXES"
  shows "name \<noteq> [] \<and> last (str_lower name) \<in> {CHR ''f'', CHR ''x'', CHR ''l''}"
proof -
  have nn: "zip_suffix name \<noteq> []" using assms by (auto simp: ALLOWED_DOCUMENT_SUFFIXES_def)
  then obtain k where z: "zip_suffix name = str_lower (drop k name)"
    by (auto simp: zip_suffix_def Let_def split: if_splits)
  with nn have d: "drop k name \<noteq> []" by (auto simp: str_lower_def)
  then have k: "k < length name" and "name \<noteq> []" by auto
  have "last (str_lower name) = last (zip_suffix name)"
    unfolding z last_lower [OF d] last_lower [OF \<open>name \<noteq> []\<close>] last_drop [OF k] ..
  moreover have "last (zip_suffix name) \<in> {CHR ''f'', CHR ''x'', CHR ''l''}"
    using assms by (auto simp: ALLOWED_DOCUMENT_SUFFIXES_def)
  ultimately show ?thesis using \<open>name \<noteq> []\<close> by simp
qed

lemma base_name_last:
  assumes "name \<noteq> []" and "last name \<noteq> CHR ''/''"
  shows "base_name name \<noteq> [] \<and> last (base_name name) = last name"
  using assms by (auto simp: base_name_def rsplit1_Some split: option.splits)

lemma member_is_no_zip:
  assumes "zip_suffix name \<in> set ALLOWED_DOCUMENT_SUFFIXES"
  shows "archive_suffix (base_name name) \<noteq> Some ''.zip''"
proof
  assume "archive_suffix (base_name name) = Some ''.zip''"
  then have e: "ends_with (str_lower (base_name name)) ''.zip''"
    by (auto simp: archive_suffix_def split: if_splits)
  from document_suffix_last [OF assms] have n: "name \<noteq> []" "last (str_lower name) \<in> {CHR ''f'', CHR ''x'', CHR ''l''}"
    by auto
  have "last name \<noteq> CHR ''/''"
  proof
    assume "last name = CHR ''/''"
    then have "last (str_lower name) = CHR ''/''"
      using n(1) by (simp add: last_lower lower_code_def odd_case_pairs_def char_of_def bit_iff_odd)
    with n(2) show False by simp
  qed
  from base_name_last [OF n(1) this] have "last (str_lower (base_name name)) = last (str_lower name)"
    using n(1) by (simp add: last_lower)
  with n(2) last_ends_with [OF e] show False by auto
qed

lemma zip_documents_names:
  "zip_documents file_id es = Inr ds \<Longrightarrow> (n, c) \<in> set ds \<Longrightarrow> archive_suffix n \<noteq> Some ''.zip''"
proof (induction es arbitrary: ds)
  case (Cons e es)
  show ?case
  proof (cases "ze_is_dir e \<or> zip_suffix (slashes (ze_filename e)) \<notin> set ALLOWED_DOCUMENT_SUFFIXES")
    case True
    with Cons show ?thesis by (auto simp: Let_def split: if_splits)
  next
    case False
    with Cons.prems(1) obtain content rest where
      r: "zip_documents file_id es = Inr rest" "ds = (base_name (slashes (ze_filename e)), content) # rest"
      by (auto simp: Let_def bindr_eq_Inr split: if_splits option.splits)
    show ?thesis
    proof (cases "(n, c) \<in> set rest")
      case True
      with Cons.IH r(1) show ?thesis by blast
    next
      case head: False
      with Cons.prems(2) r(2) have "n = base_name (slashes (ze_filename e))" by auto
      with False member_is_no_zip show ?thesis by simp
    qed
  qed
qed simp

lemma expand_zip_members:
  assumes "expand_zip rd file_id payload = Inr members"
  shows "length members \<le> 40 \<and> (\<forall>(n, c) \<in> set members. archive_suffix n \<noteq> Some ''.zip'')"
  using assms zip_documents_names
  by (fastforce simp: expand_zip_def MAX_MEMBERS_def bindr_eq_Inr split: if_splits option.splits)

lemma children_weight:
  assumes "length members \<le> 40" and "\<forall>(n, c) \<in> set members. archive_suffix n \<noteq> Some ''.zip''"
  shows "sum_list (map weight (map fst (children_of rd item members))) \<le> 40"
proof -
  have "weight c = 1" if c: "c \<in> set (map fst (children_of rd item members))" for c
  proof -
    from c obtain i m where "m \<in> set members" "c = child_of rd item i m"
      by (auto simp: children_of_def enumerate_eq_zip dest: set_zip_rightD)
    with assms(2) show ?thesis by (cases m) (auto simp: weight_def child_of_def)
  qed
  then have "map weight (map fst (children_of rd item members)) = replicate (length (children_of rd item members)) 1"
    by (intro replicate_eqI) auto
  then have "sum_list (map weight (map fst (children_of rd item members))) =
      sum_list (replicate (length (children_of rd item members)) (1 :: nat))" by (rule arg_cong)
  also have "\<dots> = length (children_of rd item members)" by (simp add: sum_list_replicate)
  also have "\<dots> = length members" by (simp add: children_of_def)
  finally show ?thesis using assms(1) by simp
qed

lemma build_file_weight:
  assumes "build_file rd approved item st = Inr (cs, st')"
  shows "sum_list (map weight cs) < weight item"
proof (cases "cs = []")
  case True
  then show ?thesis by (simp add: weight_def)
next
  case False
  with assms obtain raw members where
      z: "archive_suffix (pf_filename item) = Some ''.zip''" "expand_zip rd (pf_file_id item) raw = Inr members"
         "cs = map fst (children_of rd item members)"
    by (auto simp: build_file_def Let_def bindr_eq_Inr split: if_splits option.splits sum.splits)
  from expand_zip_members [OF z(2)] have "sum_list (map weight cs) \<le> 40"
    unfolding z(3) by (intro children_weight) auto
  with z(1) show ?thesis by (simp add: weight_def)
qed

function build_pages ::
    "'p readers \<Rightarrow> string list \<Rightarrow> pipeline_file list \<Rightarrow> 'p build \<Rightarrow> 'p build result" where
  "build_pages rd approved [] st = Inr st"
| "build_pages rd approved (item # pending) st =
     (case build_file rd approved item st of
        Inl e \<Rightarrow> Inl e
      | Inr (cs, st') \<Rightarrow> build_pages rd approved (pending @ cs) st')"
  by pat_completeness auto

termination
  by (relation "measure (\<lambda>(rd, approved, pending, st). sum_list (map weight pending))")
    (auto dest: build_file_weight)

subsection \<open>Heads of a stage\<close>

definition empty_build :: "(string, bytes) dict \<Rightarrow> 'p build" where
  "empty_build blobs = \<lparr>bd_stored = blobs, bd_seen = [], bd_errors = [], bd_stamps = [], bd_clean = [],
     bd_built = [], bd_expanded = [], bd_expanded_blobs = []\<rparr>"

definition bindo :: "'a result option \<Rightarrow> ('a \<Rightarrow> 'b result) \<Rightarrow> 'b result option" where
  "bindo m f = map_option (\<lambda>r. bindr r f) m"

text \<open>The page of a resolved head, with the document as the resolver returned it.\<close>

definition head_page :: "(string, 'p stage_page) dict \<Rightarrow> identity_head \<Rightarrow> 'p stage_page list result" where
  "head_page by_id h =
     (case resolved (head_resolution h) of
        None \<Rightarrow> Inr []
      | Some r \<Rightarrow>
          if res_status (head_resolution h) \<noteq> RESOLVED then Inr []
          else (case dict_get by_id (doc_file_id (rr_document r)) of
              None \<Rightarrow> raise KeyError [] [doc_file_id (rr_document r)]
            | Some pg \<Rightarrow> Inr [pg\<lparr>page_document := rr_document r\<rparr>]))"

definition last_by_id :: "(document_ref \<times> 'p stage_page) list \<Rightarrow> (string, 'p stage_page) dict" where
  "last_by_id items = fold (\<lambda>(ref, pg). dict_set (doc_file_id ref) pg) items []"

definition stage_heads ::
    "string option \<Rightarrow> string list \<Rightarrow> doc_stage \<Rightarrow> (document_ref \<times> 'p stage_page) list \<Rightarrow> 'p stage_page list result option" where
  "stage_heads env approved stage items =
     bindo (resolve_heads_by_identity env (map fst items) stage approved) (\<lambda>ids.
       bindr (traverse (head_page (last_by_id items)) ids) (\<lambda>pss.
         Inr (if stage = PD \<and> approved \<noteq> []
              then filter (\<lambda>pg. doc_file_id (page_document pg) \<in> set approved \<or>
                       identity_key (page_document pg) \<noteq> None) (concat pss)
              else concat pss)))"

text \<open>
  The pages of a stage, one or several; a stage without a head is not in the result. Each stage in
  the order of its first file.
\<close>

fun stages_loop ::
    "string option \<Rightarrow> string list \<Rightarrow> (doc_stage \<times> (document_ref \<times> 'p stage_page) list) list \<Rightarrow>
      (doc_stage, 'p stage_page list) dict \<Rightarrow> (doc_stage, 'p stage_page list) dict result option" where
  "stages_loop env approved [] pages = Some (Inr pages)"
| "stages_loop env approved ((stage, items) # rest) pages =
     (case stage_heads env approved stage items of
        None \<Rightarrow> None
      | Some (Inl e) \<Rightarrow> Some (Inl e)
      | Some (Inr heads) \<Rightarrow>
          stages_loop env approved rest (if heads = [] then pages else dict_set stage heads pages))"

definition stages_from_heads ::
    "string option \<Rightarrow> (document_ref \<times> 'p stage_page) list \<Rightarrow> string list \<Rightarrow> (doc_stage, 'p stage_page list) dict result option" where
  "stages_from_heads env built approved =
     stages_loop env approved (group_by (\<lambda>(ref, pg). doc_stage ref) built) []"

definition count_built_pages :: "(doc_stage, 'p stage_page list) dict \<Rightarrow> nat" where
  "count_built_pages pages = sum_list (map length (dict_values pages))"

definition pages_from_blobs ::
    "string option \<Rightarrow> 'p readers \<Rightarrow> pipeline_file list \<Rightarrow> (string, bytes) dict \<Rightarrow> string list \<Rightarrow>
      ((doc_stage, 'p stage_page list) dict \<times> 'p build) result option" where
  "pages_from_blobs env rd files blobs approved =
     (case build_pages rd approved files (empty_build blobs) of
        Inl e \<Rightarrow> Some (Inl e)
      | Inr st \<Rightarrow> bindo (stages_from_heads env (bd_built st) approved) (\<lambda>pages. Inr (pages, st)))"

subsection \<open>The run\<close>

definition EXPECTED_PARAM_COUNT :: nat where
  "EXPECTED_PARAM_COUNT = 132"

record 'p rule_input =
  ri_code :: string
  ri_object_id :: string
  ri_pages :: "(doc_stage, 'p stage_page list) dict"
  ri_completeness :: completeness_map
  ri_pool :: "document_ref list"
  ri_approved :: "string list"

text \<open>
  The matrix: its codes, the evaluation of a rule (the result and its \<open>also\<close>), the entries of the
  free search with the mark of those that compare rooms, \<open>None\<close> when there is no catalogue.
\<close>

record 'p matrix =
  mx_codes :: "string list"
  mx_rule :: "'p rule_input \<Rightarrow> (finding \<times> evidence_group option) list result"
  mx_entries :: "(string \<times> bool) list option"
  mx_search :: "'p rule_input \<Rightarrow> (finding \<times> evidence_group option) list result"

record pipeline_report =
  rp_findings :: "finding list"
  rp_rules_evaluated :: nat
  rp_parse_errors :: "string list"
  rp_pages_built :: nat
  rp_stamps :: "(string, approval_status) dict"
  rp_groups :: "evidence_group list"
  rp_clean :: "(string, bool) dict"
  rp_phase_seconds :: "(string, rat) dict"
  rp_expanded :: "pipeline_file list"
  rp_expanded_blobs :: "(string, bytes) dict"

definition numbered_id :: "string \<Rightarrow> nat \<Rightarrow> string" where
  "numbered_id code index = ''pipe-'' @ code @ (if index = 0 then [] else ''-'' @ show_nat index)"

text \<open>The results of one rule: none of them may carry a status \<open>bad\<close>, each gets its id.\<close>

fun take_batch ::
    "(finding_status \<Rightarrow> bool) \<Rightarrow> string \<Rightarrow> string \<Rightarrow> nat \<Rightarrow> (finding \<times> evidence_group option) list \<Rightarrow>
      (finding list \<times> evidence_group list) result" where
  "take_batch bad text code index [] = Inr ([], [])"
| "take_batch bad text code index ((f, g) # rest) =
     (if bad (finding_status f) then raise RuntimeError text [code, finding_status_value (finding_status f)]
      else bindr (mk_finding (f\<lparr>finding_id := numbered_id code index\<rparr>)) (\<lambda>f'.
        bindr (take_batch bad text code (Suc index) rest) (\<lambda>(fs, gs).
          Inr (f' # fs, (case g of None \<Rightarrow> gs | Some x \<Rightarrow> x # gs)))))"

definition run_codes ::
    "(string \<Rightarrow> (finding \<times> evidence_group option) list result) \<Rightarrow> (finding_status \<Rightarrow> bool) \<Rightarrow> string \<Rightarrow>
      string list \<Rightarrow> (finding list \<times> evidence_group list) result" where
  "run_codes evaluate bad text codes =
     bindr (traverse (\<lambda>code. bindr (evaluate code) (take_batch bad text code 0)) codes)
       (\<lambda>rs. Inr (concat (map fst rs), concat (map snd rs)))"

definition assert_machine_only :: "finding list \<Rightarrow> unit result" where
  "assert_machine_only fs =
     (case find (\<lambda>f. finding_status f \<in> set HUMAN_ONLY_STATUSES) fs of
        Some f \<Rightarrow> raise RuntimeError (rule_code f) [finding_status_value (finding_status f)]
      | None \<Rightarrow> Inr ())"

definition compare_pages ::
    "'p matrix \<Rightarrow> string \<Rightarrow> completeness_map \<Rightarrow> string list \<Rightarrow> (doc_stage, 'p stage_page list) dict \<Rightarrow>
      document_ref list \<Rightarrow> (finding list \<times> evidence_group list) result" where
  "compare_pages mx object_id completeness approved pages pool =
     (let input = (\<lambda>code. \<lparr>ri_code = code, ri_object_id = object_id, ri_pages = pages,
            ri_completeness = completeness, ri_pool = pool, ri_approved = approved\<rparr>);
          searched = (case mx_entries mx of None \<Rightarrow> [] | Some es \<Rightarrow> map fst (filter snd es))
      in bindr (run_codes (\<lambda>c. mx_rule mx (input c)) (\<lambda>s. s \<in> set HUMAN_ONLY_STATUSES)
             ''the machine wrote'' (mx_codes mx)) (\<lambda>(fs, gs).
         bindr (run_codes (\<lambda>c. mx_search mx (input c)) (\<lambda>s. s \<noteq> SUSPICION)
             ''the free search wrote'' searched) (\<lambda>(fs', gs').
           Inr (fs @ fs', gs @ gs'))))"

definition run_process_pipeline ::
    "string option \<Rightarrow> 'p readers \<Rightarrow> 'p matrix \<Rightarrow> rat \<times> rat \<Rightarrow> string \<Rightarrow> completeness_map \<Rightarrow>
      pipeline_file list \<Rightarrow> (string, bytes) dict \<Rightarrow> string list \<Rightarrow> pipeline_report result option" where
  "run_process_pipeline env rd mx clocks object_id completeness files blobs approved =
     (if length (mx_codes mx) \<noteq> EXPECTED_PARAM_COUNT
      then Some (raise ValueError ''the matrix has another number of rules'' [show_nat (length (mx_codes mx))])
      else bindo (pages_from_blobs env rd files blobs approved) (\<lambda>(pages, st).
        bindr (compare_pages mx object_id completeness approved pages (map fst (bd_built st))) (\<lambda>(fs, gs).
        bindr (assert_machine_only fs) (\<lambda>_.
          Inr \<lparr>rp_findings = fs, rp_rules_evaluated = length (mx_codes mx), rp_parse_errors = bd_errors st,
            rp_pages_built = count_built_pages pages, rp_stamps = bd_stamps st, rp_groups = gs,
            rp_clean = bd_clean st,
            rp_phase_seconds = [(''parse'', fst clocks), (''compare'', snd clocks)],
            rp_expanded = bd_expanded st, rp_expanded_blobs = bd_expanded_blobs st\<rparr>))))"

text \<open>The stamp of one PDF, without the inspector: an unreadable file is \<open>UNKNOWN\<close>.\<close>

definition stamp_approval_from_pdf :: "'p readers \<Rightarrow> pipeline_file \<Rightarrow> bytes \<Rightarrow> approval_status result" where
  "stamp_approval_from_pdf rd item raw =
     bindr (rd_stamp rd item raw) (\<lambda>stamp. case stamp of None \<Rightarrow> Inr UNKNOWN | Some a \<Rightarrow> Inr a)"

subsection \<open>No file is dropped in silence\<close>

definition accounted :: "'p build \<Rightarrow> pipeline_file \<Rightarrow> bool" where
  "accounted st item =
     ((\<exists>e \<in> set (bd_errors st). starts_with e (pf_file_id item @ '': '')) \<or>
      (\<exists>p \<in> set (bd_built st). doc_file_id (fst p) = pf_file_id item \<and> doc_stage (fst p) = pf_stage item) \<or>
      (\<exists>c \<in> set (bd_expanded st). pf_file_id c = pf_file_id item @ ''__1'' \<and> pf_stage c = pf_stage item))"

definition build_grows :: "'p build \<Rightarrow> 'p build \<Rightarrow> bool" where
  "build_grows a b = (set (bd_errors a) \<subseteq> set (bd_errors b) \<and> set (bd_built a) \<subseteq> set (bd_built b) \<and>
     set (bd_expanded a) \<subseteq> set (bd_expanded b))"

lemma build_grows_refl [simp]: "build_grows a a"
  by (simp add: build_grows_def)

lemma build_grows_trans: "build_grows a b \<Longrightarrow> build_grows b c \<Longrightarrow> build_grows a c"
  by (auto simp: build_grows_def)

lemma accounted_grows: "build_grows a b \<Longrightarrow> accounted a item \<Longrightarrow> accounted b item"
  unfolding accounted_def build_grows_def by blast

lemma starts_with_append [simp]: "starts_with (p @ q) p"
  by (auto simp: starts_with_iff)

lemma add_error_accounts: "accounted (add_error (pf_file_id item) text st) item"
proof -
  have "starts_with (pf_file_id item @ '': '' @ text) (pf_file_id item @ '': '')"
    by (auto simp: starts_with_iff)
  then show ?thesis by (auto simp: accounted_def add_error_def)
qed

lemma add_error_expanded [simp]: "bd_expanded (add_error fid msg st) = bd_expanded st"
  by (simp add: add_error_def)

lemma add_error_grows: "build_grows st (add_error fid text st)"
  by (auto simp: build_grows_def add_error_def)

lemma append_page_grows: "build_grows st (append_page approved item content p clean st)"
  by (auto simp: build_grows_def append_page_def Let_def split: prod.splits)

lemma append_page_accounts: "accounted (append_page approved item content p clean st) item"
  by (auto simp: accounted_def append_page_def Let_def mk_document_ref_def split: prod.splits)

lemma read_with_cases:
  assumes "read_with reader label approved item st = Inr st'"
  obtains (failed) msg where "st' = add_error (pf_file_id item) msg st"
  | (whole) content p clean where "st' = append_page approved item content p clean st"
  | (partial) content p clean msg where
      "st' = append_page approved item content p clean (add_error (pf_file_id item) msg st)"
proof (cases "dict_get (bd_stored st) (pf_file_id item)")
  case None
  with assms failed show thesis by (auto simp: read_with_def)
next
  case (Some raw)
  with assms obtain reading where r: "reader item raw = Inr reading"
    by (auto simp: read_with_def bindr_eq_Inr)
  with assms Some that show thesis by (cases reading) (auto simp: read_with_def split: if_splits)
qed

lemma read_with_accounts:
  assumes "read_with reader label approved item st = Inr st'"
  shows "build_grows st st' \<and> accounted st' item"
  using assms
proof (cases rule: read_with_cases)
  case (failed msg)
  then show ?thesis by (simp add: add_error_grows add_error_accounts)
next
  case (whole content p clean)
  then show ?thesis by (simp add: append_page_grows append_page_accounts)
next
  case (partial content p clean msg)
  show ?thesis unfolding partial
    by (intro conjI build_grows_trans [OF add_error_grows append_page_grows] append_page_accounts)
qed

lemma read_with_expanded: "read_with reader label approved item st = Inr st' \<Longrightarrow> bd_expanded st' = bd_expanded st"
  by (elim read_with_cases) (auto simp: add_error_def append_page_def Let_def split: prod.splits)

lemma zip_documents_error:
  "zip_documents file_id es = Inl e \<Longrightarrow> \<exists>r. exc_text e = file_id @ '': '' @ r"
  by (induction es) (auto simp: Let_def bindr_eq_Inl split: if_splits option.splits)

lemma expand_zip_error:
  assumes "expand_zip rd file_id payload = Inl e"
  shows "\<exists>r. exc_text e = file_id @ '': '' @ r"
  using assms zip_documents_error
  by (auto simp: expand_zip_def bindr_eq_Inl split: if_splits option.splits)

lemma expand_zip_nonempty: "expand_zip rd file_id payload = Inr members \<Longrightarrow> members \<noteq> []"
  by (auto simp: expand_zip_def bindr_eq_Inr split: if_splits option.splits)

lemma add_children_fields:
  "bd_errors (add_children cs st) = bd_errors st \<and> bd_built (add_children cs st) = bd_built st \<and>
   bd_seen (add_children cs st) = bd_seen st \<and>
   bd_expanded (add_children cs st) = bd_expanded st @ map fst cs"
  unfolding add_children_def by (induction cs arbitrary: st) (auto split: prod.splits)

lemma show_one: "show_nat (Suc 0) = ''1''"
  by code_simp

lemma first_child:
  "members \<noteq> [] \<Longrightarrow> \<exists>c \<in> set (map fst (children_of rd item members)).
     pf_file_id c = pf_file_id item @ ''__1'' \<and> pf_stage c = pf_stage item"
  by (cases members) (auto simp: children_of_def child_of_def show_one split: prod.splits)

lemma build_file_accounts:
  assumes "build_file rd approved item st = Inr (cs, st')"
  shows "build_grows st st' \<and> accounted st' item \<and> set (bd_expanded st') \<subseteq> set (bd_expanded st) \<union> set cs"
proof -
  let ?st = "st\<lparr>bd_seen := bd_seen st @ [pf_file_id item]\<rparr>"
  have g: "build_grows ?st x \<Longrightarrow> build_grows st x" for x by (simp add: build_grows_def)
  have rd: "read_with r l approved item ?st = Inr st' \<Longrightarrow> build_grows st st' \<and> accounted st' item \<and>
      bd_expanded st' = bd_expanded st" for r l
  proof -
    assume r: "read_with r l approved item ?st = Inr st'"
    have "bd_expanded st' = bd_expanded ?st" by (rule read_with_expanded [OF r])
    with read_with_accounts [OF r] g show ?thesis by simp
  qed
  have err: "build_grows st (add_error (pf_file_id item) t ?st) \<and> accounted (add_error (pf_file_id item) t ?st) item \<and>
      bd_expanded (add_error (pf_file_id item) t ?st) = bd_expanded st" for t
  proof -
    have "accounted (add_error (pf_file_id item) t ?st) item" by (rule add_error_accounts)
    with g [OF add_error_grows] show ?thesis by (simp add: add_error_def)
  qed
  have zerr: "build_grows st (?st\<lparr>bd_errors := bd_errors ?st @ [exc_text e @ concat (exc_args e)]\<rparr>) \<and>
      accounted (?st\<lparr>bd_errors := bd_errors ?st @ [exc_text e @ concat (exc_args e)]\<rparr>) item"
    if "expand_zip rd (pf_file_id item) raw = Inl e" for e raw
    using expand_zip_error [OF that] by (auto simp: build_grows_def accounted_def starts_with_iff)
  have zok: "build_grows st (add_children (children_of rd item members) ?st) \<and>
      accounted (add_children (children_of rd item members) ?st) item \<and>
      bd_expanded (add_children (children_of rd item members) ?st) = bd_expanded st @ map fst (children_of rd item members)"
    if "expand_zip rd (pf_file_id item) raw = Inr members" for members raw
    using first_child [OF expand_zip_nonempty [OF that], of rd item] add_children_fields [of "children_of rd item members" ?st]
    by (auto simp: build_grows_def accounted_def)
  show ?thesis
    using assms rd err zerr zok add_error_grows [of st] add_error_accounts [of item _ st]
    by (auto simp: build_file_def Let_def bindr_eq_Inr split: if_splits option.splits sum.splits)
qed

lemma build_pages_accounts:
  "build_pages rd approved files st = Inr st' \<Longrightarrow> build_grows st st' \<and> (\<forall>item \<in> set files. accounted st' item) \<and>
     (\<forall>c \<in> set (bd_expanded st'). c \<in> set (bd_expanded st) \<or> accounted st' c)"
proof (induction rd approved files st rule: build_pages.induct)
  case (2 rd approved item pending st)
  obtain cs st1 where b: "build_file rd approved item st = Inr (cs, st1)"
    using "2.prems" by (auto split: sum.splits)
  note step = build_file_accounts [OF b]
  from "2.IH" [OF b refl] "2.prems" b have ih: "build_grows st1 st' \<and> (\<forall>i \<in> set (pending @ cs). accounted st' i) \<and>
     (\<forall>c \<in> set (bd_expanded st'). c \<in> set (bd_expanded st1) \<or> accounted st' c)" by simp
  have "accounted st' item" using accounted_grows step ih by blast
  moreover have "build_grows st st'" using build_grows_trans step ih by blast
  ultimately show ?case using ih step by auto
qed simp

subsection \<open>What a run reports\<close>

lemma stages_loop_total: "\<exists>r. stages_loop env approved groups pages = Some r"
proof (induction groups arbitrary: pages)
  case (Cons g groups)
  obtain stage items where g: "g = (stage, items)" by (cases g)
  obtain hs where "resolve_heads_by_identity env (map fst items) stage approved = Some (Inr hs)"
    using heads_exist by blast
  then obtain r where "stage_heads env approved stage items = Some r"
    by (simp add: stage_heads_def bindo_def)
  with Cons.IH g show ?case by (cases r) auto
qed simp

lemma run_total: "\<exists>r. run_process_pipeline env rd mx clocks object_id completeness files blobs approved = Some r"
proof -
  have "\<exists>r. pages_from_blobs env rd files blobs approved = Some r"
    using stages_loop_total
    by (fastforce simp: pages_from_blobs_def stages_from_heads_def bindo_def split: sum.splits)
  then show ?thesis by (auto simp: run_process_pipeline_def bindo_def)
qed

lemma take_batch_Inr:
  "take_batch bad msg code i rs = Inr (fs, gs) \<Longrightarrow> f \<in> set fs \<Longrightarrow>
   \<not> bad (finding_status f) \<and> wf_finding f \<and> (\<exists>k. finding_id f = numbered_id code k)"
proof (induction rs arbitrary: i fs gs)
  case (Cons r rs)
  obtain f0 g0 where r: "r = (f0, g0)" by (cases r)
  from Cons.prems(1) r obtain fs' gs' where b: "\<not> bad (finding_status f0)"
      "wf_finding (f0\<lparr>finding_id := numbered_id code i\<rparr>)" "take_batch bad msg code (Suc i) rs = Inr (fs', gs')"
      "fs = f0\<lparr>finding_id := numbered_id code i\<rparr> # fs'"
    by (auto simp: bindr_eq_Inr mk_finding_Inr split: if_splits)
  show ?case
  proof (cases "f \<in> set fs'")
    case True
    with Cons.IH b(3) show ?thesis by blast
  next
    case False
    with Cons.prems(2) b show ?thesis by auto
  qed
qed simp

lemma run_codes_Inr:
  assumes "run_codes evaluate bad msg codes = Inr (fs, gs)" and "f \<in> set fs"
  shows "\<not> bad (finding_status f) \<and> wf_finding f \<and> (\<exists>code \<in> set codes. \<exists>k. finding_id f = numbered_id code k)"
proof -
  from assms obtain rs where rs: "traverse (\<lambda>code. bindr (evaluate code) (take_batch bad msg code 0)) codes = Inr rs"
      "fs = concat (map fst rs)"
    by (auto simp: run_codes_def bindr_eq_Inr)
  with assms(2) obtain r where r: "r \<in> set rs" "f \<in> set (fst r)" by auto
  from traverse_bwd [OF rs(1) r(1)] obtain code batch where
    "code \<in> set codes" "take_batch bad msg code 0 batch = Inr r" by (auto simp: bindr_eq_Inr)
  with take_batch_Inr [of bad msg code 0 batch "fst r" "snd r" f] r(2) show ?thesis by auto
qed

lemma compare_pages_Inr:
  assumes "compare_pages mx object_id completeness approved pages pool = Inr (fs, gs)" and "f \<in> set fs"
  shows "finding_status f \<notin> set HUMAN_ONLY_STATUSES \<and> wf_finding f \<and>
    (\<exists>code k. finding_id f = numbered_id code k \<and>
      (code \<in> set (mx_codes mx) \<or> finding_status f = SUSPICION \<and> (\<exists>es. mx_entries mx = Some es \<and> (code, True) \<in> set es)))"
proof -
  from assms(1) obtain fs1 gs1 fs2 gs2 evaluate search where
    r: "run_codes evaluate (\<lambda>s. s \<in> set HUMAN_ONLY_STATUSES) ''the machine wrote'' (mx_codes mx) = Inr (fs1, gs1)"
       "run_codes search (\<lambda>s. s \<noteq> SUSPICION) ''the free search wrote''
          (case mx_entries mx of None \<Rightarrow> [] | Some es \<Rightarrow> map fst (filter snd es)) = Inr (fs2, gs2)" "fs = fs1 @ fs2"
    by (auto simp: compare_pages_def bindr_eq_Inr Let_def)
  have sus: "SUSPICION \<notin> set HUMAN_ONLY_STATUSES" by (simp add: HUMAN_ONLY_STATUSES_def)
  show ?thesis
  proof (cases "f \<in> set fs1")
    case True
    with run_codes_Inr [OF r(1)] show ?thesis by blast
  next
    case False
    with assms(2) r(3) have "f \<in> set fs2" by simp
    with run_codes_Inr [OF r(2)] obtain code k where f: "finding_status f = SUSPICION" "wf_finding f"
      "code \<in> set (case mx_entries mx of None \<Rightarrow> [] | Some es \<Rightarrow> map fst (filter snd es))" "finding_id f = numbered_id code k"
      by blast
    then obtain es where "mx_entries mx = Some es" "(code, True) \<in> set es"
      by (cases "mx_entries mx") auto
    with f sus show ?thesis by auto
  qed
qed

lemma report_of_run:
  assumes "run_process_pipeline env rd mx clocks object_id completeness files blobs approved = Some (Inr report)"
  shows "length (mx_codes mx) = 132 \<and> rp_rules_evaluated report = 132 \<and>
    (\<forall>f \<in> set (rp_findings report). finding_status f \<notin> set HUMAN_ONLY_STATUSES \<and> wf_finding f \<and>
      (\<exists>code k. finding_id f = numbered_id code k \<and>
        (code \<in> set (mx_codes mx) \<or> finding_status f = SUSPICION \<and> (\<exists>es. mx_entries mx = Some es \<and> (code, True) \<in> set es))))"
proof -
  from assms obtain pages pool fs gs where r:
      "compare_pages mx object_id completeness approved pages pool = Inr (fs, gs)"
      "length (mx_codes mx) = 132" "rp_findings report = fs" "rp_rules_evaluated report = length (mx_codes mx)"
    by (auto simp: run_process_pipeline_def bindo_def bindr_eq_Inr EXPECTED_PARAM_COUNT_def split: if_splits)
  with compare_pages_Inr [OF r(1)] show ?thesis by auto
qed

subsection \<open>Properties\<close>



definition sample_readers :: "unit readers" where
  "sample_readers = \<lparr>rd_xml = (\<lambda>_ _. Inr NoText), rd_docx = (\<lambda>_ _. Inr NoText),
     rd_pdf = (\<lambda>_ _. Inr (Unreadable ''not a PDF'')), rd_stamp = (\<lambda>_ _. Inr None),
     rd_directory = (\<lambda>_. None), rd_zip = (\<lambda>_. None), rd_sha = id\<rparr>"

definition suspicion :: finding where
  "suspicion = \<lparr>finding_id = ''x'', rule_code = ''R'', finding_status = SUSPICION, review_priority = LOW,
     matrix_version = ''m'', rule_version = ''1'', model_version = ''none'', evidence_group_id = Some ''g'',
     expected_value = None, actual_value = None, delta = None, rationale = [], llm_draft = None,
     inspector_decision = None, source_id = None, evidence_refs = [],
     disagreement_kind = None\<rparr>"

definition sample_matrix :: "unit matrix" where
  "sample_matrix = \<lparr>mx_codes = replicate 132 ''R'', mx_rule = (\<lambda>_. Inr []), mx_entries = Some [(''FS'', True)],
     mx_search = (\<lambda>_. Inr [(suspicion, None)])\<rparr>"

definition sample_file :: pipeline_file where
  "sample_file = \<lparr>pf_file_id = ''f'', pf_file_hash = ''h'', pf_filename = ''a.pdf'', pf_stage = PD,
     pf_predecessor = None, pf_successor = None, pf_manifest_section = None, pf_manifest_path = None\<rparr>"

lemma sample_lower: "str_lower ''a.pdf'' = ''a.pdf''"
  by (simp add: str_lower_def lower_code_def odd_case_pairs_def char_of_def bit_iff_odd)

lemma sample_build:
  "build_pages sample_readers [] [sample_file] (empty_build [(''f'', [])]) =
     Inr ((empty_build [(''f'', [])])\<lparr>bd_seen := [''f''], bd_errors := [''f: not a PDF'']\<rparr>)"
proof -
  have "archive_suffix ''a.pdf'' = None" "office_suffix ''a.pdf'' = None" "is_pdf ''a.pdf''"
    by (simp_all add: archive_suffix_def office_suffix_def is_pdf_def sample_lower ends_with_def)
  then show ?thesis
    by (simp add: build_file_def sample_file_def empty_build_def read_with_def sample_readers_def add_error_def)
qed



end
