(* ===== verification/Runtime.thy ===== *)
theory Runtime
  imports Postgres_Store Revision_Diff Process_Pipeline Retry_Policy Normalize
begin

section \<open>The workspace of processes (application/runtime.py, infrastructure/object\_store.py)\<close>

text \<open>
  The processes of one API instance in memory and what they keep in the store: files, findings,
  evidence, journal, state. The store is the record of its operations (\<open>ProcessStore\<close>), instantiated
  by the memory store and by PostgreSQL; the object store is the one in memory. A process record is
  the one object of its id: an operation on a record is a program over the workspace that names it by
  that id, and every assignment of the code is a step of the program, so the state an exception leaves
  behind is the one the code leaves. Clocks, fresh ids and the settings of the environment are
  arguments. Operations run one after another (the worker thread is the subject of Pipeline\_Worker).
\<close>

record accepted_file =
  af_file_id :: string
  af_file_hash :: string
  af_filename :: string
  af_stage :: doc_stage
  af_size_bytes :: int
  af_stamp :: approval_status
  af_predecessor :: "string option"
  af_successor :: "string option"
  af_section :: "string option"
  af_path :: "string option"
  af_file_path :: "string option"
  af_declared :: "string option"

record process_record =
  pr_process_id :: string
  pr_object_id :: string
  pr_state :: process_state
  pr_completeness :: completeness_map
  pr_scenario :: scenario
  pr_sync_state :: sync_state
  pr_sync_attempts :: int
  pr_parse_attempts :: int
  pr_findings :: "(string, finding) dict"
  pr_groups :: "(string, evidence_group) dict"
  pr_files :: "accepted_file list"
  pr_blobs :: "(string, bytes) dict"
  pr_journal :: "audit_event list"
  pr_bound :: "string option"
  pr_finalized_by :: "string option"
  pr_matrix_version :: string
  pr_model_version :: string
  pr_dataset_version :: string
  pr_manifest_hash :: string
  pr_git_sha :: string
  pr_sync_notice :: "string option"
  pr_protocol_id :: "string option"
  pr_approved :: "string list"
  pr_phase_seconds :: "(string, rat) dict"

definition has_file :: "process_record \<Rightarrow> string \<Rightarrow> doc_stage \<Rightarrow> bool" where
  "has_file r content_hash stage =
     list_ex (\<lambda>f. af_file_hash f = content_hash \<and> af_stage f = stage) (pr_files r)"

subsection \<open>What a process shows\<close>

definition PHASE_ORDER :: "string list" where
  "PHASE_ORDER = [''upload'', ''parse'', ''compare'', ''protocol'']"

definition CALLER_PHASES :: "string list" where
  "CALLER_PHASES = [''upload'', ''protocol'']"

definition PIPELINE_PHASES :: "string list" where
  "PIPELINE_PHASES = [''parse'', ''compare'']"

definition public_phase_seconds :: "(string, rat) dict \<Rightarrow> (string, rat) dict" where
  "public_phase_seconds clocks =
     List.map_filter (\<lambda>key. map_option (\<lambda>x. (key, of_int (round_int Half_Even (x * 1000000)) / 1000000))
       (dict_get clocks key)) PHASE_ORDER"

definition counted :: "finding_status \<Rightarrow> finding list \<Rightarrow> json" where
  "counted st fs = JInt (int (length (filter (\<lambda>f. finding_status f = st) fs)))"

definition to_status :: "process_record \<Rightarrow> json result" where
  "to_status r =
     (let fs = dict_values (pr_findings r)
      in bindr (completeness_of (pr_completeness r) PD) (\<lambda>pd.
         bindr (completeness_of (pr_completeness r) RD) (\<lambda>rd.
         bindr (completeness_of (pr_completeness r) ID) (\<lambda>idc.
           Inr (JObj
             [(''process_id'', JStr (pr_process_id r)),
              (''process_state'', JStr (process_state_value (pr_state r))),
              (''scenario'', JStr (scenario_value (pr_scenario r))),
              (''completeness'', JObj [(''pd'', JStr (tz_upload_status PD pd)),
                 (''rd'', JStr (tz_upload_status RD rd)), (''id'', JStr (tz_upload_status ID idc))]),
              (''protocol_status'', case protocol_status (pr_state r) of None \<Rightarrow> JNull | Some s \<Rightarrow> JStr s),
              (''counters'', JObj [(''candidates'', counted CANDIDATE fs),
                 (''confirmed_violations'', counted CONFIRMED_VIOLATION fs),
                 (''negative_verified'', counted NEGATIVE_VERIFIED fs),
                 (''missing_evidence'', counted MISSING_EVIDENCE fs),
                 (''clarification_required'', counted CLARIFICATION_REQUIRED fs),
                 (''suspicions'', counted SUSPICION fs)]),
              (''sync_state'', JStr (sync_state_value (pr_sync_state r))),
              (''phase_seconds'', JObj (map (\<lambda>(k, v). (k, JFloat v)) (public_phase_seconds (pr_phase_seconds r)))),
              (''versions'', JObj [(''matrix_version'', JStr (pr_matrix_version r)),
                 (''model_version'', JStr (pr_model_version r)), (''dataset_version'', JStr (pr_dataset_version r)),
                 (''input_manifest_hash'', JStr (pr_manifest_hash r)), (''git_sha'', JStr (pr_git_sha r))])])))))"

text \<open>A decision survives a new run only with the same group, rule and numbers.\<close>

definition carry_inspector_decision :: "finding \<Rightarrow> finding \<Rightarrow> finding result" where
  "carry_inspector_decision previous fresh =
     (case inspector_decision previous of
        None \<Rightarrow> Inr fresh
      | Some decision \<Rightarrow>
          if evidence_group_id previous \<noteq> evidence_group_id fresh then Inr fresh
          else if rule_code previous \<noteq> rule_code fresh then Inr fresh
          else if \<not> (py_eq (expected_value previous) (expected_value fresh) \<and>
                     py_eq (actual_value previous) (actual_value fresh)) then Inr fresh
          else if finding_status fresh \<noteq> CANDIDATE then Inr fresh
          else if finding_status previous \<notin> {CONFIRMED_VIOLATION, NEGATIVE_VERIFIED} then Inr fresh
          else mk_finding (fresh\<lparr>finding_status := finding_status previous, inspector_decision := Some decision\<rparr>))"

text \<open>\<open>build_input_manifest\<close> (evaluation/submission\_pack.py); the digest of the sorted rows is an argument.\<close>

definition manifest_row :: "string \<times> string \<Rightarrow> (string \<times> string) result" where
  "manifest_row = (\<lambda>(fid, h).
     let file_id = strip fid; file_hash = str_lower (strip h)
     in if file_id = [] then raise ValueError ''input_manifest: empty file_id'' []
        else if length file_hash \<noteq> 64 \<or> list_ex (\<lambda>c. c \<notin> set ''0123456789abcdef'') file_hash
          then raise ValueError ''input_manifest: no SHA-256'' [file_id]
        else Inr (file_id, file_hash))"

definition manifest_json :: "(string \<times> string) list \<Rightarrow> json" where
  "manifest_json rows = canon (JArr (map (\<lambda>(i, h). JObj [(''file_id'', JStr i), (''file_hash'', JStr h)]) rows))"

definition manifest_hash :: "(json \<Rightarrow> string) \<Rightarrow> accepted_file list \<Rightarrow> string result" where
  "manifest_hash sha files =
     bindr (traverse manifest_row (map (\<lambda>f. (af_file_id f, af_file_hash f)) files)) (\<lambda>rows.
       Inr (if rows = [] then ''pending'' else sha (manifest_json (sort_key (\<lambda>(i, h). [i, h]) rows))))"

subsection \<open>The store and the workspace\<close>

record 's store_port =
  sp_load :: "'s \<Rightarrow> string \<Rightarrow> process_snapshot option"
  sp_save :: "process_snapshot \<Rightarrow> ('s, unit) prog"
  sp_save_finding :: "string \<Rightarrow> finding \<Rightarrow> 's \<Rightarrow> 's"
  sp_load_findings :: "timestamp \<Rightarrow> 's \<Rightarrow> string \<Rightarrow> finding list result"
  sp_replace_findings :: "string \<Rightarrow> finding list \<Rightarrow> 's \<Rightarrow> 's"
  sp_save_audit :: "string \<Rightarrow> string \<Rightarrow> string \<Rightarrow> json \<Rightarrow> 's \<Rightarrow> 's"
  sp_load_audit :: "'s \<Rightarrow> string \<Rightarrow> audit_event list"
  sp_save_evidence :: "string \<Rightarrow> evidence_group list \<Rightarrow> ('s, unit) prog"
  sp_load_evidence :: "'s \<Rightarrow> string \<Rightarrow> evidence_group list"
  sp_next_version :: "'s \<Rightarrow> string \<Rightarrow> int"
  sp_materialize :: "timestamp \<Rightarrow> process_snapshot \<Rightarrow> json \<Rightarrow> ('s, unit) prog"
  sp_protocol :: "'s \<Rightarrow> string \<Rightarrow> json option"
  sp_protocol_version :: "'s \<Rightarrow> string \<Rightarrow> int \<Rightarrow> json option"
  sp_full_protocol :: "'s \<Rightarrow> string \<Rightarrow> json option"
  sp_full_protocol_version :: "'s \<Rightarrow> string \<Rightarrow> int \<Rightarrow> json option"

definition memory_port :: "(json \<Rightarrow> string) \<Rightarrow> memory_store store_port" where
  "memory_port sha =
     \<lparr>sp_load = memory_load, sp_save = memory_save, sp_save_finding = memory_save_finding,
      sp_load_findings = (\<lambda>now ms pid. Inr (memory_load_findings ms pid)),
      sp_replace_findings = memory_replace_findings, sp_save_audit = memory_save_audit,
      sp_load_audit = memory_load_audit, sp_save_evidence = memory_save_evidence,
      sp_load_evidence = memory_load_evidence, sp_next_version = memory_next_version,
      sp_materialize = memory_materialize sha, sp_protocol = memory_load_protocol,
      sp_protocol_version = memory_load_protocol_version, sp_full_protocol = memory_load_full_protocol,
      sp_full_protocol_version = memory_load_full_protocol_version\<rparr>"

definition postgres_port :: "(json \<Rightarrow> string) \<Rightarrow> pg_store store_port" where
  "postgres_port sha =
     \<lparr>sp_load = pg_load, sp_save = pg_save,
      sp_save_finding = (\<lambda>pid f pg. pg\<lparr>pg_findings := pg_save_finding pid f (pg_findings pg)\<rparr>),
      sp_load_findings = (\<lambda>now pg pid. pg_load_findings pid now (pg_findings pg)),
      sp_replace_findings = (\<lambda>pid fs pg. pg\<lparr>pg_findings := pg_replace_findings pid fs (pg_findings pg)\<rparr>),
      sp_save_audit = pg_save_audit, sp_load_audit = pg_load_audit, sp_save_evidence = pg_save_evidence,
      sp_load_evidence = pg_load_evidence, sp_next_version = pg_next_version,
      sp_materialize = pg_materialize True sha, sp_protocol = pg_load_protocol,
      sp_protocol_version = pg_load_protocol_version, sp_full_protocol = pg_load_full_protocol,
      sp_full_protocol_version = pg_load_full_protocol_version\<rparr>"

record 's workspace =
  ws_items :: "(string, process_record) dict"
  ws_store :: 's
  ws_objects :: "(string, bytes) dict"

text \<open>The settings of a workspace: its store, the readers and the matrix, the catalogues, the digests.\<close>

record ('s, 'p) settings =
  st_port :: "'s store_port"
  st_policy :: "string option"
  st_readers :: "'p readers"
  st_matrix :: "'p matrix"
  st_catalog :: "json list"
  st_rules :: "string \<Rightarrow> json option"
  st_shuffle :: "reading list \<Rightarrow> reading list"
  st_sha :: "json \<Rightarrow> string"
  st_git_sha :: string

subsection \<open>Steps\<close>

definition readp :: "('s \<Rightarrow> 'a result) \<Rightarrow> ('s, 'a) prog" where
  "readp f s = (f s, s)"

definition the_record :: "string \<Rightarrow> ('s workspace, process_record) prog" where
  "the_record pid = readp (\<lambda>ws. case dict_get (ws_items ws) pid of
       None \<Rightarrow> raise KeyError [] [pid] | Some r \<Rightarrow> Inr r)"

definition change :: "string \<Rightarrow> (process_record \<Rightarrow> process_record) \<Rightarrow> ('s workspace, unit) prog" where
  "change pid f = modp (\<lambda>ws. case dict_get (ws_items ws) pid of
       None \<Rightarrow> ws | Some r \<Rightarrow> ws\<lparr>ws_items := dict_set pid (f r) (ws_items ws)\<rparr>)"

definition on_db :: "('s, 'a) prog \<Rightarrow> ('s workspace, 'a) prog" where
  "on_db m ws = (case m (ws_store ws) of (r, s) \<Rightarrow> (r, ws\<lparr>ws_store := s\<rparr>))"

definition to_db :: "('s \<Rightarrow> 's) \<Rightarrow> ('s workspace, unit) prog" where
  "to_db f = modp (\<lambda>ws. ws\<lparr>ws_store := f (ws_store ws)\<rparr>)"

text \<open>\<open>MemoryAudit.record\<close>: the list in memory, then the store when the journal is bound to one.\<close>

definition record_audit :: "'s store_port \<Rightarrow> string \<Rightarrow> 's workspace audit_port" where
  "record_audit port pid who act payload =
     bindp (the_record pid) (\<lambda>r.
     bindp (change pid (\<lambda>r. r\<lparr>pr_journal := pr_journal r @ [(who, act, payload)]\<rparr>)) (\<lambda>_.
       case pr_bound r of
         None \<Rightarrow> liftp (Inr ())
       | Some target \<Rightarrow> to_db (sp_save_audit port target who act payload)))"

text \<open>\<open>_snapshot\<close> and \<open>_hydrate\<close>.\<close>

definition file_row :: "accepted_file \<Rightarrow> file_record" where
  "file_row f = \<lparr>rec_file_id = af_file_id f, rec_file_hash = af_file_hash f, rec_filename = af_filename f,
     rec_stage = af_stage f, rec_size_bytes = af_size_bytes f, rec_predecessor = af_predecessor f,
     rec_successor = af_successor f, rec_file_path = af_file_path f\<rparr>"

definition accepted_of_row :: "file_record \<Rightarrow> accepted_file" where
  "accepted_of_row f = \<lparr>af_file_id = rec_file_id f, af_file_hash = rec_file_hash f, af_filename = rec_filename f,
     af_stage = rec_stage f, af_size_bytes = rec_size_bytes f, af_stamp = UNKNOWN,
     af_predecessor = rec_predecessor f, af_successor = rec_successor f, af_section = None, af_path = None,
     af_file_path = rec_file_path f, af_declared = None\<rparr>"

definition snapshot_of :: "process_record \<Rightarrow> process_snapshot result" where
  "snapshot_of r =
     bindr (completeness_of (pr_completeness r) PD) (\<lambda>pd.
     bindr (completeness_of (pr_completeness r) RD) (\<lambda>rd.
     bindr (completeness_of (pr_completeness r) ID) (\<lambda>idc.
       Inr \<lparr>sn_process_id = pr_process_id r, sn_object_id = pr_object_id r, sn_process_state = pr_state r,
         sn_scenario = pr_scenario r, sn_matrix_version = pr_matrix_version r,
         sn_model_version = pr_model_version r, sn_dataset_version = Some (pr_dataset_version r),
         sn_parse_attempts = pr_parse_attempts r, sn_sync_attempts = pr_sync_attempts r,
         sn_sync_state = pr_sync_state r, sn_last_error_code = pr_sync_notice r,
         sn_finalized_by = pr_finalized_by r, sn_protocol_id = pr_protocol_id r,
         sn_completeness_pd = pd, sn_completeness_rd = rd, sn_completeness_id = idc,
         sn_input_manifest_hash = pr_manifest_hash r, sn_files = map file_row (pr_files r)\<rparr>)))"

definition persist :: "'s store_port \<Rightarrow> string \<Rightarrow> ('s workspace, unit) prog" where
  "persist port pid =
     bindp (the_record pid) (\<lambda>r. bindp (liftp (snapshot_of r)) (\<lambda>snap. on_db (sp_save port snap)))"

definition save_evidence :: "'s store_port \<Rightarrow> string \<Rightarrow> ('s workspace, unit) prog" where
  "save_evidence port pid =
     bindp (persist port pid) (\<lambda>_.
     bindp (the_record pid) (\<lambda>r. on_db (sp_save_evidence port pid (dict_values (pr_groups r)))))"

subsection \<open>Bodies of files\<close>

definition object_key :: "string \<Rightarrow> string \<Rightarrow> string result" where
  "object_key pid file_id =
     (if blank pid \<or> blank file_id then raise ValueError ''process_id and file_id are required'' []
      else if CHR ''/'' \<in> set pid \<or> CHR ''/'' \<in> set file_id then
        raise ValueError ''process_id and file_id may not contain /'' []
      else Inr (pid @ ''/'' @ file_id))"

definition object_put :: "string \<Rightarrow> string \<Rightarrow> bytes \<Rightarrow> ('s workspace, string) prog" where
  "object_put pid file_id content =
     bindp (liftp (object_key pid file_id)) (\<lambda>key.
     bindp (modp (\<lambda>ws. ws\<lparr>ws_objects := dict_set key content (ws_objects ws)\<rparr>)) (\<lambda>_.
       liftp (Inr key)))"

definition object_get :: "(string, bytes) dict \<Rightarrow> string \<Rightarrow> string \<Rightarrow> bytes option result" where
  "object_get objects pid file_id = bindr (object_key pid file_id) (\<lambda>key. Inr (dict_get objects key))"

fun update_first :: "('a \<Rightarrow> bool) \<Rightarrow> ('a \<Rightarrow> 'a) \<Rightarrow> 'a list \<Rightarrow> 'a list" where
  "update_first P f [] = []"
| "update_first P f (x # xs) = (if P x then f x # xs else x # update_first P f xs)"

definition keep_blob :: "'s store_port \<Rightarrow> string \<Rightarrow> string \<Rightarrow> bytes \<Rightarrow> ('s workspace, unit) prog" where
  "keep_blob port pid file_id content =
     bindp (object_put pid file_id content) (\<lambda>key.
     bindp (change pid (\<lambda>r. r\<lparr>pr_blobs := dict_set file_id content (pr_blobs r)\<rparr>)) (\<lambda>_.
     bindp (change pid (\<lambda>r. r\<lparr>pr_files := update_first (\<lambda>f. af_file_id f = file_id)
          (\<lambda>f. f\<lparr>af_file_path := Some key\<rparr>) (pr_files r)\<rparr>)) (\<lambda>_.
       persist port pid)))"

definition get_blob :: "string \<Rightarrow> string \<Rightarrow> ('s workspace, bytes option) prog" where
  "get_blob pid file_id =
     bindp (the_record pid) (\<lambda>r.
       case dict_get (pr_blobs r) file_id of
         Some cached \<Rightarrow> liftp (Inr (Some cached))
       | None \<Rightarrow>
           bindp (readp (\<lambda>ws. object_get (ws_objects ws) pid file_id)) (\<lambda>loaded.
           bindp (change pid (\<lambda>r. case loaded of None \<Rightarrow> r
               | Some body \<Rightarrow> r\<lparr>pr_blobs := dict_set file_id body (pr_blobs r)\<rparr>)) (\<lambda>_.
             liftp (Inr loaded))))"

subsection \<open>Creating, loading and extending a process\<close>

text \<open>\<open>dataset_version or "unspecified"\<close>; the bodies of the files come from the object store.\<close>

fun hydrate_blobs :: "(string, bytes) dict \<Rightarrow> string \<Rightarrow> accepted_file list \<Rightarrow> (string, bytes) dict \<Rightarrow> (string, bytes) dict result" where
  "hydrate_blobs objects pid [] blobs = Inr blobs"
| "hydrate_blobs objects pid (f # fs) blobs =
     bindr (object_get objects pid (af_file_id f)) (\<lambda>body.
       hydrate_blobs objects pid fs (case body of None \<Rightarrow> blobs | Some b \<Rightarrow> dict_set (af_file_id f) b blobs))"

definition hydrate :: "string \<Rightarrow> (string, bytes) dict \<Rightarrow> process_snapshot \<Rightarrow> process_record result" where
  "hydrate git objects sn =
     (let files = map accepted_of_row (sn_files sn)
      in bindr (hydrate_blobs objects (sn_process_id sn) files []) (\<lambda>blobs.
         Inr \<lparr>pr_process_id = sn_process_id sn, pr_object_id = sn_object_id sn, pr_state = sn_process_state sn,
           pr_completeness = [(PD, sn_completeness_pd sn), (RD, sn_completeness_rd sn), (ID, sn_completeness_id sn)],
           pr_scenario = sn_scenario sn, pr_sync_state = sn_sync_state sn, pr_sync_attempts = sn_sync_attempts sn,
           pr_parse_attempts = sn_parse_attempts sn, pr_findings = [], pr_groups = [], pr_files = files,
           pr_blobs = blobs, pr_journal = [], pr_bound = None, pr_finalized_by = sn_finalized_by sn,
           pr_matrix_version = sn_matrix_version sn, pr_model_version = sn_model_version sn,
           pr_dataset_version = or_str (sn_dataset_version sn) ''unspecified'',
           pr_manifest_hash = sn_input_manifest_hash sn, pr_git_sha = git, pr_sync_notice = sn_last_error_code sn,
           pr_protocol_id = sn_protocol_id sn, pr_approved = [], pr_phase_seconds = []\<rparr>))"

text \<open>The files an inspector has chosen, read back from the journal.\<close>

definition selected_files :: "audit_event list \<Rightarrow> string list" where
  "selected_files events =
     remdups (List.map_filter (\<lambda>(who, act, payload).
       if act = ''SELECT_REVISION'' then (case jget payload ''file_id'' of Some (JStr f) \<Rightarrow> Some f | _ \<Rightarrow> None)
       else None) events)"

definition get_process :: "('s, 'p) settings \<Rightarrow> timestamp \<Rightarrow> string \<Rightarrow> ('s workspace, process_record option) prog" where
  "get_process st now pid =
     bindp (readp (\<lambda>ws. Inr (dict_get (ws_items ws) pid))) (\<lambda>current.
       case current of
         Some r \<Rightarrow> liftp (Inr (Some r))
       | None \<Rightarrow>
           bindp (readp (\<lambda>ws. Inr (sp_load (st_port st) (ws_store ws) pid))) (\<lambda>snapshot.
             case snapshot of
               None \<Rightarrow> liftp (Inr None)
             | Some sn \<Rightarrow>
                 bindp (readp (\<lambda>ws. hydrate (st_git_sha st) (ws_objects ws) sn)) (\<lambda>r0.
                 bindp (readp (\<lambda>ws. sp_load_findings (st_port st) now (ws_store ws) pid)) (\<lambda>fs.
                 bindp (readp (\<lambda>ws.
                   let events = sp_load_audit (st_port st) (ws_store ws) pid
                   in Inr (r0\<lparr>pr_findings := fold (\<lambda>f. dict_set (finding_key f) f) fs [],
                       pr_groups := fold (\<lambda>g. dict_set (group_id g) g) (sp_load_evidence (st_port st) (ws_store ws) pid) [],
                       pr_journal := events, pr_bound := Some pid, pr_approved := selected_files events\<rparr>))) (\<lambda>r.
                 bindp (modp (\<lambda>ws. ws\<lparr>ws_items := dict_set pid r (ws_items ws)\<rparr>)) (\<lambda>_.
                   liftp (Inr (Some r))))))))"

definition new_record :: "string \<Rightarrow> string \<Rightarrow> string \<Rightarrow> completeness_map \<Rightarrow> scenario \<Rightarrow> process_record" where
  "new_record git pid object_id completeness sc =
     \<lparr>pr_process_id = pid, pr_object_id = object_id, pr_state = PARSING, pr_completeness = completeness,
      pr_scenario = sc, pr_sync_state = NOT_REQUESTED, pr_sync_attempts = 0, pr_parse_attempts = 0,
      pr_findings = [], pr_groups = [], pr_files = [], pr_blobs = [], pr_journal = [], pr_bound = Some pid,
      pr_finalized_by = None, pr_matrix_version = ''draft-0'', pr_model_version = ''none'',
      pr_dataset_version = ''unspecified'', pr_manifest_hash = ''pending'', pr_git_sha = git,
      pr_sync_notice = None, pr_protocol_id = None, pr_approved = [], pr_phase_seconds = []\<rparr>"

definition create_process ::
    "('s, 'p) settings \<Rightarrow> string \<Rightarrow> string \<Rightarrow> completeness_map \<Rightarrow> ('s workspace, unit) prog" where
  "create_process st pid object_id completeness =
     bindp (liftp (detect_scenario completeness False)) (\<lambda>sc.
     bindp (modp (\<lambda>ws. ws\<lparr>ws_items := dict_set pid (new_record (st_git_sha st) pid object_id completeness sc) (ws_items ws)\<rparr>)) (\<lambda>_.
       persist (st_port st) pid))"

definition reopen_for_upload :: "string \<Rightarrow> ('s workspace, unit) prog" where
  "reopen_for_upload pid =
     bindp (the_record pid) (\<lambda>r.
     bindp (liftp (guard (pr_state r = FINALIZED)
         (Exc TransitionError ''the protocol is finalised, no further upload'' []))) (\<lambda>_.
       if pr_state r \<noteq> PARSING then
         bindp (liftp (advance_process (pr_state r) PARSING)) (\<lambda>s. change pid (\<lambda>r. r\<lparr>pr_state := s\<rparr>))
       else liftp (Inr ())))"

definition attach_file :: "('s, 'p) settings \<Rightarrow> string \<Rightarrow> accepted_file \<Rightarrow> ('s workspace, bool) prog" where
  "attach_file st pid item =
     bindp (the_record pid) (\<lambda>r.
       if has_file r (af_file_hash item) (af_stage item) then liftp (Inr False)
       else
         bindp (change pid (\<lambda>r. r\<lparr>pr_files := pr_files r @ [item]\<rparr>)) (\<lambda>_.
         bindp (change pid (\<lambda>r. r\<lparr>pr_completeness := dict_set (af_stage item) UPLOADED (pr_completeness r)\<rparr>)) (\<lambda>_.
         bindp (the_record pid) (\<lambda>r. bindp (liftp (detect_scenario (pr_completeness r) False)) (\<lambda>sc.
         bindp (change pid (\<lambda>r. r\<lparr>pr_scenario := sc\<rparr>)) (\<lambda>_.
         bindp (liftp (manifest_hash (st_sha st) (pr_files r))) (\<lambda>h.
         bindp (change pid (\<lambda>r. r\<lparr>pr_manifest_hash := h\<rparr>)) (\<lambda>_.
         bindp (persist (st_port st) pid) (\<lambda>_.
           liftp (Inr True))))))))))"

definition note_phase :: "string \<Rightarrow> string \<Rightarrow> rat \<Rightarrow> ('s workspace, unit) prog" where
  "note_phase pid phase seconds =
     bindp (liftp (guard (phase \<notin> set CALLER_PHASES)
         (Exc ValueError ''only the pipeline writes this phase'' []))) (\<lambda>_.
     bindp (liftp (guard (seconds < 0) (Exc ValueError ''a phase is never negative'' []))) (\<lambda>_.
       change pid (\<lambda>r. r\<lparr>pr_phase_seconds := dict_set phase seconds (pr_phase_seconds r)\<rparr>)))"

definition merge_pipeline_clocks :: "string \<Rightarrow> pipeline_report \<Rightarrow> ('s workspace, (string, rat) dict) prog" where
  "merge_pipeline_clocks pid report =
     bindp (liftp (guard (set (dict_keys (rp_phase_seconds report)) \<noteq> set PIPELINE_PHASES)
         (Exc ValueError ''the pipeline writes parse and compare only'' []))) (\<lambda>_.
     bindp (liftp (guard (list_ex (\<lambda>x. x < 0) (dict_values (rp_phase_seconds report)))
         (Exc ValueError ''a phase is never negative'' []))) (\<lambda>_.
     bindp (change pid (\<lambda>r. r\<lparr>pr_phase_seconds :=
         fold (\<lambda>(k, v). dict_set k v) (rp_phase_seconds report) (pr_phase_seconds r)\<rparr>)) (\<lambda>_.
     bindp (the_record pid) (\<lambda>r. liftp (Inr (public_phase_seconds (pr_phase_seconds r)))))))"

subsection \<open>Running the matrix\<close>

definition matrix_file :: "accepted_file \<Rightarrow> pipeline_file" where
  "matrix_file f = \<lparr>pf_file_id = af_file_id f, pf_file_hash = af_file_hash f, pf_filename = af_filename f,
     pf_stage = af_stage f, pf_predecessor = af_predecessor f, pf_successor = af_successor f,
     pf_manifest_section = af_section f, pf_manifest_path = af_path f\<rparr>"

text \<open>\<open>_pipeline_files\<close>, which does not hand on the section and path of the manifest.\<close>

definition pipeline_files :: "process_record \<Rightarrow> pipeline_file list" where
  "pipeline_files r = map (\<lambda>f. (matrix_file f)\<lparr>pf_manifest_section := None, pf_manifest_path := None\<rparr>) (pr_files r)"

text \<open>A run always returns (\<open>machine_runs_never_rule\<close>), so the last branch is never taken.\<close>

definition run_matrix ::
    "('s, 'p) settings \<Rightarrow> rat \<times> rat \<Rightarrow> process_record \<Rightarrow> pipeline_file list \<Rightarrow> string list \<Rightarrow> pipeline_report result" where
  "run_matrix st clocks r files approved =
     (case run_process_pipeline (st_policy st) (st_readers st) (st_matrix st) clocks (pr_object_id r)
         (pr_completeness r) files (pr_blobs r) approved of
        Some x \<Rightarrow> x
      | None \<Rightarrow> raise RuntimeError [] [])"

definition put_finding :: "'s store_port \<Rightarrow> string \<Rightarrow> finding \<Rightarrow> ('s workspace, unit) prog" where
  "put_finding port pid f =
     bindp (the_record pid) (\<lambda>r.
     bindp (liftp (case dict_get (pr_findings r) (finding_key f) of
         None \<Rightarrow> Inr f | Some previous \<Rightarrow> carry_inspector_decision previous f)) (\<lambda>f'.
     bindp (change pid (\<lambda>r. r\<lparr>pr_findings := dict_set (finding_key f) f' (pr_findings r)\<rparr>)) (\<lambda>_.
       to_db (sp_save_finding port pid f'))))"

definition expanded_file :: "bytes \<Rightarrow> pipeline_file \<Rightarrow> accepted_file" where
  "expanded_file content e =
     \<lparr>af_file_id = pf_file_id e, af_file_hash = pf_file_hash e, af_filename = pf_filename e,
      af_stage = pf_stage e, af_size_bytes = int (length content), af_stamp = UNKNOWN, af_predecessor = None,
      af_successor = None, af_section = pf_manifest_section e, af_path = pf_manifest_path e,
      af_file_path = None, af_declared = None\<rparr>"

text \<open>
  One document found in an archive: into the list of files unless an id of the list is its own, then
  its body. The ids already in the list are those of the loop's \<open>known\<close>.
\<close>

definition keep_expanded ::
    "'s store_port \<Rightarrow> string \<Rightarrow> pipeline_report \<Rightarrow> pipeline_file \<Rightarrow> ('s workspace, unit) prog" where
  "keep_expanded port pid report e =
     bindp (liftp (case dict_get (rp_expanded_blobs report) (pf_file_id e) of
         None \<Rightarrow> raise KeyError [] [pf_file_id e] | Some b \<Rightarrow> Inr b)) (\<lambda>content.
     bindp (change pid (\<lambda>r. if pf_file_id e \<in> set (map af_file_id (pr_files r)) then r
         else r\<lparr>pr_files := pr_files r @ [expanded_file content e]\<rparr>)) (\<lambda>_.
       keep_blob port pid (pf_file_id e) content))"

definition stamp_files :: "pipeline_report \<Rightarrow> accepted_file list \<Rightarrow> accepted_file list" where
  "stamp_files report = map (\<lambda>f. case dict_get (rp_stamps report) (af_file_id f) of
     None \<Rightarrow> f | Some stamp \<Rightarrow> f\<lparr>af_stamp := stamp\<rparr>)"

definition groups_by_id :: "evidence_group list \<Rightarrow> (string, evidence_group) dict" where
  "groups_by_id gs = fold (\<lambda>g. dict_set (group_id g) g) gs []"

definition pipeline_event :: "pipeline_report \<Rightarrow> (string, rat) dict \<Rightarrow> (string \<times> json) list \<Rightarrow> json" where
  "pipeline_event report clocks more_entries = JObj
     ([(''rules_evaluated'', JInt (int (rp_rules_evaluated report))), (''pages_built'', JInt (int (rp_pages_built report))),
       (''parse_errors'', JInt (int (length (rp_parse_errors report)))),
       (''phase_seconds'', JObj (map (\<lambda>(k, v). (k, JFloat v)) clocks))] @ more_entries)"

definition run_matrix_pipeline ::
    "('s, 'p) settings \<Rightarrow> rat \<times> rat \<Rightarrow> string \<Rightarrow> ('s workspace, pipeline_report) prog" where
  "run_matrix_pipeline st clocks pid =
     (let port = st_port st
      in bindp (the_record pid) (\<lambda>r.
         bindp (liftp (manifest_hash (st_sha st) (pr_files r))) (\<lambda>h.
         bindp (change pid (\<lambda>r. r\<lparr>pr_manifest_hash := h\<rparr>)) (\<lambda>_.
         bindp (liftp (run_matrix st clocks r (map matrix_file (pr_files r)) (pr_approved r))) (\<lambda>report.
         bindp (forp (keep_expanded port pid report) (rp_expanded report)) (\<lambda>_.
         bindp (change pid (\<lambda>r. r\<lparr>pr_files := stamp_files report (pr_files r)\<rparr>)) (\<lambda>_.
         bindp (forp (put_finding port pid) (rp_findings report)) (\<lambda>_.
         bindp (change pid (\<lambda>r. r\<lparr>pr_groups := groups_by_id (rp_groups report)\<rparr>)) (\<lambda>_.
         bindp (save_evidence port pid) (\<lambda>_.
         bindp (change pid (\<lambda>r. r\<lparr>pr_parse_attempts := pr_parse_attempts r + 1\<rparr>)) (\<lambda>_.
         bindp (merge_pipeline_clocks pid report) (\<lambda>shown.
         bindp (record_audit port pid ''system'' ''PIPELINE'' (pipeline_event report shown [])) (\<lambda>_.
         bindp (the_record pid) (\<lambda>r.
         bindp (if pr_state r = PARSING
                then bindp (liftp (advance_process (pr_state r) READY)) (\<lambda>s. change pid (\<lambda>r. r\<lparr>pr_state := s\<rparr>))
                else liftp (Inr ())) (\<lambda>_.
         bindp (persist port pid) (\<lambda>_.
           liftp (Inr report)))))))))))))))))"

fun class_name :: "exc_class \<Rightarrow> string" where
  "class_name TransitionError = ''TransitionError''"
| "class_name ValueError = ''ValueError''"
| "class_name KeyError = ''KeyError''"
| "class_name LookupError = ''LookupError''"
| "class_name RuntimeError = ''RuntimeError''"
| "class_name TypeError = ''TypeError''"
| "class_name IndexError = ''IndexError''"
| "class_name StageHaltError = ''StageHaltError''"
| "class_name RevisionConflict = ''RevisionConflict''"
| "class_name EmptyPackageError = ''EmptyPackageError''"
| "class_name ProtocolMaterializationRequiredError = ''ProtocolMaterializationRequiredError''"
| "class_name ProtocolConflictError = ''ProtocolConflictError''"
| "class_name SyncLifecycleError = ''SyncLifecycleError''"
| "class_name PublishError = ''PublishError''"
| "class_name PdfParseTimeoutError = ''PdfParseTimeoutError''"
| "class_name TransactionUnavailableError = ''TransactionUnavailableError''"
| "class_name RevisionChainError = ''RevisionChainError''"
| "class_name UniqueViolation = ''UniqueViolation''"
| "class_name CheckViolation = ''CheckViolation''"
| "class_name ForeignKeyViolation = ''ForeignKeyViolation''"
| "class_name AuthenticationRequiredError = ''AuthenticationRequiredError''"
| "class_name PermissionDeniedError = ''PermissionDeniedError''"
| "class_name AccessDeniedError = ''AccessDeniedError''"

text \<open>What the worker thread runs; an exception is journalled and raised again.\<close>

definition run_scheduled :: "('s, 'p) settings \<Rightarrow> rat \<times> rat \<Rightarrow> string \<Rightarrow> ('s workspace, unit) prog" where
  "run_scheduled st clocks pid ws =
     (case dict_get (ws_items ws) pid of
        None \<Rightarrow> (Inr (), ws)
      | Some r \<Rightarrow>
          if pr_state r \<noteq> PARSING then (Inr (), ws)
          else (case run_matrix_pipeline st clocks pid ws of
              (Inr _, ws') \<Rightarrow> (Inr (), ws')
            | (Inl e, ws') \<Rightarrow>
                bindp (record_audit (st_port st) pid ''system'' ''PIPELINE_FAILED'' (JObj [(''error'', JStr (class_name (exc_cls e)))]))
                  (\<lambda>_. liftp (Inl e)) ws'))"

subsection \<open>Decisions of the inspector\<close>

text \<open>The first finding of a process with this id or under this key.\<close>

definition find_finding :: "process_record \<Rightarrow> string \<Rightarrow> (string \<times> finding) option" where
  "find_finding r fid = find (\<lambda>(key, item). finding_id item = fid \<or> key = fid) (pr_findings r)"

definition finding_matches :: "(string, process_record) dict \<Rightarrow> string \<Rightarrow> (string \<times> string \<times> finding) list" where
  "finding_matches items fid =
     List.map_filter (\<lambda>(pid, r). map_option (\<lambda>(key, item). (pid, key, item)) (find_finding r fid)) items"

definition locate_finding ::
    "(string, process_record) dict \<Rightarrow> string \<Rightarrow> finding_status option \<Rightarrow> (string \<times> string \<times> finding) option" where
  "locate_finding items fid target =
     (let matches = finding_matches items fid
      in if matches = [] then None
         else case Option.bind target (\<lambda>t. find (\<lambda>(pid, key, item). t \<in> set (FINDING_TRANSITIONS (finding_status item)))
                  (rev matches)) of
             Some m \<Rightarrow> Some m
           | None \<Rightarrow> Some (last matches))"

definition locked_error :: py_exc where
  "locked_error = Exc TransitionError ''the protocol is finalised, statuses may not change'' []"

text \<open>After the first decision a READY process is under verification.\<close>

definition begin_verification :: "'s store_port \<Rightarrow> string \<Rightarrow> actor \<Rightarrow> ('s workspace, unit) prog" where
  "begin_verification port pid who =
     bindp (the_record pid) (\<lambda>r.
     bindp (Review.start_verification (pr_state r) who (record_audit port pid)) (\<lambda>s.
     bindp (change pid (\<lambda>r. r\<lparr>pr_state := s\<rparr>)) (\<lambda>_.
       persist port pid)))"

definition review_finding ::
    "('s, 'p) settings \<Rightarrow> timestamp \<Rightarrow> string \<Rightarrow> actor \<Rightarrow> string \<Rightarrow> reason_code option \<Rightarrow> string \<Rightarrow> ('s workspace, finding) prog" where
  "review_finding st now fid who act why note =
     (let port = st_port st
      in bindp (readp (\<lambda>ws. case locate_finding (ws_items ws) fid (dict_get ACTION_TO_STATUS act) of
             None \<Rightarrow> raise KeyError [] [fid] | Some m \<Rightarrow> Inr m)) (\<lambda>(pid, key, current).
         bindp (the_record pid) (\<lambda>r.
         bindp (liftp (guard (pr_state r = FINALIZED) locked_error)) (\<lambda>_.
         bindp (liftp (review current who act why (Some note) now)) (\<lambda>updated.
         bindp (change pid (\<lambda>r. r\<lparr>pr_findings := dict_set key updated (pr_findings r)\<rparr>)) (\<lambda>_.
         bindp (to_db (sp_save_finding port pid updated)) (\<lambda>_.
         bindp (record_audit port pid (actor_id who) ''REVIEW''
             (JObj [(''finding_id'', JStr fid), (''action'', JStr act)])) (\<lambda>_.
         bindp (if pr_state r = READY then begin_verification port pid who else liftp (Inr ())) (\<lambda>_.
           liftp (Inr updated))))))))))"

text \<open>A batch of one process, checked as a whole before the first write.\<close>

definition store_confirmed ::
    "'s store_port \<Rightarrow> string \<Rightarrow> actor \<Rightarrow> string \<times> finding \<Rightarrow> ('s workspace, unit) prog" where
  "store_confirmed port pid who = (\<lambda>(key, f).
     bindp (change pid (\<lambda>r. r\<lparr>pr_findings := dict_set key f (pr_findings r)\<rparr>)) (\<lambda>_.
     bindp (to_db (sp_save_finding port pid f)) (\<lambda>_.
       record_audit port pid (actor_id who) ''REVIEW''
         (JObj [(''finding_id'', JStr (finding_id f)), (''action'', JStr ''CONFIRM'')]))))"

definition confirm_in_process ::
    "('s, 'p) settings \<Rightarrow> (finding \<Rightarrow> timestamp) \<Rightarrow> string \<Rightarrow> string list \<Rightarrow> actor \<Rightarrow> string \<Rightarrow> ('s workspace, finding list) prog" where
  "confirm_in_process st now pid fids who note =
     (let port = st_port st
      in bindp (the_record pid) (\<lambda>r.
         bindp (liftp (guard (pr_state r = FINALIZED) locked_error)) (\<lambda>_.
         bindp (liftp (traverse (\<lambda>fid. case find_finding r fid of
             None \<Rightarrow> raise KeyError [] [fid] | Some m \<Rightarrow> Inr m) fids)) (\<lambda>selected.
         bindp (liftp (confirm_candidates (map snd selected) who note now)) (\<lambda>updated.
         bindp (forp (store_confirmed port pid who) (zip (map fst selected) updated)) (\<lambda>_.
         bindp (if pr_state r = READY \<and> updated \<noteq> [] then begin_verification port pid who else liftp (Inr ())) (\<lambda>_.
           liftp (Inr updated))))))))"

subsection \<open>Choosing the etalon\<close>

definition replace_machine_findings :: "'s store_port \<Rightarrow> string \<Rightarrow> finding list \<Rightarrow> ('s workspace, unit) prog" where
  "replace_machine_findings port pid fs =
     bindp (change pid (\<lambda>r. r\<lparr>pr_findings := fold (\<lambda>f. dict_set (finding_key f) f) fs []\<rparr>)) (\<lambda>_.
       to_db (sp_replace_findings port pid fs))"

text \<open>
  The chosen etalon \<open>etalon_id\<close> and the revision it declares: the link becomes explicit when the
  declared file is in the process, of the same stage and not linked to another file.
\<close>

definition link_declared_predecessor :: "string \<Rightarrow> accepted_file list \<Rightarrow> accepted_file list" where
  "link_declared_predecessor etalon_id files =
     (case find (\<lambda>f. af_file_id f = etalon_id) files of
        None \<Rightarrow> files
      | Some etalon \<Rightarrow>
          (case af_declared etalon of
             None \<Rightarrow> files
           | Some prior_id \<Rightarrow>
               if af_predecessor etalon \<noteq> None then files
               else (case find (\<lambda>f. af_file_id f = prior_id) files of
                   None \<Rightarrow> files
                 | Some prior \<Rightarrow>
                     if af_stage prior \<noteq> af_stage etalon then files
                     else if af_successor prior \<notin> {None, Some etalon_id} then files
                     else update_first (\<lambda>f. af_file_id f = prior_id) (\<lambda>f. f\<lparr>af_successor := Some etalon_id\<rparr>)
                            (update_first (\<lambda>f. af_file_id f = etalon_id) (\<lambda>f. f\<lparr>af_predecessor := Some prior_id\<rparr>) files))))"

definition prior_document :: "approval_status \<Rightarrow> string \<Rightarrow> document_ref \<Rightarrow> document_ref" where
  "prior_document status etalon_id d =
     d\<lparr>approval_status := status, approval_basis := (if status = UNKNOWN then UNPROVEN else TITLE_BLOCK),
       successor_file_id := Some etalon_id\<rparr>"

text \<open>The fragments of the earlier revision in a shadow run, by rule; the first group of a rule counts.\<close>

fun prior_by_rule ::
    "accepted_file \<Rightarrow> string \<Rightarrow> evidence_group list \<Rightarrow> (string, evidence_fragment list) dict \<Rightarrow>
      (string, evidence_fragment list) dict result" where
  "prior_by_rule prior etalon_id [] found = Inr found"
| "prior_by_rule prior etalon_id (g # gs) found =
     bindr (traverse (\<lambda>fr. mk_fragment (fr\<lparr>frag_document := prior_document (af_stamp prior) etalon_id (frag_document fr)\<rparr>))
             (filter (\<lambda>fr. doc_file_id (frag_document fr) = af_file_id prior) (fragments g))) (\<lambda>frs.
       prior_by_rule prior etalon_id gs
         (if frs \<noteq> [] \<and> dict_get found (group_rule_code g) = None
          then dict_set (group_rule_code g) frs found else found))"

definition add_prior ::
    "string \<Rightarrow> (string, evidence_fragment list) dict \<Rightarrow> evidence_group \<Rightarrow> evidence_group result" where
  "add_prior etalon_id found g =
     (if etalon_id \<notin> doc_file_id ` set (resolved_revisions g) then Inr g
      else case dict_get found (group_rule_code g) of
        None \<Rightarrow> Inr g
      | Some [] \<Rightarrow> Inr g
      | Some (fr # frs) \<Rightarrow>
          mk_group (g\<lparr>resolved_revisions := resolved_revisions g @ [frag_document fr],
                      prior_revision_fragments := fr # frs\<rparr>))"

definition shadow_files :: "process_record \<Rightarrow> string \<Rightarrow> accepted_file \<Rightarrow> pipeline_file list" where
  "shadow_files r etalon_id prior =
     map (\<lambda>f. if pf_file_id f = af_file_id prior then f\<lparr>pf_successor := None\<rparr> else f)
       (filter (\<lambda>f. pf_file_id f \<noteq> etalon_id) (pipeline_files r))"

text \<open>The pairs of a chosen etalon and the file it succeeds, in the order of the files.\<close>

definition etalon_pairs :: "process_record \<Rightarrow> (string \<times> accepted_file) list" where
  "etalon_pairs r =
     (let by_id = fold (\<lambda>f. dict_set (af_file_id f) f) (pr_files r) []
      in fold (\<lambda>f pairs. if af_file_id f \<in> set (pr_approved r)
           then (case Option.bind (af_predecessor f) (dict_get by_id) of
               None \<Rightarrow> pairs | Some prior \<Rightarrow> dict_set (af_file_id f) prior pairs)
           else pairs) (pr_files r) [])"

fun with_prior_revisions ::
    "('s, 'p) settings \<Rightarrow> rat \<times> rat \<Rightarrow> process_record \<Rightarrow> (string \<times> accepted_file) list \<Rightarrow> evidence_group list \<Rightarrow>
      evidence_group list result" where
  "with_prior_revisions st clocks r [] gs = Inr gs"
| "with_prior_revisions st clocks r ((etalon_id, prior) # pairs) gs =
     bindr (run_matrix st clocks r (shadow_files r etalon_id prior)
             (filter (\<lambda>i. i \<noteq> etalon_id) (pr_approved r) @ [af_file_id prior])) (\<lambda>shadow.
     bindr (prior_by_rule prior etalon_id (rp_groups shadow) []) (\<lambda>found.
     bindr (traverse (add_prior etalon_id found) gs) (\<lambda>gs'.
       with_prior_revisions st clocks r pairs gs')))"

definition select_event :: "accepted_file \<Rightarrow> approval_status \<Rightarrow> string \<Rightarrow> json" where
  "select_event f stamp note = JObj
     [(''file_id'', JStr (af_file_id f)), (''file_hash'', JStr (af_file_hash f)),
      (''doc_stage'', JStr (doc_stage_value (af_stage f))), (''stamp_approval'', JStr (approval_status_value stamp)),
      (''comment'', JStr (strip note))]"

definition check_selectable :: "process_record \<Rightarrow> unit result" where
  "check_selectable r =
     (if pr_state r = FINALIZED then raise TransitionError ''the protocol is finalised, no choice of a revision'' []
      else if pr_state r \<notin> {READY, VERIFYING} then raise TransitionError ''the etalon is chosen in READY or VERIFYING'' []
      else if list_ex (\<lambda>f. inspector_decision f \<noteq> None) (dict_values (pr_findings r)) then
        raise TransitionError ''the queue already has decisions'' []
      else Inr ())"

definition select_revision ::
    "('s, 'p) settings \<Rightarrow> rat \<times> rat \<Rightarrow> string \<Rightarrow> string \<Rightarrow> actor \<Rightarrow> string \<Rightarrow> ('s workspace, unit) prog" where
  "select_revision st clocks pid file_id who note =
     (let port = st_port st
      in bindp (the_record pid) (\<lambda>r.
         bindp (liftp (check_selectable r)) (\<lambda>_.
         bindp (liftp (case find (\<lambda>f. af_file_id f = file_id) (pr_files r) of
             None \<Rightarrow> raise KeyError [] [file_id] | Some f \<Rightarrow> Inr f)) (\<lambda>f.
         bindp (get_blob pid file_id) (\<lambda>body.
         bindp (liftp (case body of None \<Rightarrow> raise TransitionError ''no content of the file'' [] | Some b \<Rightarrow> Inr b)) (\<lambda>raw.
         bindp (liftp (stamp_approval_from_pdf (st_readers st)
             ((matrix_file f)\<lparr>pf_predecessor := None, pf_successor := None, pf_manifest_section := None,
                pf_manifest_path := None\<rparr>) raw)) (\<lambda>stamp.
         bindp (change pid (\<lambda>r. r\<lparr>pr_files := update_first (\<lambda>f. af_file_id f = file_id)
             (\<lambda>f. f\<lparr>af_stamp := stamp\<rparr>) (pr_files r)\<rparr>)) (\<lambda>_.
         bindp (liftp (select_revision_as_etalon who stamp note)) (\<lambda>_.
         bindp (change pid (\<lambda>r. r\<lparr>pr_approved := (if file_id \<in> set (pr_approved r) then pr_approved r
             else pr_approved r @ [file_id])\<rparr>)) (\<lambda>_.
         bindp (change pid (\<lambda>r. r\<lparr>pr_files := link_declared_predecessor file_id (pr_files r)\<rparr>)) (\<lambda>_.
         bindp (record_audit port pid (actor_id who) ''SELECT_REVISION'' (select_event f stamp note)) (\<lambda>_.
         bindp (the_record pid) (\<lambda>r.
         bindp (liftp (run_matrix st clocks r (pipeline_files r) (pr_approved r))) (\<lambda>report.
         bindp (change pid (\<lambda>r. r\<lparr>pr_files := stamp_files report (pr_files r)\<rparr>)) (\<lambda>_.
         bindp (replace_machine_findings port pid (rp_findings report)) (\<lambda>_.
         bindp (the_record pid) (\<lambda>r.
         bindp (liftp (with_prior_revisions st clocks r (etalon_pairs r) (rp_groups report))) (\<lambda>gs.
         bindp (change pid (\<lambda>r. r\<lparr>pr_groups := groups_by_id gs\<rparr>)) (\<lambda>_.
         bindp (save_evidence port pid) (\<lambda>_.
         bindp (merge_pipeline_clocks pid report) (\<lambda>shown.
         bindp (record_audit port pid ''system'' ''PIPELINE''
             (pipeline_event report shown [(''after'', JStr ''SELECT_REVISION'')])) (\<lambda>_.
           persist port pid))))))))))))))))))))))"

subsection \<open>The end of a process\<close>

definition start_process_verification :: "('s, 'p) settings \<Rightarrow> string \<Rightarrow> actor \<Rightarrow> ('s workspace, unit) prog" where
  "start_process_verification st pid who = begin_verification (st_port st) pid who"

definition complete_process :: "('s, 'p) settings \<Rightarrow> string \<Rightarrow> actor \<Rightarrow> ('s workspace, unit) prog" where
  "complete_process st pid who =
     bindp (the_record pid) (\<lambda>r.
     bindp (complete_verification (pr_state r) who (dict_values (pr_findings r)) (record_audit (st_port st) pid)) (\<lambda>s.
     bindp (change pid (\<lambda>r. r\<lparr>pr_state := s\<rparr>)) (\<lambda>_.
       persist (st_port st) pid)))"

definition protocol_args_of :: "('s, 'p) settings \<Rightarrow> process_record \<Rightarrow> string \<Rightarrow> int \<Rightarrow> json list \<Rightarrow> protocol_args" where
  "protocol_args_of st r protocol_id v changes =
     \<lparr>pa_protocol_id = protocol_id, pa_object_id = pr_object_id r, pa_findings = dict_values (pr_findings r),
      pa_completeness = pr_completeness r,
      pa_files = map (\<lambda>f. JObj [(''file_id'', JStr (af_file_id f)), (''file_hash'', JStr (af_file_hash f))]) (pr_files r),
      pa_versions = JObj [(''matrix_version'', JStr (pr_matrix_version r)), (''model_version'', JStr (pr_model_version r)),
        (''dataset_version'', JStr (pr_dataset_version r)), (''git_sha'', JStr (pr_git_sha r))],
      pa_process_state = pr_state r, pa_manifest_hash = pr_manifest_hash r, pa_version = v,
      pa_revision_changes = changes\<rparr>"

definition assemble_payload :: "('s, 'p) settings \<Rightarrow> process_record \<Rightarrow> string \<Rightarrow> int \<Rightarrow> json result" where
  "assemble_payload st r protocol_id v =
     bindr (revision_changes (st_shuffle st) (dict_values (pr_groups r))) (\<lambda>changes.
       assemble_protocol (st_catalog st) (st_rules st) (protocol_args_of st r protocol_id v changes))"

text \<open>The body of the \<open>try\<close> block of \<open>finalize\<close>, then the block with its handler.\<close>

definition finalize_body ::
    "('s, 'p) settings \<Rightarrow> timestamp \<Rightarrow> rat \<Rightarrow> string \<Rightarrow> actor \<Rightarrow> ('s workspace, unit) prog" where
  "finalize_body st now seconds pid who =
     (let port = st_port st
      in bindp (the_record pid) (\<lambda>r.
         bindp (finalize_process (pr_state r) who (dict_values (pr_findings r)) (record_audit port pid)) (\<lambda>s.
         bindp (change pid (\<lambda>r. r\<lparr>pr_state := s, pr_finalized_by := Some (actor_id who)\<rparr>)) (\<lambda>_.
         bindp (readp (\<lambda>ws. Inr (sp_next_version port (ws_store ws) (pr_object_id r)))) (\<lambda>v.
         bindp (liftp (protocol_identity pid v)) (\<lambda>protocol_id.
         bindp (the_record pid) (\<lambda>r.
         bindp (liftp (assemble_payload st r protocol_id v)) (\<lambda>payload.
         bindp (liftp (reject_placeholder_payload payload)) (\<lambda>_.
         bindp (change pid (\<lambda>r. r\<lparr>pr_protocol_id := Some protocol_id\<rparr>)) (\<lambda>_.
         bindp (the_record pid) (\<lambda>r.
         bindp (liftp (snapshot_of r)) (\<lambda>snap.
         bindp (on_db (sp_materialize port now snap payload)) (\<lambda>_.
           note_phase pid ''protocol'' seconds)))))))))))))"

definition undo_finalize :: "process_record \<Rightarrow> process_record \<Rightarrow> process_record" where
  "undo_finalize before r =
     r\<lparr>pr_state := pr_state before, pr_finalized_by := pr_finalized_by before,
       pr_protocol_id := pr_protocol_id before, pr_journal := take (length (pr_journal before)) (pr_journal r)\<rparr>"

definition finalize ::
    "('s, 'p) settings \<Rightarrow> timestamp \<Rightarrow> rat \<Rightarrow> string \<Rightarrow> actor \<Rightarrow> ('s workspace, unit) prog" where
  "finalize st now seconds pid who =
     bindp (the_record pid) (\<lambda>before ws.
       case finalize_body st now seconds pid who ws of
         (Inr x, ws') \<Rightarrow> (Inr x, ws')
       | (Inl e, ws') \<Rightarrow> (Inl e, snd (change pid (undo_finalize before) ws')))"

definition unfinalize_protocol :: "('s, 'p) settings \<Rightarrow> string \<Rightarrow> actor \<Rightarrow> string \<Rightarrow> ('s workspace, unit) prog" where
  "unfinalize_protocol st pid who why =
     bindp (the_record pid) (\<lambda>r.
     bindp (liftp (guard (pr_sync_state r \<noteq> NOT_REQUESTED)
         (Exc TransitionError ''the protocol is being sent or waits to be'' []))) (\<lambda>_.
     bindp (unfinalize_process (pr_state r) who why (record_audit (st_port st) pid)) (\<lambda>s.
     bindp (change pid (\<lambda>r. r\<lparr>pr_state := s\<rparr>)) (\<lambda>_.
     bindp (change pid (\<lambda>r. r\<lparr>pr_finalized_by := None, pr_protocol_id := None\<rparr>)) (\<lambda>_.
       persist (st_port st) pid)))))"

text \<open>The notices are the texts of the code.\<close>

definition sync_notice :: "sync_retry_decision \<Rightarrow> string" where
  "sync_notice d =
     (case delay_seconds d of
        None \<Rightarrow> ''3 transfer retries are spent; the protocol waits for a manual transfer''
      | Some s \<Rightarrow> ''retry '' @ show_int (attempts_done d) @ '' of 3 in '' @ show_int (s div 60) @ '' min'')"

definition request_sync :: "('s, 'p) settings \<Rightarrow> string \<Rightarrow> ('s workspace, unit) prog" where
  "request_sync st pid =
     bindp (the_record pid) (\<lambda>r.
     bindp (liftp (guard (pr_state r \<noteq> FINALIZED)
         (Exc TransitionError ''only a finalised protocol is sent'' []))) (\<lambda>_.
       if pr_sync_state r = NOT_REQUESTED then
         bindp (change pid (\<lambda>r. r\<lparr>pr_sync_state := PENDING_SYNC, pr_sync_notice := Some ''queued''\<rparr>)) (\<lambda>_.
           persist (st_port st) pid)
       else
         bindp (change pid (\<lambda>r. r\<lparr>pr_sync_attempts := pr_sync_attempts r + 1\<rparr>)) (\<lambda>_.
         bindp (liftp (next_sync_attempt (max (pr_sync_attempts r + 1) 1))) (\<lambda>d.
         bindp (change pid (\<lambda>r. r\<lparr>pr_sync_state := next_state d, pr_sync_notice := Some (sync_notice d)\<rparr>)) (\<lambda>_.
           persist (st_port st) pid)))))"

end
