(* ===== verification/Finalisation.thy ===== *)
theory Finalisation
  imports Runtime
begin

section \<open>Finalising a process, in memory and in the database\<close>

text \<open>
  What the workspace relies on in its store, the journal of a process as an audit log, and finalising
  as one step over both: it happens as a whole or leaves the process as it was.
\<close>

subsection \<open>Steps of a workspace\<close>

lemma the_record_apply [simp]:
  "the_record pid ws = (case dict_get (ws_items ws) pid of None \<Rightarrow> raise KeyError [] [pid] | Some r \<Rightarrow> Inr r, ws)"
  by (simp add: the_record_def readp_def)

lemma readp_apply [simp]: "readp f s = (f s, s)"
  by (simp add: readp_def)

lemma to_db_apply [simp]: "to_db f ws = (Inr (), ws\<lparr>ws_store := f (ws_store ws)\<rparr>)"
  by (simp add: to_db_def)

lemma change_apply:
  "dict_get (ws_items ws) pid = Some r \<Longrightarrow> change pid f ws = (Inr (), ws\<lparr>ws_items := dict_set pid (f r) (ws_items ws)\<rparr>)"
  by (simp add: change_def)

lemma bindp_the_record:
  "dict_get (ws_items ws) pid = Some r \<Longrightarrow> bindp (the_record pid) k ws = k r ws"
  by (simp add: bindp_apply)

lemma bindp_readp [simp]: "bindp (readp f) k s = (case f s of Inl e \<Rightarrow> (Inl e, s) | Inr x \<Rightarrow> k x s)"
  by (cases "f s") (simp_all add: bindp_apply)

lemma bindp_change:
  "dict_get (ws_items ws) pid = Some r \<Longrightarrow>
   bindp (change pid f) k ws = k () (ws\<lparr>ws_items := dict_set pid (f r) (ws_items ws)\<rparr>)"
  by (simp add: bindp_apply change_apply)

lemma bindp_to_db [simp]: "bindp (to_db f) k ws = k () (ws\<lparr>ws_store := f (ws_store ws)\<rparr>)"
  by (simp add: bindp_apply)

subsection \<open>The journal of a process\<close>

definition journal :: "string \<Rightarrow> 's workspace \<Rightarrow> audit_event list" where
  "journal pid ws = (case dict_get (ws_items ws) pid of None \<Rightarrow> [] | Some r \<Rightarrow> pr_journal r)"

text \<open>The items of a workspace without the journal of one process.\<close>

definition without_journal :: "string \<Rightarrow> (string, process_record) dict \<Rightarrow> string \<Rightarrow> process_record option" where
  "without_journal pid items k = map_option (\<lambda>r. if k = pid then r\<lparr>pr_journal := []\<rparr> else r) (dict_get items k)"

lemma without_journal_eq:
  assumes "without_journal pid items' = without_journal pid items" and "dict_get items pid = Some r"
  shows "dict_get items' = (dict_get items)(pid \<mapsto> r\<lparr>pr_journal := (case dict_get items' pid of None \<Rightarrow> [] | Some x \<Rightarrow> pr_journal x)\<rparr>)"
proof
  fix k
  have k: "without_journal pid items' k = without_journal pid items k" using assms(1) by simp
  show "dict_get items' k =
      ((dict_get items)(pid \<mapsto> r\<lparr>pr_journal := (case dict_get items' pid of None \<Rightarrow> [] | Some x \<Rightarrow> pr_journal x)\<rparr>)) k"
  proof (cases "k = pid")
    case True
    with k assms(2) obtain r' where "dict_get items' pid = Some r'" "r'\<lparr>pr_journal := []\<rparr> = r\<lparr>pr_journal := []\<rparr>"
      by (auto simp: without_journal_def)
    then have "r' = r\<lparr>pr_journal := pr_journal r'\<rparr>" by (cases r; cases r') simp
    with True \<open>dict_get items' pid = Some r'\<close> show ?thesis by simp
  next
    case False
    with k show ?thesis by (simp add: without_journal_def map_option.id [unfolded id_def])
  qed
qed

text \<open>
  What the workspace relies on: an archive of protocols, whose journal and whose findings are kept
  apart from it, and which stores the row of the process together with the protocol.
\<close>

locale process_store = protocol_archive "sp_materialize port" stored "sp_next_version port" good
  for port :: "'s store_port" and stored :: "'s \<Rightarrow> string \<Rightarrow> json option" and good :: "'s \<Rightarrow> bool" +
  assumes audit_stored: "stored (sp_save_audit port p who act d s) = stored s"
    and audit_good: "good (sp_save_audit port p who act d s) = good s"
    and audit_load: "sp_load port (sp_save_audit port p who act d s) = sp_load port s"
    and audit_version: "sp_next_version port (sp_save_audit port p who act d s) = sp_next_version port s"
    and accepted_row: "sp_materialize port now snap payload s = (Inr u, s') \<Longrightarrow>
      \<exists>row. sp_load port s' (sn_process_id snap) = Some row \<and> sn_process_state row = sn_process_state snap \<and>
        sn_finalized_by row = sn_finalized_by snap \<and> sn_protocol_id row = sn_protocol_id snap"

context process_store
begin

definition besides :: "string \<Rightarrow> 's workspace \<Rightarrow>
    (string \<Rightarrow> process_record option) \<times> (string, bytes) dict \<times> (string \<Rightarrow> json option) \<times> bool \<times>
    (string \<Rightarrow> process_snapshot option) \<times> (string \<Rightarrow> int)" where
  "besides pid ws = (without_journal pid (ws_items ws), ws_objects ws, stored (ws_store ws), good (ws_store ws),
     sp_load port (ws_store ws), sp_next_version port (ws_store ws))"

end

sublocale process_store \<subseteq> log: audit_log "record_audit port pid" "journal pid" "besides pid" for pid
proof unfold_locales
  have run: "record_audit port pid a act p s =
     (case dict_get (ws_items s) pid of
        None \<Rightarrow> (raise KeyError [] [pid], s)
      | Some r \<Rightarrow> (Inr (), s\<lparr>ws_items := dict_set pid (r\<lparr>pr_journal := pr_journal r @ [(a, act, p)]\<rparr>) (ws_items s),
          ws_store := (case pr_bound r of None \<Rightarrow> ws_store s | Some t \<Rightarrow> sp_save_audit port t a act p (ws_store s))\<rparr>))"
    for a act p s
    by (auto simp: record_audit_def bindp_the_record bindp_change split: option.splits)
      (simp add: bindp_apply)
  show "record_audit port pid a act p s = (Inr u, s') \<Longrightarrow> journal pid s' = journal pid s @ [(a, act, p)]"
    for a act p s u s'
    by (auto simp: run journal_def split: option.splits)
  show "record_audit port pid a act p s = (Inl e, s') \<Longrightarrow> journal pid s' = journal pid s" for a act p s e s'
    by (auto simp: run split: option.splits)
  show "record_audit port pid a act p s = (r, s') \<Longrightarrow> besides pid s' = besides pid s" for a act p s r s'
    by (auto simp: run besides_def without_journal_def fun_eq_iff audit_stored audit_good audit_load audit_version
        dict_get_set split: option.splits)
qed

subsection \<open>Finalising\<close>

text \<open>What is done once the transition is allowed: the protocol of the process as it now is.\<close>

definition signed :: "actor \<Rightarrow> process_record \<Rightarrow> process_record" where
  "signed who r = r\<lparr>pr_state := FINALIZED, pr_finalized_by := Some (actor_id who)\<rparr>"

definition finalize_plan ::
    "('s, 'p) settings \<Rightarrow> string \<Rightarrow> int \<Rightarrow> process_record \<Rightarrow> (string \<times> json \<times> process_snapshot) result" where
  "finalize_plan st pid v r =
     bindr (protocol_identity pid v) (\<lambda>i.
     bindr (assemble_payload st r i v) (\<lambda>payload.
     bindr (reject_placeholder_payload payload) (\<lambda>_.
     bindr (snapshot_of (r\<lparr>pr_protocol_id := Some i\<rparr>)) (\<lambda>snap.
       Inr (i, payload, snap)))))"

lemma undo_finalize_id:
  "take (length (pr_journal r)) (pr_journal r') = pr_journal r \<Longrightarrow>
   r'\<lparr>pr_state := pr_state r, pr_finalized_by := pr_finalized_by r, pr_protocol_id := pr_protocol_id r, pr_journal := []\<rparr> =
     r\<lparr>pr_journal := []\<rparr> \<Longrightarrow> undo_finalize r r' = r"
  by (cases r; cases r') (simp add: undo_finalize_def)

lemma finalize_rest:
  fixes ws1 :: "'s workspace"
  assumes r1: "dict_get (ws_items ws1) pid = Some r1" and sec: "0 \<le> seconds"
    and body: "finalize_body st now seconds pid who ws = (r, ws')"
    and ws: "dict_get (ws_items ws) pid = Some r0"
    and fp: "finalize_process (pr_state r0) who (dict_values (pr_findings r0)) (record_audit (st_port st) pid) ws =
      (Inr FINALIZED, ws1)"
    and obj: "pr_object_id r0 = pr_object_id r1"
  shows "\<exists>r2. dict_get (ws_items ws') = (dict_get (ws_items ws1))(pid \<mapsto> r2) \<and> ws_objects ws' = ws_objects ws1 \<and>
    (case finalize_plan st pid (sp_next_version (st_port st) (ws_store ws1) (pr_object_id r1)) (signed who r1) of
       Inl e \<Rightarrow> r = Inl e \<and> r2 = (signed who r1)\<lparr>pr_protocol_id := pr_protocol_id r2\<rparr> \<and> ws_store ws' = ws_store ws1
     | Inr (i, payload, snap) \<Rightarrow>
         (case sp_materialize (st_port st) now snap payload (ws_store ws1) of
            (Inl e, s') \<Rightarrow> r = Inl e \<and> r2 = (signed who r1)\<lparr>pr_protocol_id := pr_protocol_id r2\<rparr> \<and> ws_store ws' = s'
          | (Inr u, s') \<Rightarrow> r = Inr () \<and> ws_store ws' = s' \<and>
              r2 = (signed who r1)\<lparr>pr_protocol_id := Some i,
                pr_phase_seconds := dict_set ''protocol'' seconds (pr_phase_seconds r1)\<rparr>))"
proof -
  let ?v = "sp_next_version (st_port st) (ws_store ws1) (pr_object_id r1)"
  let ?ws2 = "ws1\<lparr>ws_items := dict_set pid (signed who r1) (ws_items ws1)\<rparr>"
  have look: "dict_get (ws_items (w\<lparr>ws_items := dict_set pid x (ws_items w)\<rparr>)) pid = Some x" for w :: "'s workspace" and x
    by simp
  have run: "finalize_body st now seconds pid who ws =
    (case protocol_identity pid ?v of Inl e \<Rightarrow> (Inl e, ?ws2)
     | Inr i \<Rightarrow> (case assemble_payload st (signed who r1) i ?v of Inl e \<Rightarrow> (Inl e, ?ws2)
     | Inr payload \<Rightarrow> (case reject_placeholder_payload payload of Inl e \<Rightarrow> (Inl e, ?ws2)
     | Inr _ \<Rightarrow>
         let ws3 = ?ws2\<lparr>ws_items := dict_set pid ((signed who r1)\<lparr>pr_protocol_id := Some i\<rparr>) (ws_items ?ws2)\<rparr>
         in (case snapshot_of ((signed who r1)\<lparr>pr_protocol_id := Some i\<rparr>) of Inl e \<Rightarrow> (Inl e, ws3)
     | Inr snap \<Rightarrow> (case sp_materialize (st_port st) now snap payload (ws_store ws1) of
            (Inl e, s') \<Rightarrow> (Inl e, ws3\<lparr>ws_store := s'\<rparr>)
          | (Inr u, s') \<Rightarrow> note_phase pid ''protocol'' seconds (ws3\<lparr>ws_store := s'\<rparr>))))))"
    using ws r1 fp obj
    by (simp add: finalize_body_def Let_def bindp_the_record bindp_change bindp_apply [of "finalize_process _ _ _ _"]
        bindp_apply [of "on_db _"] on_db_def signed_def split: sum.split prod.split)
  have phase: "note_phase pid ''protocol'' seconds (w\<lparr>ws_items := dict_set pid x (ws_items w)\<rparr>) =
      (Inr (), w\<lparr>ws_items := dict_set pid (x\<lparr>pr_phase_seconds := dict_set ''protocol'' seconds (pr_phase_seconds x)\<rparr>)
         (dict_set pid x (ws_items w))\<rparr>)" for w :: "'s workspace" and x
    using sec by (simp add: note_phase_def CALLER_PHASES_def change_apply)
  let ?plan = "finalize_plan st pid ?v (signed who r1)"
  note plan = finalize_plan_def [of st pid ?v "signed who r1"]
  show ?thesis
  proof (cases "protocol_identity pid ?v")
    case (Inl e)
    with run body plan show ?thesis by (intro exI [of _ "signed who r1"]) (simp add: fun_eq_iff)
  next
    case i: (Inr i)
    show ?thesis
    proof (cases "assemble_payload st (signed who r1) i ?v")
      case (Inl e)
      with i run body plan show ?thesis by (intro exI [of _ "signed who r1"]) (simp add: fun_eq_iff)
    next
      case p: (Inr payload)
      show ?thesis
      proof (cases "reject_placeholder_payload payload")
        case (Inl e)
        with i p run body plan show ?thesis by (intro exI [of _ "signed who r1"]) (simp add: fun_eq_iff)
      next
        case c: (Inr u)
        let ?r3 = "(signed who r1)\<lparr>pr_protocol_id := Some i\<rparr>"
        show ?thesis
        proof (cases "snapshot_of ?r3")
          case (Inl e)
          with i p c run body plan show ?thesis by (intro exI [of _ ?r3]) (simp add: fun_eq_iff Let_def)
        next
          case s: (Inr snap)
          obtain m s' where m: "sp_materialize (st_port st) now snap payload (ws_store ws1) = (m, s')" by force
          show ?thesis
          proof (cases m)
            case (Inl e)
            with i p c s m run body plan show ?thesis by (intro exI [of _ ?r3]) (simp add: fun_eq_iff Let_def)
          next
            case (Inr u)
            with i p c s m run body plan have "(r, ws') = note_phase pid ''protocol'' seconds
                (ws1\<lparr>ws_items := dict_set pid ?r3 (dict_set pid (signed who r1) (ws_items ws1)), ws_store := s'\<rparr>)"
              by (simp add: Let_def)
            also have "\<dots> = note_phase pid ''protocol'' seconds ((ws1\<lparr>ws_items := dict_set pid (signed who r1) (ws_items ws1),
                ws_store := s'\<rparr>)\<lparr>ws_items := dict_set pid ?r3 (ws_items (ws1\<lparr>ws_items := dict_set pid (signed who r1)
                (ws_items ws1), ws_store := s'\<rparr>))\<rparr>)"
              by (cases ws1) simp
            finally show ?thesis using i p c s m plan Inr
              unfolding phase
              by (intro exI [of _ "?r3\<lparr>pr_phase_seconds := dict_set ''protocol'' seconds (pr_phase_seconds r1)\<rparr>"])
                (simp add: fun_eq_iff signed_def)
          qed
        qed
      qed
    qed
  qed
qed

lemma assemble_without_journal [simp]:
  "assemble_payload st (r\<lparr>pr_journal := j\<rparr>) i v = assemble_payload st r i v"
  by (simp add: assemble_payload_def protocol_args_of_def)

lemma snapshot_of_fields:
  "snapshot_of r = Inr snap \<Longrightarrow> sn_process_id snap = pr_process_id r \<and> sn_process_state snap = pr_state r \<and>
     sn_finalized_by snap = pr_finalized_by r \<and> sn_protocol_id snap = pr_protocol_id r"
  by (auto simp: snapshot_of_def bindr_eq_Inr)

text \<open>The record of a process finalised by \<open>who\<close> under the id \<open>i\<close>.\<close>

definition finalised_record :: "actor \<Rightarrow> string \<Rightarrow> rat \<Rightarrow> process_record \<Rightarrow> process_record" where
  "finalised_record who i seconds r =
     (signed who r)\<lparr>pr_protocol_id := Some i,
       pr_journal := pr_journal r @ [(actor_id who, ''FINALIZE'', from_to COMPLETED FINALIZED)],
       pr_phase_seconds := dict_set ''protocol'' seconds (pr_phase_seconds r)\<rparr>"

text \<open>Nothing a reader of the process or of the archive can see has changed.\<close>

definition unchanged ::
    "'s store_port \<Rightarrow> ('s \<Rightarrow> string \<Rightarrow> json option) \<Rightarrow> 's workspace \<Rightarrow> 's workspace \<Rightarrow> bool" where
  "unchanged port stored ws ws' \<longleftrightarrow>
     dict_get (ws_items ws') = dict_get (ws_items ws) \<and> ws_objects ws' = ws_objects ws \<and>
     stored (ws_store ws') = stored (ws_store ws) \<and> sp_load port (ws_store ws') = sp_load port (ws_store ws)"

text \<open>
  The process is finalised: a completed process without candidates, by a human; its record, the row of
  the store and the protocol of the record agree on the id, and the protocol is what the payload of the
  process gives after \<open>protocol_for_rin\<close>.
\<close>

definition finalised ::
    "('s, 'p) settings \<Rightarrow> ('s \<Rightarrow> string \<Rightarrow> json option) \<Rightarrow> rat \<Rightarrow> string \<Rightarrow> actor \<Rightarrow> process_record \<Rightarrow>
      's workspace \<Rightarrow> 's workspace \<Rightarrow> bool" where
  "finalised st stored seconds pid who before ws ws' \<longleftrightarrow>
     is_human who \<and> pr_state before = COMPLETED \<and>
     (\<forall>f \<in> set (dict_values (pr_findings before)). finding_status f \<noteq> CANDIDATE) \<and>
     (\<exists>i payload q row.
        protocol_identity pid (sp_next_version (st_port st) (ws_store ws) (pr_object_id before)) = Inr i \<and>
        assemble_payload st (signed who before) i
          (sp_next_version (st_port st) (ws_store ws) (pr_object_id before)) = Inr payload \<and>
        reject_placeholder_payload payload = Inr () \<and> protocol_for_rin payload = Inr q \<and>
        stored (ws_store ws') = (stored (ws_store ws))(i \<mapsto> canon q) \<and>
        sp_load (st_port st) (ws_store ws') (pr_process_id before) = Some row \<and>
        sn_process_state row = FINALIZED \<and> sn_finalized_by row = Some (actor_id who) \<and> sn_protocol_id row = Some i \<and>
        dict_get (ws_items ws') = (dict_get (ws_items ws))(pid \<mapsto> finalised_record who i seconds before) \<and>
        ws_objects ws' = ws_objects ws)"

lemma finalize_plan_Inr:
  "finalize_plan st pid v r = Inr (i, payload, snap) \<longleftrightarrow>
     protocol_identity pid v = Inr i \<and> assemble_payload st r i v = Inr payload \<and>
     reject_placeholder_payload payload = Inr () \<and> snapshot_of (r\<lparr>pr_protocol_id := Some i\<rparr>) = Inr snap"
  by (auto simp: finalize_plan_def bindr_eq_Inr)

lemma undo_signed:
  "r2 = (signed who (r\<lparr>pr_journal := pr_journal r @ xs\<rparr>))\<lparr>pr_protocol_id := x\<rparr> \<Longrightarrow> undo_finalize r r2 = r"
  by (cases r) (simp add: undo_finalize_def signed_def)

context process_store
begin

text \<open>A step that only adds to the journal of a process.\<close>

lemma only_journal:
  assumes "besides pid ws1 = besides pid ws" and "dict_get (ws_items ws) pid = Some r0" and "journal pid ws1 = js"
  shows "dict_get (ws_items ws1) = (dict_get (ws_items ws))(pid \<mapsto> r0\<lparr>pr_journal := js\<rparr>) \<and>
    ws_objects ws1 = ws_objects ws \<and> stored (ws_store ws1) = stored (ws_store ws) \<and>
    good (ws_store ws1) = good (ws_store ws) \<and> sp_load port (ws_store ws1) = sp_load port (ws_store ws) \<and>
    sp_next_version port (ws_store ws1) = sp_next_version port (ws_store ws)"
proof -
  from assms(1) have b: "without_journal pid (ws_items ws1) = without_journal pid (ws_items ws)"
      "ws_objects ws1 = ws_objects ws" "stored (ws_store ws1) = stored (ws_store ws)"
      "good (ws_store ws1) = good (ws_store ws)" "sp_load port (ws_store ws1) = sp_load port (ws_store ws)"
      "sp_next_version port (ws_store ws1) = sp_next_version port (ws_store ws)"
    unfolding besides_def prod.inject by blast+
  show ?thesis
    using without_journal_eq [OF b(1) assms(2)] b(2-) unfolding journal_def [symmetric] assms(3) by blast
qed

lemma finalize_outcome:
  assumes run: "finalize st now seconds pid who ws = (r, ws')" and port: "st_port st = port"
    and good: "good (ws_store ws)" and sec: "0 \<le> seconds" and r0: "dict_get (ws_items ws) pid = Some r0"
  shows "good (ws_store ws') \<and>
    (case r of Inl e \<Rightarrow> unchanged port stored ws ws'
     | Inr u \<Rightarrow> finalised st stored seconds pid who r0 ws ws')"
proof -
  let ?fs = "dict_values (pr_findings r0)"
  obtain b wsb where body: "finalize_body st now seconds pid who ws = (b, wsb)" by force
  obtain f ws1 where fp: "finalize_process (pr_state r0) who ?fs (record_audit port pid) ws = (f, ws1)" by force
  from log.finalize_exact [OF fp] have rest: "besides pid ws1 = besides pid ws"
    and ev: "case f of
       Inr t \<Rightarrow> t = FINALIZED \<and> pr_state r0 = COMPLETED \<and> is_human who \<and>
         (\<forall>x \<in> set ?fs. finding_status x \<noteq> CANDIDATE) \<and>
         journal pid ws1 = journal pid ws @ [(actor_id who, ''FINALIZE'', from_to COMPLETED FINALIZED)]
     | Inl e \<Rightarrow> journal pid ws1 = journal pid ws" by simp_all
  have not_unit: "x \<noteq> Inr () \<Longrightarrow> \<exists>e. x = Inl e" for x :: "unit result" by (cases x) simp_all
  have is_unit: "\<forall>e. x \<noteq> Inl e \<Longrightarrow> x = Inr ()" for x :: "unit result" by (cases x) simp_all
  have j0: "journal pid ws = pr_journal r0" by (simp add: journal_def r0)
  show ?thesis
  proof (cases f)
    case (Inl e)
    with body fp r0 port have b: "b = Inl e" "wsb = ws1"
      by (simp_all add: finalize_body_def Let_def bindp_the_record bindp_apply [of "finalize_process _ _ _ _"])
    from Inl ev j0 only_journal [OF rest r0] have o: "dict_get (ws_items ws1) = (dict_get (ws_items ws))(pid \<mapsto> r0)"
        "ws_objects ws1 = ws_objects ws" "stored (ws_store ws1) = stored (ws_store ws)"
        "good (ws_store ws1) = good (ws_store ws)" "sp_load port (ws_store ws1) = sp_load port (ws_store ws)"
      by (simp_all add: fun_eq_iff)
    have u: "undo_finalize r0 r0 = r0" by (cases r0) (simp add: undo_finalize_def)
    have "r = Inl e" "ws' = ws1\<lparr>ws_items := dict_set pid r0 (ws_items ws1)\<rparr>"
      using run body b r0 o(1) by (simp_all add: finalize_def bindp_the_record change_apply u)
    then show ?thesis using o good r0 by (auto simp: unchanged_def dict_get_set fun_upd_idem)
  next
    case (Inr t)
    let ?r1 = "r0\<lparr>pr_journal := pr_journal r0 @ [(actor_id who, ''FINALIZE'', from_to COMPLETED FINALIZED)]\<rparr>"
    from Inr ev j0 only_journal [OF rest r0] have o: "dict_get (ws_items ws1) = (dict_get (ws_items ws))(pid \<mapsto> ?r1)"
        "ws_objects ws1 = ws_objects ws" "stored (ws_store ws1) = stored (ws_store ws)"
        "good (ws_store ws1) = good (ws_store ws)" "sp_load port (ws_store ws1) = sp_load port (ws_store ws)"
        "sp_next_version port (ws_store ws1) = sp_next_version port (ws_store ws)"
      by (simp_all add: fun_eq_iff)
    have g: "pr_state r0 = COMPLETED" "is_human who" "\<forall>x \<in> set ?fs. finding_status x \<noteq> CANDIDATE" "t = FINALIZED"
      using ev Inr by simp_all
    have r1: "dict_get (ws_items ws1) pid = Some ?r1" using o(1) by simp
    let ?v = "sp_next_version port (ws_store ws) (pr_object_id r0)"
    obtain r2 where r2: "dict_get (ws_items wsb) = (dict_get (ws_items ws1))(pid \<mapsto> r2)" "ws_objects wsb = ws_objects ws1"
      and plan: "case finalize_plan st pid ?v (signed who ?r1) of
        Inl e \<Rightarrow> b = Inl e \<and> r2 = (signed who ?r1)\<lparr>pr_protocol_id := pr_protocol_id r2\<rparr> \<and> ws_store wsb = ws_store ws1
      | Inr (i, payload, snap) \<Rightarrow>
         (case sp_materialize port now snap payload (ws_store ws1) of
            (Inl e, s') \<Rightarrow> b = Inl e \<and> r2 = (signed who ?r1)\<lparr>pr_protocol_id := pr_protocol_id r2\<rparr> \<and> ws_store wsb = s'
          | (Inr u, s') \<Rightarrow> b = Inr () \<and> ws_store wsb = s' \<and>
              r2 = (signed who ?r1)\<lparr>pr_protocol_id := Some i,
                pr_phase_seconds := dict_set ''protocol'' seconds (pr_phase_seconds ?r1)\<rparr>)"
      using finalize_rest [OF r1 sec body r0, unfolded port, OF fp [unfolded Inr g(4)]] o(6) by auto
    show ?thesis
    proof (cases b)
      case (Inl e)
      have same: "ws_store wsb = ws_store ws1" "r2 = (signed who ?r1)\<lparr>pr_protocol_id := pr_protocol_id r2\<rparr>"
        using plan Inl by (auto split: sum.splits prod.splits dest!: not_unit dest: refused)
      from undo_signed [OF same(2)] have u: "undo_finalize r0 r2 = r0" .
      have "r = Inl e" "ws' = wsb\<lparr>ws_items := dict_set pid r0 (ws_items wsb)\<rparr>"
        using run body Inl r0 r2(1) by (simp_all add: finalize_def bindp_the_record change_apply u)
      then show ?thesis using o good r0 same(1) r2 by (auto simp: unchanged_def dict_get_set fun_upd_idem)
    next
      case (Inr x)
      then obtain i payload snap s' where p: "finalize_plan st pid ?v (signed who ?r1) = Inr (i, payload, snap)"
          "sp_materialize port now snap payload (ws_store ws1) = (Inr (), s')" "ws_store wsb = s'"
          "r2 = (signed who ?r1)\<lparr>pr_protocol_id := Some i,
            pr_phase_seconds := dict_set ''protocol'' seconds (pr_phase_seconds ?r1)\<rparr>"
        using plan by (auto split: sum.splits prod.splits dest!: not_unit is_unit)
      have fin: "r = Inr ()" "ws' = wsb" using run body Inr r0 by (simp_all add: finalize_def bindp_the_record)
      from p(1) have pl: "protocol_identity pid ?v = Inr i" "assemble_payload st (signed who ?r1) i ?v = Inr payload"
          "reject_placeholder_payload payload = Inr ()"
          "snapshot_of ((signed who ?r1)\<lparr>pr_protocol_id := Some i\<rparr>) = Inr snap" by (simp_all add: finalize_plan_Inr)
      have sg: "signed who ?r1 = (signed who r0)\<lparr>pr_journal := pr_journal ?r1\<rparr>" by (simp add: signed_def)
      from accepted [OF _ p(2)] good o(4) obtain j q where acc: "good s'" "sn_protocol_id snap = Some j"
          "protocol_for_rin payload = Inr q" "stored s' = (stored (ws_store ws1))(j \<mapsto> canon q)" by auto
      from snapshot_of_fields [OF pl(4)] have sn: "sn_process_id snap = pr_process_id r0" "sn_process_state snap = FINALIZED"
          "sn_finalized_by snap = Some (actor_id who)" "sn_protocol_id snap = Some i" by (simp_all add: signed_def)
      from accepted_row [OF p(2)] sn obtain row where row: "sp_load port s' (pr_process_id r0) = Some row"
          "sn_process_state row = FINALIZED" "sn_finalized_by row = Some (actor_id who)" "sn_protocol_id row = Some i" by auto
      have r2': "r2 = finalised_record who i seconds r0" by (simp add: p(4) finalised_record_def signed_def)
      have ap: "assemble_payload st (signed who r0) i ?v = Inr payload" using pl(2) unfolding sg by simp
      have "stored (ws_store ws') = (stored (ws_store ws))(i \<mapsto> canon q)" using acc sn(4) o(3) fin(2) p(3) by simp
      moreover have "dict_get (ws_items ws') = (dict_get (ws_items ws))(pid \<mapsto> finalised_record who i seconds r0)"
        using r2(1) o(1) by (simp add: fin(2) r2' fun_eq_iff)
      ultimately show ?thesis using g ap pl(1,3) acc(1,3) row r2(2) o(2) fin p(3)
        unfolding finalised_def by (auto simp: port)
    qed
  qed
qed

end

subsection \<open>The two stores\<close>

lemma memory_accepted_row:
  assumes "memory_materialize sha now snap payload s = (Inr u, s')"
  shows "memory_load s' (sn_process_id snap) = Some snap"
  using memory_materialize_Inr [OF assms] by (auto simp: materialized_def memory_load_def)

interpretation memory_process: process_store "memory_port sha" memory_stored memory_good
  for sha
proof -
  have "protocol_archive (sp_materialize (memory_port sha)) memory_stored (sp_next_version (memory_port sha)) memory_good"
    using memory_archive.protocol_archive_axioms by (simp add: memory_port_def)
  then show "process_store (memory_port sha) memory_stored memory_good"
  proof (rule process_store.intro)
    show "process_store_axioms (memory_port sha) memory_stored memory_good"
      by unfold_locales (auto simp: memory_port_def memory_save_audit_def memory_stored_def memory_good_def
          memory_load_def memory_next_version_def fun_eq_iff dest: memory_accepted_row)
  qed
qed

lemma pg_write_row:
  assumes "pg_write_process snap pg = (Inr u, pg')"
  shows "\<exists>row. pg_load pg' (sn_process_id snap) = Some row \<and> sn_process_state row = sn_process_state snap \<and>
    sn_finalized_by row = sn_finalized_by snap \<and> sn_protocol_id row = sn_protocol_id snap"
proof -
  let ?pg = "delete_files (sn_process_id snap) (upsert_process snap (ensure_object (sn_object_id snap) pg))"
  have run: "forp (insert_file (sn_process_id snap)) (sn_files snap) ?pg = (Inr u, pg')"
    using assms by (simp add: pg_write_process_def)
  have "pg_processes pg' = pg_processes ?pg"
    by (rule forp_preserves [where I = "\<lambda>s. pg_processes s = pg_processes ?pg", OF _ refl run])
      (auto dest: insert_file_frame)
  then show ?thesis
    by (auto simp: pg_load_def delete_files_def upsert_process_def Let_def split: option.splits)
qed

lemma pg_accepted_row:
  assumes "pg_materialize tx sha now snap payload pg = (Inr u, pg')"
  shows "\<exists>row. pg_load pg' (sn_process_id snap) = Some row \<and> sn_process_state row = sn_process_state snap \<and>
    sn_finalized_by row = sn_finalized_by snap \<and> sn_protocol_id row = sn_protocol_id snap"
proof -
  have load: "pg_load (insert_outbox item s) = pg_load s" for item s
    by (auto simp: pg_load_def insert_outbox_def pg_files_of_def fun_eq_iff)
  from assms obtain pg2 pg3 item where "pg_write_process snap pg2 = (Inr (), pg3)" "pg' = insert_outbox item pg3"
    unfolding pg_materialize_def bindp_lift_Inr guard_Inr_iff conflict_transaction_Inr bindp_Inr
    by (auto simp: modp_def split: if_splits)
  from pg_write_row [OF this(1)] this(2) show ?thesis by (simp add: load)
qed

interpretation postgres_process: process_store "postgres_port sha" pg_stored pg_good
  for sha
proof -
  have "protocol_archive (sp_materialize (postgres_port sha)) pg_stored (sp_next_version (postgres_port sha)) pg_good"
    using postgres_archive.protocol_archive_axioms by (simp add: postgres_port_def)
  then show "process_store (postgres_port sha) pg_stored pg_good"
  proof (rule process_store.intro)
    have stored: "pg_stored (pg_save_audit p who a d s) = pg_stored s" for p who a d s
      by (simp add: pg_save_audit_def pg_stored_def fun_eq_iff)
    have audit: "pg_good (pg_save_audit p who a d s) = pg_good s"
        "pg_load (pg_save_audit p who a d s) = pg_load s" "pg_next_version (pg_save_audit p who a d s) = pg_next_version s"
      for p who a d s
      by (simp_all add: stored pg_good_def)
        (simp_all add: pg_save_audit_def pg_load_def pg_files_of_def pg_next_version_def fun_eq_iff)
    show "process_store_axioms (postgres_port sha) pg_stored pg_good"
      by unfold_locales (simp_all add: postgres_port_def stored audit pg_accepted_row)
  qed
qed

lemma finalize_in_memory:
  assumes "memory_good (ws_store ws)" and "st_port st = memory_port sha" and "0 \<le> seconds"
    and "dict_get (ws_items ws) pid = Some before" and "finalize st now seconds pid who ws = (r, ws')"
  shows "memory_good (ws_store ws') \<and>
    (case r of Inl e \<Rightarrow> unchanged (memory_port sha) memory_stored ws ws'
     | Inr u \<Rightarrow> finalised st memory_stored seconds pid who before ws ws')"
  by (rule memory_process.finalize_outcome [OF assms(5,2,1,3,4)])


subsection \<open>A process at its end\<close>

definition sample_record :: process_record where
  "sample_record = \<lparr>pr_process_id = ''p'', pr_object_id = ''o'', pr_state = COMPLETED,
     pr_completeness = [(PD, UPLOADED), (RD, UPLOADED), (ID, MISSING)], pr_scenario = PD_RD_ONLY,
     pr_sync_state = NOT_REQUESTED, pr_sync_attempts = 0, pr_parse_attempts = 1, pr_findings = [], pr_groups = [],
     pr_files = [], pr_blobs = [], pr_journal = [], pr_bound = Some ''p'', pr_finalized_by = None,
     pr_matrix_version = ''draft-0'', pr_model_version = ''none'', pr_dataset_version = ''none'',
     pr_manifest_hash = ''pending'', pr_git_sha = ''g'', pr_sync_notice = None, pr_protocol_id = None,
     pr_approved = [], pr_phase_seconds = []\<rparr>"

definition sample_settings :: "(pg_store, unit) settings" where
  "sample_settings = \<lparr>st_port = postgres_port (\<lambda>_. ''d''), st_policy = None, st_readers = sample_readers,
     st_matrix = sample_matrix, st_catalog = [], st_rules = (\<lambda>_. None), st_shuffle = (\<lambda>x. x), st_sha = (\<lambda>_. ''d''),
     st_git_sha = ''g''\<rparr>"

definition sample_ws :: "pg_store workspace" where
  "sample_ws = \<lparr>ws_items = [(''p'', sample_record)], ws_store = empty_database, ws_objects = []\<rparr>"

lemma sample_payload:
  "\<exists>p. assemble_payload sample_settings (signed sample_inspector sample_record) ''protocol-p'' 1 = Inr p \<and>
     is_obj p \<and> jget p ''protocol_id'' = Some (JStr ''protocol-p'') \<and> jget p ''object_id'' = Some (JStr ''o'') \<and>
     jget p ''version'' = Some (JInt 1) \<and> jget p ''status'' = Some (JStr ''PROTOCOL_FINALIZED'') \<and>
     jget p ''kind'' = None \<and> jget p ''assembled'' = None \<and> (\<exists>q. protocol_for_rin p = Inr q)"
proof -
  let ?a = "protocol_args_of sample_settings (signed sample_inspector sample_record) ''protocol-p'' 1 []"
  have r: "revision_changes (st_shuffle sample_settings) (dict_values (pr_groups (signed sample_inspector sample_record))) = Inr []"
    by (simp add: revision_changes_def documents_in_def Let_def signed_def sample_record_def)
  have "\<exists>p. assemble_protocol [] (\<lambda>_. None) ?a = Inr p"
    by (auto simp: assemble_protocol_def protocol_args_of_def signed_def sample_record_def detect_scenario_def present_stages_def
        completeness_of_def completeness_rows_from_catalog_def Let_def)
  then obtain p where p: "assemble_protocol [] (\<lambda>_. None) ?a = Inr p" by blast
  from assembled_goes_out [OF p] have "\<exists>q. protocol_for_rin p = Inr q" by blast
  with assembled [OF p] p r show ?thesis
    by (auto simp: assemble_payload_def sample_settings_def protocol_args_of_def signed_def sample_record_def)
qed

definition sample_signed :: process_record where
  "sample_signed = (signed sample_inspector sample_record)\<lparr>pr_journal := [(''insp'', ''FINALIZE'', from_to COMPLETED FINALIZED)],
     pr_protocol_id := Some ''protocol-p''\<rparr>"

lemma sample_snapshot_of: "\<exists>snap. snapshot_of sample_signed = Inr snap \<and> validate_snapshot snap = Inr () \<and>
    sn_protocol_id snap = Some ''protocol-p'' \<and> sn_object_id snap = ''o'' \<and> sn_process_state snap = FINALIZED \<and> sn_files snap = []"
  by (simp add: snapshot_of_def sample_signed_def signed_def sample_record_def completeness_of_def validate_snapshot_def
      MAX_PARSE_ATTEMPTS_def MAX_SYNC_ATTEMPTS_def absent_def blank_iff is_space_def sample_inspector_def)

lemma sample_materialize:
  assumes "snapshot_of sample_signed = Inr snap" and "dict_get (pg_protocols s) ''protocol-p'' = None"
    and "pg_protocols s = []"
    and p: "assemble_payload sample_settings (signed sample_inspector sample_record) ''protocol-p'' 1 = Inr p"
  shows "\<exists>s'. pg_materialize True sha 0 snap p s = (Inr (), s')"
proof -
  have snap: "validate_snapshot snap = Inr ()" "sn_protocol_id snap = Some ''protocol-p''" "sn_object_id snap = ''o''"
      "sn_process_state snap = FINALIZED" "sn_files snap = []"
    using sample_snapshot_of assms(1) by auto
  have f: "is_obj p" "jget p ''protocol_id'' = Some (JStr ''protocol-p'')" "jget p ''object_id'' = Some (JStr ''o'')"
     "jget p ''version'' = Some (JInt 1)" "jget p ''status'' = Some (JStr ''PROTOCOL_FINALIZED'')"
     "jget p ''kind'' = None" "jget p ''assembled'' = None"
    using sample_payload p by auto
  have "reject_unsafe_protocol_payload p snap = Inr ()"
    using snap f by (simp add: reject_unsafe_protocol_payload_def absent_def blank_iff is_space_def)
  moreover obtain q where q: "protocol_for_rin p = Inr q" using sample_payload p by auto
  moreover have "version_of (canon q) = Some 1"
    using rin_fields [OF q f(1), of "''version''"] f(4) by (simp add: version_of_JInt del: jget_canon_any)
  moreover have "(case transaction m s of (r, x) \<Rightarrow> (as_conflict obj r, x)) = (Inr u, s') \<longleftrightarrow> m s = (Inr u, s')"
    for m :: "(pg_store, unit) prog" and obj u s'
    using conflict_transaction_Inr [of m s obj u s'] by (simp add: Let_def)
  ultimately show ?thesis using snap assms(3)
    by (simp add: pg_materialize_def protocol_row_params_def bindp_apply insert_protocol_def pg_write_process_def
        outbox_event_id_def blank_iff is_space_def modp_def)
qed

lemma sample_finalized:
  "\<exists>ws'. finalize sample_settings 0 1 ''p'' sample_inspector sample_ws = (Inr (), ws')"
proof -
  let ?ws = "sample_ws\<lparr>ws_items := dict_set ''p'' (sample_record\<lparr>pr_journal := [(''insp'', ''FINALIZE'', from_to COMPLETED FINALIZED)]\<rparr>) (ws_items sample_ws),
    ws_store := pg_save_audit ''p'' ''insp'' ''FINALIZE'' (from_to COMPLETED FINALIZED) (ws_store sample_ws)\<rparr>"
  have port: "st_port sample_settings = postgres_port (\<lambda>_. ''d'')" by (simp add: sample_settings_def)
  have fp: "finalize_process (pr_state sample_record) sample_inspector (dict_values (pr_findings sample_record))
      (record_audit (st_port sample_settings) ''p'') sample_ws = (Inr FINALIZED, ?ws)"
    by (simp add: finalize_process_def enter_finalized_def sample_record_def sample_inspector_def can_finalize_def
        record_audit_def bindp_apply change_def modp_def port postgres_port_def sample_ws_def)
  let ?r1 = "sample_record\<lparr>pr_journal := [(''insp'', ''FINALIZE'', from_to COMPLETED FINALIZED)]\<rparr>"
  obtain b wsb where body: "finalize_body sample_settings 0 1 ''p'' sample_inspector sample_ws = (b, wsb)" by force
  have item: "dict_get (ws_items sample_ws) ''p'' = Some sample_record" by (simp add: sample_ws_def)
  have r1: "dict_get (ws_items ?ws) ''p'' = Some ?r1" by simp
  have empty: "pg_protocols (ws_store ?ws) = []" by (simp add: pg_save_audit_def sample_ws_def empty_database_def)
  have v: "sp_next_version (st_port sample_settings) (ws_store ?ws) (pr_object_id ?r1) = 1"
    using empty by (simp add: port postgres_port_def pg_next_version_def)
  obtain p where p: "assemble_payload sample_settings (signed sample_inspector sample_record) ''protocol-p'' 1 = Inr p"
    using sample_payload by blast
  have sj: "signed sample_inspector ?r1 = (signed sample_inspector sample_record)\<lparr>pr_journal := pr_journal ?r1\<rparr>"
    by (simp add: signed_def)
  have pl: "assemble_payload sample_settings (signed sample_inspector ?r1) ''protocol-p'' 1 = Inr p"
    by (simp only: sj assemble_without_journal p)
  have ph: "reject_placeholder_payload p = Inr ()"
    using sample_payload p by (auto simp: reject_placeholder_payload_def blank_iff is_space_def)
  obtain snap where snap: "snapshot_of sample_signed = Inr snap" using sample_snapshot_of by blast
  have sg: "(signed sample_inspector ?r1)\<lparr>pr_protocol_id := Some ''protocol-p''\<rparr> = sample_signed"
    by (simp add: sample_signed_def signed_def)
  have id1: "protocol_identity ''p'' 1 = Inr ''protocol-p''" by (simp add: protocol_identity_def blank_iff is_space_def)
  obtain s' where s': "pg_materialize True (\<lambda>_. ''d'') 0 snap p (ws_store ?ws) = (Inr (), s')"
    using sample_materialize [OF snap _ empty p] empty by auto
  have plan: "finalize_plan sample_settings ''p'' 1 (signed sample_inspector ?r1) = Inr (''protocol-p'', p, snap)"
    by (simp only: finalize_plan_Inr id1 pl ph sg snap simp_thms)
  have "b = Inr ()"
    using finalize_rest [OF r1 zero_le_one body item fp, unfolded v plan] s' by (auto simp: port postgres_port_def)
  then show ?thesis using body item by (simp add: finalize_def bindp_the_record)
qed


end
