(* ===== verification/Pipeline_Worker.thy ===== *)
theory Pipeline_Worker
  imports Prelude
begin

section \<open>The thread that runs the matrix (application/pipeline\_worker.py)\<close>

text \<open>
  One worker thread takes the runs from a queue; any number of threads submit runs and wait for them.
  Each section under the lock, each operation of the queue and each wait for an event is one step, so
  the runs of this relation are the interleavings of the threads. An event is an address in a table:
  a dictionary that gets a new event leaves a thread that waits for the old one with the old one.
  \<open>log\<close> is the list of finished runs, the newest first; it is not a field of the class.
\<close>

record worker =
  wk_queue :: "(string \<times> int) list"
  wk_pending :: "(string, nat) dict"
  wk_events :: "bool list"
  wk_generation :: "(string, int) dict"
  wk_log :: "(string \<times> int) list"

definition new_worker :: worker where
  "new_worker = \<lparr>wk_queue = [], wk_pending = [], wk_events = [], wk_generation = [], wk_log = []\<rparr>"

definition event_set :: "worker \<Rightarrow> nat \<Rightarrow> bool" where
  "event_set w e = (e < length (wk_events w) \<and> wk_events w ! e)"

definition generation_of :: "worker \<Rightarrow> string \<Rightarrow> int" where
  "generation_of w pid = (case dict_get (wk_generation w) pid of None \<Rightarrow> 0 | Some g \<Rightarrow> g)"

subsection \<open>The sections under the lock\<close>

text \<open>\<open>submit\<close> up to \<open>queue.put\<close>.\<close>

definition submit_locked :: "string \<Rightarrow> worker \<Rightarrow> int \<times> worker" where
  "submit_locked pid w =
     (let g = generation_of w pid + 1;
          w' = (case dict_get (wk_pending w) pid of
              Some e \<Rightarrow> if event_set w e then w\<lparr>wk_pending := dict_set pid (length (wk_events w)) (wk_pending w),
                            wk_events := wk_events w @ [False]\<rparr> else w
            | None \<Rightarrow> w\<lparr>wk_pending := dict_set pid (length (wk_events w)) (wk_pending w),
                            wk_events := wk_events w @ [False]\<rparr>)
      in (g, w'\<lparr>wk_generation := dict_set pid g (wk_generation w)\<rparr>))"

definition put :: "string \<times> int \<Rightarrow> worker \<Rightarrow> worker" where
  "put item w = w\<lparr>wk_queue := wk_queue w @ [item]\<rparr>"

text \<open>\<open>_loop\<close>: an item whose run was submitted again is dropped.\<close>

definition superseded :: "string \<times> int \<Rightarrow> worker \<Rightarrow> bool" where
  "superseded = (\<lambda>(pid, g) w. dict_get (wk_generation w) pid \<noteq> Some g)"

definition finish :: "string \<times> int \<Rightarrow> worker \<Rightarrow> worker" where
  "finish = (\<lambda>(pid, g) w.
     if superseded (pid, g) w then w
     else (case dict_get (wk_pending w) pid of
         None \<Rightarrow> w | Some e \<Rightarrow> w\<lparr>wk_events := (wk_events w)[e := True]\<rparr>))"

definition all_set :: "worker \<Rightarrow> bool" where
  "all_set w = list_all (event_set w) (dict_values (wk_pending w))"

text \<open>The second section of \<open>wait\<close> and of \<open>wait_all\<close>.\<close>

definition still_last :: "string \<Rightarrow> nat \<Rightarrow> int \<Rightarrow> worker \<Rightarrow> bool" where
  "still_last pid e g w = (generation_of w pid = g \<and> event_set w e)"

subsection \<open>Threads\<close>

text \<open>
  Where a thread stands: it has the item to put, waits for the event it read with the generation it
  read, or is about to look again. \<open>wait_all\<close> waits for the processes it saw one after another; then
  it compares the generations.
\<close>

type_synonym all_loop = "(string list \<times> (string, int) dict) option"

datatype pc =
    Outside
  | Putting string int
  | Entering string all_loop
  | Blocked string nat int all_loop
  | Woken string nat int all_loop
  | Comparing "(string, int) dict"
  | Entering_All

datatype loop_pc = Getting | Checking string int | Running string int | Finishing string int

text \<open>Where a thread goes when \<open>wait\<close> returns.\<close>

fun after_wait :: "all_loop \<Rightarrow> pc" where
  "after_wait None = Outside"
| "after_wait (Some (pid # pids, gens)) = Entering pid (Some (pids, gens))"
| "after_wait (Some ([], gens)) = Comparing gens"

record threads =
  th_worker :: worker
  th_loop :: loop_pc
  th_pcs :: "nat \<Rightarrow> pc"

definition moved :: "threads \<Rightarrow> nat \<Rightarrow> pc \<Rightarrow> threads" where
  "moved s t p = s\<lparr>th_pcs := (th_pcs s)(t := p)\<rparr>"

datatype label = Submits nat string | Wait_Returns nat string | All_Returns nat | Internal

inductive tstep :: "threads \<Rightarrow> label \<Rightarrow> threads \<Rightarrow> bool" where
  Submit: "th_pcs s t = Outside \<Longrightarrow> submit_locked pid (th_worker s) = (g, w) \<Longrightarrow>
    tstep s (Submits t pid) (moved (s\<lparr>th_worker := w\<rparr>) t (Putting pid g))"
| Put: "th_pcs s t = Putting pid g \<Longrightarrow>
    tstep s Internal (moved (s\<lparr>th_worker := put (pid, g) (th_worker s)\<rparr>) t Outside)"
| Get: "th_loop s = Getting \<Longrightarrow> wk_queue (th_worker s) = (pid, g) # q \<Longrightarrow>
    tstep s Internal (s\<lparr>th_worker := (th_worker s)\<lparr>wk_queue := q\<rparr>, th_loop := Checking pid g\<rparr>)"
| Skip: "th_loop s = Checking pid g \<Longrightarrow> superseded (pid, g) (th_worker s) \<Longrightarrow>
    tstep s Internal (s\<lparr>th_loop := Getting\<rparr>)"
| Start: "th_loop s = Checking pid g \<Longrightarrow> \<not> superseded (pid, g) (th_worker s) \<Longrightarrow>
    tstep s Internal (s\<lparr>th_loop := Running pid g\<rparr>)"
| Run: "th_loop s = Running pid g \<Longrightarrow>
    tstep s Internal (s\<lparr>th_worker := (th_worker s)\<lparr>wk_log := (pid, g) # wk_log (th_worker s)\<rparr>, th_loop := Finishing pid g\<rparr>)"
| Finish: "th_loop s = Finishing pid g \<Longrightarrow>
    tstep s Internal (s\<lparr>th_worker := finish (pid, g) (th_worker s), th_loop := Getting\<rparr>)"
| Wait: "th_pcs s t = Outside \<Longrightarrow> tstep s Internal (moved s t (Entering pid None))"
| No_Event: "th_pcs s t = Entering pid k \<Longrightarrow> dict_get (wk_pending (th_worker s)) pid = None \<Longrightarrow>
    tstep s (Wait_Returns t pid) (moved s t (after_wait k))"
| Read: "th_pcs s t = Entering pid k \<Longrightarrow> dict_get (wk_pending (th_worker s)) pid = Some e \<Longrightarrow>
    tstep s Internal (moved s t (Blocked pid e (generation_of (th_worker s) pid) k))"
| Wake: "th_pcs s t = Blocked pid e g k \<Longrightarrow> event_set (th_worker s) e \<Longrightarrow>
    tstep s Internal (moved s t (Woken pid e g k))"
| Return: "th_pcs s t = Woken pid e g k \<Longrightarrow> still_last pid e g (th_worker s) \<Longrightarrow>
    tstep s (Wait_Returns t pid) (moved s t (after_wait k))"
| Again: "th_pcs s t = Woken pid e g k \<Longrightarrow> \<not> still_last pid e g (th_worker s) \<Longrightarrow>
    tstep s Internal (moved s t (Entering pid k))"
| Wait_All: "th_pcs s t = Outside \<Longrightarrow> tstep s Internal (moved s t Entering_All)"
| All_Idle: "th_pcs s t = Entering_All \<Longrightarrow> all_set (th_worker s) \<Longrightarrow> tstep s (All_Returns t) (moved s t Outside)"
| All_Read: "th_pcs s t = Entering_All \<Longrightarrow> \<not> all_set (th_worker s) \<Longrightarrow>
    tstep s Internal (moved s t (after_wait (Some (dict_keys (wk_pending (th_worker s)), wk_generation (th_worker s)))))"
| All_Same: "th_pcs s t = Comparing gens \<Longrightarrow> all_set (th_worker s) \<and> wk_generation (th_worker s) = gens \<Longrightarrow>
    tstep s (All_Returns t) (moved s t Outside)"
| All_Again: "th_pcs s t = Comparing gens \<Longrightarrow> \<not> (all_set (th_worker s) \<and> wk_generation (th_worker s) = gens) \<Longrightarrow>
    tstep s Internal (moved s t Entering_All)"

inductive treach :: "threads \<Rightarrow> bool" where
  start: "treach \<lparr>th_worker = new_worker, th_loop = Getting, th_pcs = \<lambda>_. Outside\<rparr>"
| step: "treach s \<Longrightarrow> tstep s l s' \<Longrightarrow> treach s'"

inductive_cases tstep_Wait_Returns: "tstep s (Wait_Returns t pid) s'"
inductive_cases tstep_All_Returns: "tstep s (All_Returns t) s'"

subsection \<open>Nothing submitted is lost\<close>

text \<open>The runs on their way: the item is with its thread, in the queue or with the worker thread.\<close>

definition on_the_way :: "threads \<Rightarrow> string \<Rightarrow> int \<Rightarrow> bool" where
  "on_the_way s pid g \<longleftrightarrow> (pid, g) \<in> set (wk_queue (th_worker s)) \<or>
     th_loop s \<in> {Checking pid g, Running pid g, Finishing pid g} \<or> (\<exists>t. th_pcs s t = Putting pid g)"

text \<open>The tables of the class: one event per process, none shared, and a run behind every set event.\<close>

definition tables_ok :: "worker \<Rightarrow> bool" where
  "tables_ok w \<longleftrightarrow> wf_dict (wk_pending w) \<and>
     (\<forall>pid. dict_get (wk_pending w) pid = None \<longleftrightarrow> dict_get (wk_generation w) pid = None) \<and>
     (\<forall>pid e. dict_get (wk_pending w) pid = Some e \<longrightarrow> e < length (wk_events w)) \<and>
     (\<forall>pid pid' e. dict_get (wk_pending w) pid = Some e \<and> dict_get (wk_pending w) pid' = Some e \<longrightarrow> pid = pid') \<and>
     (\<forall>pid e g. dict_get (wk_pending w) pid = Some e \<and> event_set w e \<and> dict_get (wk_generation w) pid = Some g \<longrightarrow>
        (pid, g) \<in> set (wk_log w))"

lemma tables_okI:
  assumes "wf_dict (wk_pending w)"
    and "\<And>pid. dict_get (wk_pending w) pid = None \<longleftrightarrow> dict_get (wk_generation w) pid = None"
    and "\<And>pid e. dict_get (wk_pending w) pid = Some e \<Longrightarrow> e < length (wk_events w)"
    and "\<And>pid pid' e. dict_get (wk_pending w) pid = Some e \<Longrightarrow> dict_get (wk_pending w) pid' = Some e \<Longrightarrow> pid = pid'"
    and "\<And>pid e g. dict_get (wk_pending w) pid = Some e \<Longrightarrow> event_set w e \<Longrightarrow> dict_get (wk_generation w) pid = Some g \<Longrightarrow>
      (pid, g) \<in> set (wk_log w)"
  shows "tables_ok w"
  unfolding tables_ok_def using assms by blast

lemma tables_okD:
  assumes "tables_ok w"
  shows "wf_dict (wk_pending w)"
    and "dict_get (wk_pending w) pid = None \<longleftrightarrow> dict_get (wk_generation w) pid = None"
    and "dict_get (wk_pending w) pid = Some e \<Longrightarrow> e < length (wk_events w)"
    and "dict_get (wk_pending w) pid = Some e \<Longrightarrow> dict_get (wk_pending w) pid' = Some e \<Longrightarrow> pid = pid'"
    and "dict_get (wk_pending w) pid = Some e \<Longrightarrow> event_set w e \<Longrightarrow> dict_get (wk_generation w) pid = Some g \<Longrightarrow>
      (pid, g) \<in> set (wk_log w)"
  using assms unfolding tables_ok_def by blast+

text \<open>What a thread read is no newer than the tables, and is the table's event while it is as new.\<close>

fun read_ok :: "worker \<Rightarrow> pc \<Rightarrow> bool" where
  "read_ok w (Blocked pid e g k) =
     (g \<le> generation_of w pid \<and> (g = generation_of w pid \<longrightarrow> dict_get (wk_pending w) pid = Some e))"
| "read_ok w (Woken pid e g k) =
     (g \<le> generation_of w pid \<and> (g = generation_of w pid \<longrightarrow> dict_get (wk_pending w) pid = Some e))"
| "read_ok w p = True"

definition worker_inv :: "threads \<Rightarrow> bool" where
  "worker_inv s \<longleftrightarrow> tables_ok (th_worker s) \<and>
     (\<forall>pid e g. dict_get (wk_pending (th_worker s)) pid = Some e \<and> \<not> event_set (th_worker s) e \<and>
        dict_get (wk_generation (th_worker s)) pid = Some g \<longrightarrow> on_the_way s pid g) \<and>
     (\<forall>pid g. th_loop s = Finishing pid g \<longrightarrow> (pid, g) \<in> set (wk_log (th_worker s))) \<and>
     (\<forall>t. read_ok (th_worker s) (th_pcs s t))"

lemma event_set_append [simp]:
  "event_set (w\<lparr>wk_events := wk_events w @ [False], wk_pending := p\<rparr>) e = event_set w e"
  by (auto simp: event_set_def nth_append less_Suc_eq)

lemma read_ok_frame:
  assumes "\<And>pid. generation_of w' pid = generation_of w pid" and "wk_pending w' = wk_pending w"
  shows "read_ok w' p = read_ok w p"
  using assms by (cases p) simp_all

lemma worker_inv_frame:
  assumes "worker_inv s" and "wk_pending (th_worker s') = wk_pending (th_worker s)"
    and "wk_generation (th_worker s') = wk_generation (th_worker s)"
    and "wk_events (th_worker s') = wk_events (th_worker s)"
    and "set (wk_log (th_worker s)) \<subseteq> set (wk_log (th_worker s'))"
    and "\<And>pid g. on_the_way s pid g \<Longrightarrow> dict_get (wk_generation (th_worker s)) pid = Some g \<Longrightarrow> on_the_way s' pid g"
    and "\<And>pid g. th_loop s' = Finishing pid g \<Longrightarrow> (pid, g) \<in> set (wk_log (th_worker s'))"
    and "\<And>t. read_ok (th_worker s) (th_pcs s t) \<Longrightarrow> read_ok (th_worker s) (th_pcs s' t)"
  shows "worker_inv s'"
proof -
  have e: "event_set (th_worker s') = event_set (th_worker s)" by (simp add: event_set_def assms(4) fun_eq_iff)
  have g: "generation_of (th_worker s') pid = generation_of (th_worker s) pid" for pid
    by (simp add: generation_of_def assms(3))
  have "tables_ok (th_worker s')"
    using assms(1,5) unfolding worker_inv_def tables_ok_def assms(2-4) e by blast
  moreover have "read_ok (th_worker s') (th_pcs s' t)" for t
    using assms(1,8) read_ok_frame [of "th_worker s'" "th_worker s"] g assms(2) by (auto simp: worker_inv_def)
  ultimately show ?thesis
    using assms(1,6,7) unfolding worker_inv_def assms(2,3) e by blast
qed

lemma moved_simps [simp]:
  "th_worker (moved s t p) = th_worker s" "th_loop (moved s t p) = th_loop s"
  "th_pcs (moved s t p) t' = (if t' = t then p else th_pcs s t')"
  by (simp_all add: moved_def)

lemma read_ok_after_wait [simp]: "read_ok w (after_wait k)"
  by (cases k rule: after_wait.cases) simp_all

lemma not_putting_after_wait [simp]: "after_wait k \<noteq> Putting pid g"
  by (cases k rule: after_wait.cases) simp_all

text \<open>A thread that does not hold an item may move as it likes.\<close>

lemma worker_inv_move:
  assumes "worker_inv s" and "read_ok (th_worker s) p" and "\<And>pid g. th_pcs s t \<noteq> Putting pid g"
  shows "worker_inv (moved s t p)"
proof (rule worker_inv_frame [OF assms(1)])
  show "on_the_way (moved s t p) pid g" if "on_the_way s pid g" for pid g
    using that assms(3) unfolding on_the_way_def by (metis moved_simps)
qed (use assms in \<open>auto simp: worker_inv_def\<close>)

text \<open>What \<open>submit\<close> leaves: a new generation of the process over an event that is not set.\<close>

lemma submit_locked_tables:
  assumes "submit_locked pid w = (g, w')" and ok: "tables_ok w"
  shows "g = generation_of w pid + 1 \<and> dict_get (wk_generation w') = (dict_get (wk_generation w))(pid \<mapsto> g) \<and>
    event_set w' = event_set w \<and> wk_log w' = wk_log w \<and> wk_queue w' = wk_queue w \<and> wf_dict (wk_pending w') \<and>
    length (wk_events w) \<le> length (wk_events w') \<and>
    (\<exists>e. dict_get (wk_pending w') = (dict_get (wk_pending w))(pid \<mapsto> e) \<and> \<not> event_set w e \<and> e < length (wk_events w') \<and>
       (\<forall>p. dict_get (wk_pending w) p = Some e \<longrightarrow> p = pid))"
proof -
  have new: "event_set (w\<lparr>wk_pending := p, wk_events := wk_events w @ [False], wk_generation := q\<rparr>) = event_set w" for p q
    by (auto simp: event_set_def nth_append less_Suc_eq fun_eq_iff)
  have old: "event_set (w\<lparr>wk_generation := q\<rparr>) = event_set w" for q
    by (auto simp: event_set_def fun_eq_iff)
  have fresh: "\<not> event_set w (length (wk_events w))" by (simp add: event_set_def)
  have bound: "dict_get (wk_pending w) p = Some e \<Longrightarrow> e < length (wk_events w)" for p e
    using ok by (auto simp: tables_ok_def)
  have single: "dict_get (wk_pending w) p = Some e \<Longrightarrow> dict_get (wk_pending w) q = Some e \<Longrightarrow> p = q" for p q e
    using ok unfolding tables_ok_def by blast
  have wf: "wf_dict (wk_pending w)" using ok by (simp add: tables_ok_def)
  show ?thesis
  proof (cases "\<exists>e. dict_get (wk_pending w) pid = Some e \<and> \<not> event_set w e")
    case True
    then obtain e where e: "dict_get (wk_pending w) pid = Some e" "\<not> event_set w e" by blast
    with assms(1) have w': "g = generation_of w pid + 1" "w' = w\<lparr>wk_generation := dict_set pid g (wk_generation w)\<rparr>"
      by (auto simp: submit_locked_def Let_def)
    have "\<forall>p. dict_get (wk_pending w) p = Some e \<longrightarrow> p = pid" using single [OF _ e(1)] by blast
    then show ?thesis using e(2) bound [OF e(1)] wf
      by (intro conjI exI [of _ e]) (simp_all add: w' old fun_eq_iff e(1))
  next
    case False
    with assms(1) have w': "g = generation_of w pid + 1" "w' = w\<lparr>wk_pending := dict_set pid (length (wk_events w)) (wk_pending w),
        wk_events := wk_events w @ [False], wk_generation := dict_set pid g (wk_generation w)\<rparr>"
      by (auto simp: submit_locked_def Let_def split: option.splits)
    have "\<forall>p. dict_get (wk_pending w) p = Some (length (wk_events w)) \<longrightarrow> p = pid" using bound by fastforce
    then show ?thesis using wf fresh
      by (intro conjI exI [of _ "length (wk_events w)"]) (simp_all add: w' new fun_eq_iff)
  qed
qed

lemma worker_inv_submit:
  assumes inv: "worker_inv s" and "th_pcs s t = Outside" and sub: "submit_locked pid (th_worker s) = (g, w)"
  shows "worker_inv (moved (s\<lparr>th_worker := w\<rparr>) t (Putting pid g))"
proof -
  let ?s = "moved (s\<lparr>th_worker := w\<rparr>) t (Putting pid g)"
  have ok: "tables_ok (th_worker s)" using inv by (simp add: worker_inv_def)
  from submit_locked_tables [OF sub ok] obtain e where f: "g = generation_of (th_worker s) pid + 1"
      "dict_get (wk_generation w) = (dict_get (wk_generation (th_worker s)))(pid \<mapsto> g)"
      "event_set w = event_set (th_worker s)" "wk_log w = wk_log (th_worker s)" "wk_queue w = wk_queue (th_worker s)"
      "wf_dict (wk_pending w)" "length (wk_events (th_worker s)) \<le> length (wk_events w)"
      "dict_get (wk_pending w) = (dict_get (wk_pending (th_worker s)))(pid \<mapsto> e)" "\<not> event_set (th_worker s) e"
      "e < length (wk_events w)" "\<forall>p. dict_get (wk_pending (th_worker s)) p = Some e \<longrightarrow> p = pid"
    by blast
  have way: "on_the_way ?s p h" if "on_the_way s p h" for p h
    using that assms(2) unfolding on_the_way_def by (auto simp: f(5)) (metis pc.distinct(1))+
  have "tables_ok w"
  proof (rule tables_okI)
    show "dict_get (wk_pending w) p = None \<longleftrightarrow> dict_get (wk_generation w) p = None" for p
      using tables_okD(2) [OF ok, of p] by (simp add: f(2,8))
    show "x < length (wk_events w)" if "dict_get (wk_pending w) p = Some x" for p x
      using that f(7,10) tables_okD(3) [OF ok, of p x] by (simp add: f(8) split: if_splits)
    show "p = q" if "dict_get (wk_pending w) p = Some x" "dict_get (wk_pending w) q = Some x" for p q x
      using that f(11) tables_okD(4) [OF ok, of p x q] by (auto simp: f(8) split: if_splits)
    show "(p, h) \<in> set (wk_log w)"
      if "dict_get (wk_pending w) p = Some x" "event_set w x" "dict_get (wk_generation w) p = Some h" for p x h
      using that f(9) tables_okD(5) [OF ok, of p x h] by (simp add: f(2,3,4,8) split: if_splits)
  qed (rule f(6))
  moreover have "on_the_way ?s p h"
    if "dict_get (wk_pending w) p = Some e'" "\<not> event_set w e'" "dict_get (wk_generation w) p = Some h" for p e' h
  proof (cases "p = pid")
    case True
    then show ?thesis using that(3) by (auto simp: f(2) on_the_way_def)
  next
    case False
    with that have "dict_get (wk_pending (th_worker s)) p = Some e'" "\<not> event_set (th_worker s) e'"
      "dict_get (wk_generation (th_worker s)) p = Some h" by (simp_all add: f(2,3,8))
    with inv have "on_the_way s p h" unfolding worker_inv_def by blast
    then show ?thesis by (rule way)
  qed
  moreover have gen: "generation_of w p = (if p = pid then g else generation_of (th_worker s) p)" for p
    by (simp add: generation_of_def f(2))
  then have "read_ok w q" if "read_ok (th_worker s) q" for q
    using that by (cases q) (auto simp: f(1,8))
  ultimately show ?thesis using inv f(4) unfolding worker_inv_def by auto
qed

lemma worker_inv_finish:
  assumes inv: "worker_inv s" and loop: "th_loop s = Finishing pid g"
  shows "worker_inv (s\<lparr>th_worker := finish (pid, g) (th_worker s), th_loop := Getting\<rparr>)"
proof (cases "superseded (pid, g) (th_worker s)")
  case True
  then have "finish (pid, g) (th_worker s) = th_worker s" by (simp add: finish_def)
  then show ?thesis
    by (intro worker_inv_frame [OF inv]) (use inv loop True in \<open>auto simp: worker_inv_def on_the_way_def superseded_def\<close>)
next
  case False
  let ?w = "th_worker s"
  have ok: "tables_ok ?w" using inv by (simp add: worker_inv_def)
  from False have g: "dict_get (wk_generation ?w) pid = Some g" by (simp add: superseded_def)
  with ok obtain e where e: "dict_get (wk_pending ?w) pid = Some e"
    unfolding tables_ok_def by (cases "dict_get (wk_pending ?w) pid") auto
  have len: "e < length (wk_events ?w)" using ok e by (auto simp: tables_ok_def)
  have single: "dict_get (wk_pending ?w) p = Some e \<Longrightarrow> p = pid" for p
    using ok e unfolding tables_ok_def by blast
  let ?v = "?w\<lparr>wk_events := (wk_events ?w)[e := True]\<rparr>"
  have fin: "finish (pid, g) ?w = ?v" using False e by (simp add: finish_def)
  have ev: "event_set ?v x = (x = e \<or> event_set ?w x)" for x
    using len by (auto simp: event_set_def nth_list_update)
  have log: "(pid, g) \<in> set (wk_log ?w)" using inv loop by (simp add: worker_inv_def)
  have "tables_ok ?v"
  proof (rule tables_okI)
    show "(p, h) \<in> set (wk_log ?v)"
      if "dict_get (wk_pending ?v) p = Some x" "event_set ?v x" "dict_get (wk_generation ?v) p = Some h" for p x h
    proof (cases "x = e")
      case True
      with that single have "p = pid" by simp
      with that(3) g log show ?thesis by simp
    next
      case False
      with that tables_okD(5) [OF ok, of p x h] show ?thesis by (simp add: ev)
    qed
    show "p = q" if "dict_get (wk_pending ?v) p = Some x" "dict_get (wk_pending ?v) q = Some x" for p q x
      using that tables_okD(4) [OF ok, of p x q] by simp
  qed (use tables_okD(1,2,3) [OF ok] in simp_all)
  moreover have "on_the_way (s\<lparr>th_worker := ?v, th_loop := Getting\<rparr>) p h"
    if "dict_get (wk_pending ?w) p = Some x" "\<not> event_set ?v x" "dict_get (wk_generation ?w) p = Some h" for p x h
  proof -
    have "p \<noteq> pid" using that e by (auto simp: ev)
    moreover have "on_the_way s p h" using inv that unfolding worker_inv_def ev by blast
    ultimately show ?thesis using loop by (auto simp: on_the_way_def)
  qed
  moreover have "read_ok ?v p = read_ok ?w p" for p
    by (rule read_ok_frame) (simp_all add: generation_of_def)
  ultimately show ?thesis using inv unfolding fin worker_inv_def by auto
qed

lemma tstep_inv: "tstep s l s' \<Longrightarrow> worker_inv s \<Longrightarrow> worker_inv s'"
proof (induction rule: tstep.induct)
  case (Submit s t pid g w)
  then show ?case by (intro worker_inv_submit)
next
  case (Put s t pid g)
  show ?case
  proof (rule worker_inv_frame [OF Put.prems])
    show "on_the_way (moved (s\<lparr>th_worker := put (pid, g) (th_worker s)\<rparr>) t Outside) pid' g'"
      if "on_the_way s pid' g'" for pid' g'
      using that Put.hyps unfolding on_the_way_def by (auto simp: put_def) (metis pc.inject(1))+
  qed (use Put in \<open>auto simp: put_def worker_inv_def\<close>)
next
  case (Get s pid g q)
  show ?case
    by (rule worker_inv_frame [OF Get.prems])
      (use Get in \<open>auto simp: worker_inv_def on_the_way_def\<close>)
next
  case (Skip s pid g)
  show ?case
    by (rule worker_inv_frame [OF Skip.prems])
      (use Skip in \<open>auto simp: worker_inv_def on_the_way_def superseded_def\<close>)
next
  case (Start s pid g)
  show ?case
    by (rule worker_inv_frame [OF Start.prems])
      (use Start in \<open>auto simp: worker_inv_def on_the_way_def\<close>)
next
  case (Run s pid g)
  show ?case
    by (rule worker_inv_frame [OF Run.prems])
      (use Run in \<open>auto simp: worker_inv_def on_the_way_def\<close>)
next
  case (Finish s pid g)
  then show ?case by (intro worker_inv_finish)
next
  case (Read s t pid k e)
  then show ?case by (intro worker_inv_move) (auto simp: generation_of_def)
next
  case (Wake s t pid e g k)
  have "read_ok (th_worker s) (th_pcs s t)" using Wake.prems by (simp add: worker_inv_def)
  with Wake show ?case by (intro worker_inv_move) auto
qed (rule worker_inv_move; simp)+

lemma treach_inv: "treach s \<Longrightarrow> worker_inv s"
proof (induction rule: treach.induct)
  case start
  show ?case by (simp add: worker_inv_def tables_ok_def new_worker_def on_the_way_def)
next
  case (step s l s')
  from tstep_inv [OF step.hyps(2) step.IH] show ?case .
qed

subsection \<open>No run twice\<close>

fun loop_item :: "loop_pc \<Rightarrow> (string \<times> int) list" where
  "loop_item (Checking pid g) = [(pid, g)]"
| "loop_item (Running pid g) = [(pid, g)]"
| "loop_item _ = []"

definition all_items :: "threads \<Rightarrow> (string \<times> int) list" where
  "all_items s = loop_item (th_loop s) @ wk_queue (th_worker s) @ wk_log (th_worker s)"

definition once :: "threads \<Rightarrow> bool" where
  "once s \<longleftrightarrow> distinct (all_items s) \<and>
     (\<forall>pid g. (pid, g) \<in> set (all_items s) \<longrightarrow> g \<le> generation_of (th_worker s) pid) \<and>
     (\<forall>t pid g. th_pcs s t = Putting pid g \<longrightarrow> g \<le> generation_of (th_worker s) pid \<and> (pid, g) \<notin> set (all_items s) \<and>
        (\<forall>t'. th_pcs s t' = Putting pid g \<longrightarrow> t' = t))"

lemma once_move:
  assumes "once s" and "\<And>pid g. p \<noteq> Putting pid g"
  shows "once (moved s t p)"
  using assms unfolding once_def all_items_def by simp

lemma once_items:
  assumes "once s" and "th_pcs s' = th_pcs s" and "\<And>pid. generation_of (th_worker s') pid = generation_of (th_worker s) pid"
    and "distinct (all_items s')" and "set (all_items s') \<subseteq> set (all_items s)"
  shows "once s'"
  using assms unfolding once_def by (metis subsetD)

lemma once_submit:
  assumes "once s" and out: "th_pcs s t = Outside" and "submit_locked pid (th_worker s) = (g, w)" and "tables_ok (th_worker s)"
  shows "once (moved (s\<lparr>th_worker := w\<rparr>) t (Putting pid g))"
proof -
  from submit_locked_tables [OF assms(3,4)] have f: "g = generation_of (th_worker s) pid + 1"
      "dict_get (wk_generation w) = (dict_get (wk_generation (th_worker s)))(pid \<mapsto> g)"
      "wk_log w = wk_log (th_worker s)" "wk_queue w = wk_queue (th_worker s)" by blast+
  have gen: "generation_of w p = (if p = pid then g else generation_of (th_worker s) p)" for p
    by (simp add: generation_of_def f(2))
  have items: "all_items (moved (s\<lparr>th_worker := w\<rparr>) t (Putting pid g)) = all_items s"
    by (simp add: all_items_def f(3,4))
  have old: "h \<le> generation_of (th_worker s) p" if "(p, h) \<in> set (all_items s) \<or> th_pcs s t' = Putting p h" for p h t'
    using assms(1) that unfolding once_def by blast
  then have new: "(pid, g) \<notin> set (all_items s) \<and> th_pcs s t' \<noteq> Putting pid g" for t'
    using f(1) by (metis add_le_same_cancel1 not_one_le_zero)
  have "h \<le> generation_of w p" if "(p, h) \<in> set (all_items s) \<or> th_pcs s t' = Putting p h" for p h t'
    using old [OF that] f(1) by (auto simp: gen)
  then show ?thesis
    using assms(1) new unfolding once_def items by (auto simp: gen)
qed

lemma once_put:
  assumes "once s" and "th_pcs s t = Putting pid g"
  shows "once (moved (s\<lparr>th_worker := put (pid, g) (th_worker s)\<rparr>) t Outside)"
proof -
  let ?s = "moved (s\<lparr>th_worker := put (pid, g) (th_worker s)\<rparr>) t Outside"
  have items: "set (all_items ?s) = insert (pid, g) (set (all_items s))" by (auto simp: all_items_def put_def)
  have gen: "generation_of (th_worker ?s) p = generation_of (th_worker s) p" for p by (simp add: put_def generation_of_def)
  have "(pid, g) \<notin> set (all_items s)" "distinct (all_items s)" using assms unfolding once_def by blast+
  then have "distinct (all_items ?s)" by (auto simp: all_items_def put_def)
  with assms show ?thesis unfolding once_def items gen by auto
qed

lemma tstep_once: "tstep s l s' \<Longrightarrow> worker_inv s \<Longrightarrow> once s \<Longrightarrow> once s'"
proof (induction rule: tstep.induct)
  case (Submit s t pid g w)
  then show ?case by (intro once_submit) (simp_all add: worker_inv_def)
next
  case (Put s t pid g)
  then show ?case by (intro once_put)
next
  case (Get s pid g q)
  then show ?case by (intro once_items [OF Get.prems(2)]) (auto simp: once_def all_items_def generation_of_def)
next
  case (Skip s pid g)
  then show ?case by (intro once_items [OF Skip.prems(2)]) (auto simp: once_def all_items_def)
next
  case (Start s pid g)
  then show ?case by (intro once_items [OF Start.prems(2)]) (auto simp: once_def all_items_def)
next
  case (Run s pid g)
  then show ?case by (intro once_items [OF Run.prems(2)]) (auto simp: once_def all_items_def generation_of_def)
next
  case (Finish s pid g)
  have "wk_queue (finish x w) = wk_queue w \<and> wk_log (finish x w) = wk_log w \<and> wk_generation (finish x w) = wk_generation w" for x w
    by (auto simp: finish_def split: prod.splits option.splits)
  with Finish show ?case
    by (intro once_items [OF Finish.prems(2)]) (auto simp: once_def all_items_def generation_of_def)
qed (rule once_move; simp)+

lemma treach_once: "treach s \<Longrightarrow> once s"
proof (induction rule: treach.induct)
  case start
  show ?case by (simp add: once_def all_items_def new_worker_def)
next
  case (step s l s')
  from tstep_once [OF step.hyps(2) treach_inv [OF step.hyps(1)] step.IH] show ?case .
qed

subsection \<open>The worker thread on its own\<close>

definition loop_step :: "threads \<Rightarrow> threads" where
  "loop_step s =
     (case th_loop s of
        Getting \<Rightarrow> (case wk_queue (th_worker s) of
            [] \<Rightarrow> s
          | (pid, g) # q \<Rightarrow> s\<lparr>th_worker := (th_worker s)\<lparr>wk_queue := q\<rparr>, th_loop := Checking pid g\<rparr>)
      | Checking pid g \<Rightarrow> s\<lparr>th_loop := (if superseded (pid, g) (th_worker s) then Getting else Running pid g)\<rparr>
      | Running pid g \<Rightarrow> s\<lparr>th_worker := (th_worker s)\<lparr>wk_log := (pid, g) # wk_log (th_worker s)\<rparr>, th_loop := Finishing pid g\<rparr>
      | Finishing pid g \<Rightarrow> s\<lparr>th_worker := finish (pid, g) (th_worker s), th_loop := Getting\<rparr>)"

definition steps_left :: "threads \<Rightarrow> nat" where
  "steps_left s = 4 * length (wk_queue (th_worker s)) +
     (case th_loop s of Getting \<Rightarrow> 0 | Checking _ _ \<Rightarrow> 3 | Running _ _ \<Rightarrow> 2 | Finishing _ _ \<Rightarrow> 1)"

lemma loop_step_tstep: "steps_left s \<noteq> 0 \<Longrightarrow> tstep s Internal (loop_step s)"
  by (cases "th_loop s"; cases "wk_queue (th_worker s)")
    (auto simp: steps_left_def loop_step_def split: if_splits intro: tstep.intros)

lemma finish_keeps [simp]:
  "wk_queue (finish x w) = wk_queue w" "wk_generation (finish x w) = wk_generation w" "wk_pending (finish x w) = wk_pending w"
  by (auto simp: finish_def split: prod.splits option.splits)

lemma loop_step_less:
  "steps_left (loop_step s) \<le> steps_left s - 1 \<and> th_pcs (loop_step s) = th_pcs s \<and>
     wk_generation (th_worker (loop_step s)) = wk_generation (th_worker s) \<and>
     wk_pending (th_worker (loop_step s)) = wk_pending (th_worker s)"
  by (cases "th_loop s"; cases "wk_queue (th_worker s)") (auto simp: steps_left_def loop_step_def)

lemma loop_steps:
  "treach s \<Longrightarrow> treach ((loop_step ^^ n) s) \<and> steps_left ((loop_step ^^ n) s) \<le> steps_left s - n \<and>
     th_pcs ((loop_step ^^ n) s) = th_pcs s \<and>
     wk_generation (th_worker ((loop_step ^^ n) s)) = wk_generation (th_worker s) \<and>
     wk_pending (th_worker ((loop_step ^^ n) s)) = wk_pending (th_worker s)"
proof (induction n)
  case (Suc n)
  let ?s = "(loop_step ^^ n) s"
  have "treach (loop_step ?s)"
  proof (cases "steps_left ?s = 0")
    case True
    then have "loop_step ?s = ?s" by (auto simp: steps_left_def loop_step_def split: loop_pc.splits)
    with Suc show ?thesis by simp
  next
    case False
    with Suc show ?thesis by (blast intro: treach.step loop_step_tstep)
  qed
  with Suc loop_step_less [of ?s] show ?case by (auto simp del: split_paired_All)
qed simp

subsection \<open>Properties\<close>

text \<open>
  C20. \<open>wait\<close> waits for the last run: in every interleaving of submitting and waiting threads with the
  worker thread, when \<open>wait\<close> returns the run submitted last for the process has been made, or none was
  ever submitted.
\<close>

theorem wait_returns_after_the_last_run:
  assumes "treach s" and "tstep s (Wait_Returns t pid) s'" and "dict_get (wk_generation (th_worker s)) pid = Some g"
  shows "(pid, g) \<in> set (wk_log (th_worker s'))"
proof -
  have inv: "worker_inv s" by (rule treach_inv [OF assms(1)])
  then have ok: "tables_ok (th_worker s)" by (simp add: worker_inv_def)
  have "\<exists>e h k. th_pcs s t = Woken pid e h k \<and> still_last pid e h (th_worker s) \<and> th_worker s' = th_worker s"
    using assms(2) by (rule tstep_Wait_Returns) (use tables_okD(2) [OF ok, of pid] assms(3) in auto)
  then obtain e h k where w: "th_pcs s t = Woken pid e h k" "still_last pid e h (th_worker s)" "th_worker s' = th_worker s"
    by blast
  have "read_ok (th_worker s) (th_pcs s t)" using inv by (simp add: worker_inv_def)
  with w have "dict_get (wk_pending (th_worker s)) pid = Some e" "event_set (th_worker s) e"
    by (auto simp: still_last_def)
  from tables_okD(5) [OF ok this assms(3)] w(3) show ?thesis by simp
qed

text \<open>
  \<open>wait_all\<close> returns only when every process has had the run submitted last for it.
\<close>

theorem wait_all_returns_after_every_run:
  assumes "treach s" and "tstep s (All_Returns t) s'" and "dict_get (wk_generation (th_worker s)) pid = Some g"
  shows "(pid, g) \<in> set (wk_log (th_worker s'))"
proof -
  have ok: "tables_ok (th_worker s)" using treach_inv [OF assms(1)] by (simp add: worker_inv_def)
  from assms(2) have a: "all_set (th_worker s)" "th_worker s' = th_worker s"
    by (auto elim!: tstep_All_Returns)
  obtain e where e: "dict_get (wk_pending (th_worker s)) pid = Some e"
    using tables_okD(2) [OF ok, of pid] assms(3) by (cases "dict_get (wk_pending (th_worker s)) pid") auto
  have "event_set (th_worker s) e" using a(1) dict_get_values [OF e] unfolding all_set_def list_all_iff by blast
  from tables_okD(5) [OF ok e this assms(3)] a(2) show ?thesis by simp
qed


subsection \<open>Two submissions and a reader\<close>

text \<open>Two threads submit the same process, the first item is dropped, a third thread waits.\<close>

definition worker_path :: "threads list" where
  "worker_path =
     (let s0 = \<lparr>th_worker = new_worker, th_loop = Getting, th_pcs = \<lambda>_. Outside\<rparr>;
          s1 = moved (s0\<lparr>th_worker := snd (submit_locked ''p'' (th_worker s0))\<rparr>) 0 (Putting ''p'' 1);
          s2 = moved (s1\<lparr>th_worker := snd (submit_locked ''p'' (th_worker s1))\<rparr>) 1 (Putting ''p'' 2);
          s3 = moved (s2\<lparr>th_worker := put (''p'', 1) (th_worker s2)\<rparr>) 0 Outside;
          s4 = moved (s3\<lparr>th_worker := put (''p'', 2) (th_worker s3)\<rparr>) 1 Outside
      in [s0, s1, s2, s3, s4])"

lemma worker_path_reached: "treach (worker_path ! 4)"
proof -
  note d = worker_path_def Let_def new_worker_def submit_locked_def generation_of_def
  have "treach (worker_path ! 0)" by (simp add: worker_path_def Let_def treach.start)
  moreover have "tstep (worker_path ! 0) (Submits 0 ''p'') (worker_path ! 1)"
    using tstep.Submit [of "worker_path ! 0" 0 "''p''"] by (simp add: d)
  moreover have "tstep (worker_path ! 1) (Submits 1 ''p'') (worker_path ! 2)"
    using tstep.Submit [of "worker_path ! 1" 1 "''p''"] by (simp add: d event_set_def)
  moreover have "tstep (worker_path ! 2) Internal (worker_path ! 3)"
    using tstep.Put [of "worker_path ! 2" 0 "''p''" 1] by (simp add: d)
  moreover have "tstep (worker_path ! 3) Internal (worker_path ! 4)"
    using tstep.Put [of "worker_path ! 3" 1 "''p''" 2] by (simp add: d)
  ultimately show ?thesis by (meson treach.step)
qed


text \<open>The state after the worker thread is done, and a thread that has asked.\<close>

definition served :: threads where
  "served = moved ((loop_step ^^ 6) (worker_path ! 4)) 2 (Entering ''p'' None)"

lemma served_steps:
  "treach served" "th_pcs served 2 = Entering ''p'' None"
  "dict_get (wk_pending (th_worker served)) ''p'' = Some 0" "generation_of (th_worker served) ''p'' = 2"
  "event_set (th_worker served) 0" "dict_get (wk_generation (th_worker served)) ''p'' = Some 2" "all_set (th_worker served)"
proof -
  have "treach ((loop_step ^^ 6) (worker_path ! 4))" using loop_steps [OF worker_path_reached] by blast
  moreover have "th_pcs ((loop_step ^^ 6) (worker_path ! 4)) 2 = Outside"
    using loop_steps [OF worker_path_reached, of 6] by (simp add: worker_path_def Let_def)
  ultimately show "treach served" unfolding served_def by (meson treach.step tstep.Wait)
qed (simp_all add: served_def worker_path_def Let_def new_worker_def submit_locked_def generation_of_def put_def event_set_def
      loop_step_def superseded_def finish_def all_set_def eval_nat_numeral)

theorem wait_returns_after_the_last_run_witness:
  "(''p'', 2) \<in> set (wk_log (th_worker served))"
proof -
  let ?b = "moved served 2 (Blocked ''p'' 0 2 None)"
  let ?w = "moved ?b 2 (Woken ''p'' 0 2 None)"
  have "tstep served Internal ?b" using tstep.Read [OF served_steps(2,3)] by (simp add: served_steps(4))
  with served_steps(1) have b: "treach ?b" by (blast intro: treach.step)
  have "tstep ?b Internal ?w" using served_steps(5) by (intro tstep.Wake) simp_all
  with b have w: "treach ?w" by (blast intro: treach.step)
  have "tstep ?w (Wait_Returns 2 ''p'') (moved ?w 2 (after_wait None))"
    using served_steps(4,5) by (intro tstep.Return) (simp_all add: still_last_def)
  from wait_returns_after_the_last_run [OF w this] served_steps(6) show ?thesis by simp
qed

theorem wait_all_returns_after_every_run_witness:
  "(''p'', 2) \<in> set (wk_log (th_worker (moved served 3 Entering_All)))"
proof -
  have "th_pcs served 3 = Outside"
    using loop_steps [OF worker_path_reached, of 6] by (simp add: served_def worker_path_def Let_def)
  then have "treach (moved served 3 Entering_All)" using served_steps(1) by (meson treach.step tstep.Wait_All)
  moreover have "tstep (moved served 3 Entering_All) (All_Returns 3) (moved (moved served 3 Entering_All) 3 Outside)"
    using served_steps(7) by (intro tstep.All_Idle) simp_all
  ultimately show ?thesis using wait_all_returns_after_every_run served_steps(6) by fastforce
qed

end
