(* ===== verification/Program_Logic.thy ===== *)
theory Program_Logic
  imports Prelude
begin

section \<open>A small logic of invariants for programs\<close>

text \<open>
  \<open>keeps I m\<close>: the program \<open>m\<close>, whether it returns or raises, leaves the invariant \<open>I\<close> as it found it. One rule per way
  the code composes its steps, so that an invariant is carried through a whole operation by \<open>intro\<close>.
\<close>

definition keeps :: "('s \<Rightarrow> bool) \<Rightarrow> ('s, 'a) prog \<Rightarrow> bool" where
  "keeps I m = (\<forall>s. I s \<longrightarrow> I (snd (m s)))"

lemma keepsI: "(\<And>s. I s \<Longrightarrow> I (snd (m s))) \<Longrightarrow> keeps I m"
  by (simp add: keeps_def)

lemma keepsD: "keeps I m \<Longrightarrow> I s \<Longrightarrow> I (snd (m s))"
  by (simp add: keeps_def)

lemma keeps_liftp [intro]: "keeps I (liftp r)"
  by (simp add: keeps_def)

lemma keeps_bindp_value:
  assumes "keeps I m" and "\<And>s x s'. I s \<Longrightarrow> m s = (Inr x, s') \<Longrightarrow> keeps I (k x)"
  shows "keeps I (bindp m k)"
proof (rule keepsI)
  fix s
  assume "I s"
  obtain r s' where m: "m s = (r, s')" by (cases "m s")
  with keepsD [OF assms(1) \<open>I s\<close>] have "I s'" by simp
  with m assms(2) [OF \<open>I s\<close>] show "I (snd (bindp m k s))"
    by (cases r) (auto simp: bindp_apply keeps_def)
qed

lemma keeps_bindp: "keeps I m \<Longrightarrow> (\<And>x. keeps I (k x)) \<Longrightarrow> keeps I (bindp m k)"
  by (rule keeps_bindp_value)

lemma keeps_bindp_lift: "(\<And>x. r = Inr x \<Longrightarrow> keeps I (k x)) \<Longrightarrow> keeps I (bindp (liftp r) k)"
  by (rule keeps_bindp_value) auto

lemma keeps_if: "(b \<Longrightarrow> keeps I m) \<Longrightarrow> (\<not> b \<Longrightarrow> keeps I n) \<Longrightarrow> keeps I (if b then m else n)"
  by simp

lemma keeps_then: "I s \<Longrightarrow> keeps I m \<Longrightarrow> I ((snd \<circ> m) s)"
  by (simp add: keeps_def)

lemma keeps_forp: "(\<And>x. x \<in> set xs \<Longrightarrow> keeps I (f x)) \<Longrightarrow> keeps I (forp f xs)"
proof (induction xs)
  case Nil
  show ?case by (simp add: keeps_def)
next
  case (Cons x xs)
  then have "keeps I (bindp (f x) (\<lambda>_. forp f xs))" by (intro keeps_bindp) simp_all
  then show ?case by (simp add: keeps_def)
qed

lemma keeps_bindp_after:
  assumes "keeps I m" and "\<And>s x s'. I s \<Longrightarrow> m s = (Inr x, s') \<Longrightarrow> I (snd (k x s'))"
  shows "keeps I (bindp m k)"
proof (rule keepsI)
  fix s
  assume "I s"
  obtain r s' where m: "m s = (r, s')" by (cases "m s")
  with keepsD [OF assms(1) \<open>I s\<close>] assms(2) [OF \<open>I s\<close>] show "I (snd (bindp m k s))"
    by (cases r) (auto simp: bindp_apply)
qed

lemma bindp_then_done: "bindp m (\<lambda>_. liftp (Inr ())) = m"
proof
  fix s
  show "bindp m (\<lambda>_. liftp (Inr ())) s = m s" by (cases "m s"; cases "fst (m s)") (auto simp: bindp_apply)
qed

lemma bindp_assoc: "bindp (bindp m f) g = bindp m (\<lambda>x. bindp (f x) g)"
proof
  fix s
  show "bindp (bindp m f) g s = bindp m (\<lambda>x. bindp (f x) g) s"
    by (cases "m s"; cases "fst (m s)") (auto simp: bindp_apply)
qed

lemma bindp_done: "bindp (liftp (Inr x)) k = k x"
  by (rule ext) simp

end
