(* ===== verification/Sessions.thy ===== *)
theory Sessions
  imports Finalisation Program_Logic
begin

section \<open>A session of the workspace: what holds whatever is done\<close>

text \<open>
  The operations of the workspace one after another, in any order and number, each with any outcome. A small
  logic of invariants for programs carries one invariant through all of them: every finding is well formed,
  every verdict is signed by an actor whose review is in the journal, every finalised process names the actor
  whose finalisation is in the journal. It needs from the store only that a row appears in it for a process
  that is saved (\<open>row_store\<close>), which both stores give.
\<close>

lemma keeps_bindp_readp: "(\<And>s x. I s \<Longrightarrow> f s = Inr x \<Longrightarrow> keeps I (k x)) \<Longrightarrow> keeps I (bindp (readp f) k)"
  by (rule keeps_bindp_value) (auto simp: keeps_def)

subsection \<open>The rows of a store\<close>

definition known :: "'s store_port \<Rightarrow> 's \<Rightarrow> string set" where
  "known port s = {pid. sp_load port s pid \<noteq> None}"

locale row_store =
  fixes port :: "'s store_port"
  assumes known_save: "known port (snd (sp_save port snap s)) \<subseteq> insert (sn_process_id snap) (known port s)"
    and known_finding: "known port (sp_save_finding port pid f s) = known port s"
    and known_replace: "known port (sp_replace_findings port pid fs s) = known port s"
    and known_audit: "known port (sp_save_audit port pid who act d s) = known port s"
    and known_evidence: "known port (snd (sp_save_evidence port pid gs s)) = known port s"
    and known_materialize: "known port (snd (sp_materialize port now snap payload s)) \<subseteq> insert (sn_process_id snap) (known port s)"

subsection \<open>The invariant\<close>

text \<open>A verdict is signed, and the review of its inspector is in the journal.\<close>

definition verdict_ok :: "audit_event list \<Rightarrow> finding \<Rightarrow> bool" where
  "verdict_ok events f \<longleftrightarrow>
     (finding_status f \<in> set HUMAN_ONLY_STATUSES \<longrightarrow>
       (\<exists>d p. inspector_decision f = Some d \<and> (inspector_id d, ''REVIEW'', p) \<in> set events))"

definition finding_ok :: "audit_event list \<Rightarrow> finding \<Rightarrow> bool" where
  "finding_ok events f \<longleftrightarrow> wf_finding f \<and> verdict_ok events f"

definition record_ok :: "(string \<Rightarrow> audit_event \<Rightarrow> bool) \<Rightarrow> string \<Rightarrow> process_record \<Rightarrow> bool" where
  "record_ok A pid r \<longleftrightarrow> pr_process_id r = pid \<and> (\<forall>e \<in> set (pr_journal r). A pid e) \<and>
     (\<forall>f \<in> set (dict_values (pr_findings r)). finding_ok (pr_journal r) f) \<and>
     (pr_state r = FINALIZED \<longrightarrow>
       (\<exists>who p. pr_finalized_by r = Some who \<and> (who, ''FINALIZE'', p) \<in> set (pr_journal r)))"

definition session_ok :: "(string \<Rightarrow> audit_event \<Rightarrow> bool) \<Rightarrow> 's store_port \<Rightarrow> 's workspace \<Rightarrow> bool" where
  "session_ok A port ws \<longleftrightarrow>
     (\<forall>pid r. dict_get (ws_items ws) pid = Some r \<longrightarrow> record_ok A pid r) \<and>
     known port (ws_store ws) \<subseteq> dom (dict_get (ws_items ws))"

lemma finding_ok_mono: "finding_ok es f \<Longrightarrow> set es \<subseteq> set es' \<Longrightarrow> finding_ok es' f"
  unfolding finding_ok_def verdict_ok_def by blast

lemma session_ok_record: "session_ok A port ws \<Longrightarrow> dict_get (ws_items ws) pid = Some r \<Longrightarrow> record_ok A pid r"
  by (simp add: session_ok_def)

lemma session_ok_put:
  assumes "session_ok A port ws" and "record_ok A pid r"
    and "known port s \<subseteq> insert pid (known port (ws_store ws))"
  shows "session_ok A port (ws\<lparr>ws_items := dict_set pid r (ws_items ws), ws_store := s\<rparr>)"
  using assms unfolding session_ok_def by (auto simp: dict_get_set)

lemma session_ok_store:
  assumes "session_ok A port ws" and "known port s \<subseteq> insert pid (known port (ws_store ws))"
    and "dict_get (ws_items ws) pid = Some r"
  shows "session_ok A port (ws\<lparr>ws_store := s\<rparr>)"
  using assms unfolding session_ok_def by auto

lemma session_ok_by:
  assumes "session_ok A port ws" and "dict_get (ws_items ws') = (dict_get (ws_items ws))(pid \<mapsto> r)" and "record_ok A pid r"
    and "known port (ws_store ws') \<subseteq> insert pid (known port (ws_store ws))"
  shows "session_ok A port ws'"
  using assms unfolding session_ok_def by auto

lemma change_change:
  "bindp (change pid f) (\<lambda>_. bindp (change pid g) k) = bindp (change pid (\<lambda>r. g (f r))) k"
proof
  fix ws
  show "bindp (change pid f) (\<lambda>_. bindp (change pid g) k) ws = bindp (change pid (\<lambda>r. g (f r))) k ws"
    by (cases "dict_get (ws_items ws) pid") (simp_all add: bindp_change, simp add: bindp_apply change_def)
qed

lemma record_ok_same:
  assumes "record_ok A pid r" and "pr_process_id r' = pr_process_id r" and "pr_findings r' = pr_findings r"
    and "set (pr_journal r) \<subseteq> set (pr_journal r')" and "\<And>e. e \<in> set (pr_journal r') \<Longrightarrow> e \<notin> set (pr_journal r) \<Longrightarrow> A pid e"
    and "pr_state r' = FINALIZED \<Longrightarrow> pr_state r = FINALIZED \<and> pr_finalized_by r' = pr_finalized_by r"
  shows "record_ok A pid r'"
proof -
  have "finding_ok (pr_journal r') f" if "f \<in> set (dict_values (pr_findings r'))" for f
    using that assms(1,3) by (intro finding_ok_mono [OF _ assms(4)]) (auto simp: record_ok_def)
  moreover have "\<exists>who p. pr_finalized_by r' = Some who \<and> (who, ''FINALIZE'', p) \<in> set (pr_journal r')" if "pr_state r' = FINALIZED"
    using assms(6) [OF that] assms(1,4) by (auto simp: record_ok_def)
  moreover have "A pid e" if "e \<in> set (pr_journal r')" for e
    using that assms(1,5) by (cases "e \<in> set (pr_journal r)") (auto simp: record_ok_def)
  ultimately show ?thesis using assms(1,2) by (simp add: record_ok_def)
qed

subsection \<open>Steps that keep it\<close>

lemma keeps_the_record:
  assumes "\<And>r. record_ok A pid r \<Longrightarrow> keeps (session_ok A port) (k r)"
  shows "keeps (session_ok A port) (bindp (the_record pid) k)"
  unfolding the_record_def
  by (rule keeps_bindp_readp) (auto intro: assms session_ok_record split: option.splits)

lemma keeps_change:
  assumes "\<And>r. record_ok A pid r \<Longrightarrow> record_ok A pid (f r)"
  shows "keeps (session_ok A port) (change pid f)"
proof (rule keepsI)
  fix ws
  assume ws: "session_ok A port ws"
  show "session_ok A port (snd (change pid f ws))"
  proof (cases "dict_get (ws_items ws) pid")
    case (Some r)
    from session_ok_put [OF ws assms [OF session_ok_record [OF ws Some]], of "ws_store ws"] Some
    show ?thesis by (simp add: change_def subset_insertI)
  qed (simp add: change_def ws)
qed

lemma keeps_change_same:
  assumes "\<And>r. pr_process_id (f r) = pr_process_id r" and "\<And>r. pr_findings (f r) = pr_findings r"
    and "\<And>r. pr_journal (f r) = pr_journal r" and "\<And>r. pr_state (f r) = pr_state r"
    and "\<And>r. pr_finalized_by (f r) = pr_finalized_by r"
  shows "keeps (session_ok A port) (change pid f)"
  by (rule keeps_change) (erule record_ok_same, simp_all add: assms)

lemma keeps_change_state:
  assumes "s \<noteq> FINALIZED"
  shows "keeps (session_ok A port) (change pid (\<lambda>r. r\<lparr>pr_state := s\<rparr>))"
  by (rule keeps_change) (erule record_ok_same, simp_all add: assms)

text \<open>
  The rules for the steps that write the journal hold for the events that \<open>A\<close> admits; it admits what the machine
  writes about its runs. A human's steps are admitted when \<open>may A acts who\<close> for the acts they write.
\<close>

definition may :: "(string \<Rightarrow> audit_event \<Rightarrow> bool) \<Rightarrow> string list \<Rightarrow> string \<Rightarrow> bool" where
  "may A acts who \<longleftrightarrow> (\<forall>pid. \<forall>act \<in> set acts. \<forall>p. A pid (who, act, p))"

definition MACHINE_ACTS :: "string list" where
  "MACHINE_ACTS = [''PIPELINE'', ''PIPELINE_FAILED'']"

definition REVIEW_ACTS :: "string list" where
  "REVIEW_ACTS = [''REVIEW'', ''START_VERIFICATION'']"

lemma mayD: "may A acts who \<Longrightarrow> act \<in> set acts \<Longrightarrow> A pid (who, act, p)"
  by (simp add: may_def)

locale session_rules = row_store port
  for port :: "'s store_port" +
  fixes A :: "string \<Rightarrow> audit_event \<Rightarrow> bool"
  assumes system_may: "may A MACHINE_ACTS ''system''"
begin

lemma machine_acts: "A pid (''system'', ''PIPELINE'', p)" "A pid (''system'', ''PIPELINE_FAILED'', p)"
  using mayD [OF system_may] by (simp_all add: MACHINE_ACTS_def)

lemma keeps_to_db:
  assumes "\<And>s. known port (f s) = known port s"
  shows "keeps (session_ok A port) (to_db f)"
  by (rule keepsI) (simp add: session_ok_def assms)

lemma keeps_persist: "keeps (session_ok A port) (persist port pid)"
proof (rule keepsI)
  fix ws
  assume ws: "session_ok A port ws"
  show "session_ok A port (snd (persist port pid ws))"
  proof (cases "dict_get (ws_items ws) pid")
    case None
    then show ?thesis by (simp add: persist_def bindp_apply ws)
  next
    case (Some r)
    then have id: "pr_process_id r = pid" using session_ok_record [OF ws Some] by (simp add: record_ok_def)
    show ?thesis
    proof (cases "snapshot_of r")
      case (Inl e)
      with Some show ?thesis by (simp add: persist_def bindp_the_record ws)
    next
      case (Inr snap)
      then have "sn_process_id snap = pid" using snapshot_of_fields id by auto
      with known_save [of snap "ws_store ws"] have "known port (snd (sp_save port snap (ws_store ws))) \<subseteq> insert pid (known port (ws_store ws))"
        by simp
      from session_ok_store [OF ws this Some] Inr Some show ?thesis
        by (cases "sp_save port snap (ws_store ws)") (simp add: persist_def bindp_the_record on_db_def)
    qed
  qed
qed

lemma keeps_record_audit:
  assumes "A pid (who, act, payload)"
  shows "keeps (session_ok A port) (record_audit port pid who act payload)"
proof -
  have "record_ok A pid r \<Longrightarrow> record_ok A pid (r\<lparr>pr_journal := pr_journal r @ [(who, act, payload)]\<rparr>)" for r
    by (rule record_ok_same) (use assms in auto)
  then show ?thesis
    unfolding record_audit_def
    by (auto intro!: keeps_the_record keeps_bindp keeps_change keeps_to_db simp: known_audit split: option.splits)
qed

lemma keeps_save_evidence: "keeps (session_ok A port) (save_evidence port pid)"
proof -
  have "keeps (session_ok A port) (on_db (sp_save_evidence port p gs))" for p gs
  proof (rule keepsI)
    fix ws
    assume "session_ok A port ws"
    then show "session_ok A port (snd (on_db (sp_save_evidence port p gs) ws))"
      using known_evidence [of p gs "ws_store ws"] by (auto simp: on_db_def session_ok_def split: prod.splits)
  qed
  then show ?thesis unfolding save_evidence_def by (intro keeps_bindp keeps_persist keeps_the_record)
qed

lemma keeps_object_put: "keeps (session_ok A port) (object_put pid fid content)"
  unfolding object_put_def
  by (intro keeps_bindp_lift keeps_bindp keeps_liftp) (auto intro!: keepsI simp: session_ok_def)

lemma keeps_keep_blob: "keeps (session_ok A port) (keep_blob port pid fid content)"
  unfolding keep_blob_def by (intro keeps_bindp keeps_object_put keeps_change_same keeps_persist) simp_all

lemma keeps_get_blob: "keeps (session_ok A port) (get_blob pid fid)"
proof -
  have "keeps (session_ok A port) (change pid (\<lambda>r. case l of None \<Rightarrow> r | Some b \<Rightarrow> r\<lparr>pr_blobs := dict_set fid b (pr_blobs r)\<rparr>))" for l
    by (rule keeps_change_same) (auto split: option.splits)
  then show ?thesis
    unfolding get_blob_def
    by (auto intro!: keeps_the_record keeps_bindp keeps_liftp keeps_bindp_readp split: option.splits)
qed

subsection \<open>Files and phases\<close>

lemma record_ok_new: "record_ok A pid (new_record git pid obj c sc)"
  by (simp add: record_ok_def new_record_def)

lemma keeps_create: "keeps (session_ok A port) (create_process st pid obj c)" if "st_port st = port"
proof -
  have "keeps (session_ok A port) (modp (\<lambda>ws. ws\<lparr>ws_items := dict_set pid (new_record git pid obj c sc) (ws_items ws)\<rparr>))" for git sc
  proof (rule keepsI)
    fix ws
    assume "session_ok A port ws"
    from session_ok_put [OF this record_ok_new, of "ws_store ws"]
    show "session_ok A port (snd (modp (\<lambda>ws. ws\<lparr>ws_items := dict_set pid (new_record git pid obj c sc) (ws_items ws)\<rparr>) ws))"
      by (simp add: subset_insertI)
  qed
  then show ?thesis
    unfolding create_process_def that by (intro keeps_bindp_lift keeps_bindp keeps_persist)
qed

lemma keeps_reopen: "keeps (session_ok A port) (reopen_for_upload pid)"
proof -
  have "keeps (session_ok A port) (change pid (\<lambda>r. r\<lparr>pr_state := t\<rparr>))" if "advance_process s PARSING = Inr t" for s t
    using that by (intro keeps_change_state) (auto simp: advance_process_Inr)
  then show ?thesis
    unfolding reopen_for_upload_def
    by (auto intro!: keeps_the_record keeps_bindp_lift keeps_liftp)
qed

lemma keeps_attach: "keeps (session_ok A port) (attach_file st pid item)" if "st_port st = port"
  unfolding attach_file_def that
  by (intro keeps_bindp keeps_bindp_lift keeps_the_record keeps_persist keeps_change_same keeps_liftp keeps_if) simp_all

lemma keeps_note_phase: "keeps (session_ok A port) (note_phase pid phase seconds)"
  unfolding note_phase_def by (intro keeps_bindp_lift keeps_change_same) simp_all

lemma keeps_merge_clocks: "keeps (session_ok A port) (merge_pipeline_clocks pid report)"
  unfolding merge_pipeline_clocks_def
  by (intro keeps_bindp_lift keeps_bindp keeps_the_record keeps_liftp keeps_change_same) simp_all

subsection \<open>What the machine adds\<close>

lemma machine_finding_ok: "wf_finding f \<Longrightarrow> finding_status f \<notin> set HUMAN_ONLY_STATUSES \<Longrightarrow> finding_ok es f"
  by (simp add: finding_ok_def verdict_ok_def)

lemma mk_finding_wf: "mk_finding f = Inr g \<Longrightarrow> wf_finding g \<and> g = f"
  by (simp add: mk_finding_Inr)

lemma carried_ok:
  assumes "finding_ok es previous" and "finding_ok es fresh" and "carry_inspector_decision previous fresh = Inr f"
  shows "finding_ok es f"
proof (cases "f = fresh")
  case False
  with assms(3) obtain d where d: "inspector_decision previous = Some d"
      "mk_finding (fresh\<lparr>finding_status := finding_status previous, inspector_decision := Some d\<rparr>) = Inr f"
      "finding_status previous \<in> {CONFIRMED_VIOLATION, NEGATIVE_VERIFIED}"
    by (auto simp: carry_inspector_decision_def split: option.splits if_splits)
  from mk_finding_wf [OF d(2)] d assms(1) show ?thesis
    by (auto simp: finding_ok_def verdict_ok_def HUMAN_ONLY_STATUSES_def)
qed (use assms in simp)

lemma record_ok_set_finding:
  assumes "record_ok A pid r" and "finding_ok (pr_journal r) f"
  shows "record_ok A pid (r\<lparr>pr_findings := dict_set key f (pr_findings r)\<rparr>)"
proof -
  have "finding_ok (pr_journal r) g" if "g \<in> set (dict_values (dict_set key f (pr_findings r)))" for g
    using that assms set_dict_values_set [of key f "pr_findings r"] unfolding record_ok_def by blast
  with assms(1) show ?thesis by (simp add: record_ok_def)
qed

lemma keeps_put_finding:
  assumes "wf_finding f" and "finding_status f \<notin> set HUMAN_ONLY_STATUSES"
  shows "keeps (session_ok A port) (put_finding port pid f)"
proof (rule keepsI)
  fix ws
  assume ws: "session_ok A port ws"
  show "session_ok A port (snd (put_finding port pid f ws))"
  proof (cases "dict_get (ws_items ws) pid")
    case None
    then show ?thesis by (simp add: put_finding_def bindp_apply ws)
  next
    case (Some r)
    have ok: "record_ok A pid r" by (rule session_ok_record [OF ws Some])
    let ?c = "case dict_get (pr_findings r) (finding_key f) of
         None \<Rightarrow> Inr f | Some previous \<Rightarrow> carry_inspector_decision previous f"
    show ?thesis
    proof (cases ?c)
      case (Inl e)
      with Some ws show ?thesis by (simp add: put_finding_def bindp_the_record)
    next
      case (Inr f')
      have "finding_ok (pr_journal r) f'"
      proof (cases "dict_get (pr_findings r) (finding_key f)")
        case None
        with Inr machine_finding_ok [OF assms] show ?thesis by simp
      next
        case (Some previous)
        with ok have "finding_ok (pr_journal r) previous"
          using dict_get_values [OF Some] unfolding record_ok_def by blast
        from carried_ok [OF this machine_finding_ok [OF assms]] Inr Some show ?thesis by simp
      qed
      from session_ok_put [OF ws record_ok_set_finding [OF ok this], of "sp_save_finding port pid f' (ws_store ws)"] Inr Some
      show ?thesis by (simp add: put_finding_def bindp_the_record bindp_change known_finding subset_insertI)
    qed
  qed
qed

lemma keeps_keep_expanded: "keeps (session_ok A port) (keep_expanded port pid report e)"
  unfolding keep_expanded_def
  by (intro keeps_bindp_lift keeps_bindp keeps_keep_blob keeps_change_same) simp_all

lemma run_matrix_machine:
  assumes "run_matrix st clocks r files approved = Inr report" and "f \<in> set (rp_findings report)"
  shows "wf_finding f" and "finding_status f \<notin> set HUMAN_ONLY_STATUSES"
proof -
  have run: "run_process_pipeline (st_policy st) (st_readers st) (st_matrix st) clocks (pr_object_id r)
      (pr_completeness r) files (pr_blobs r) approved = Some (Inr report)"
    using assms(1) by (simp add: run_matrix_def split: option.splits)
  from report_of_run [OF run] assms(2) show "wf_finding f" and "finding_status f \<notin> set HUMAN_ONLY_STATUSES" by blast+
qed

lemma keeps_run_matrix_pipeline:
  assumes "st_port st = port"
  shows "keeps (session_ok A port) (run_matrix_pipeline st clocks pid)"
proof -
  have adv: "advance_process s READY = Inr t \<Longrightarrow> t \<noteq> FINALIZED" for s t
    by (auto simp: advance_process_def split: if_splits)
  have ready: "keeps (session_ok A port) (if pr_state r = PARSING
                then bindp (liftp (advance_process (pr_state r) READY)) (\<lambda>s. change pid (\<lambda>r. r\<lparr>pr_state := s\<rparr>))
                else liftp (Inr ()))" for r
    using adv by (auto intro!: keeps_bindp_lift keeps_change_state keeps_liftp)
  show ?thesis
    unfolding run_matrix_pipeline_def Let_def assms
    by (intro keeps_the_record keeps_bindp_lift keeps_bindp keeps_forp keeps_keep_expanded keeps_put_finding
        keeps_save_evidence keeps_merge_clocks keeps_record_audit machine_acts keeps_persist keeps_liftp keeps_change_same ready)
      (simp_all add: run_matrix_machine)
qed

lemma keeps_run_scheduled:
  assumes "st_port st = port"
  shows "keeps (session_ok A port) (run_scheduled st clocks pid)"
proof (rule keepsI)
  fix ws
  assume ws: "session_ok A port ws"
  obtain q ws1 where run: "run_matrix_pipeline st clocks pid ws = (q, ws1)" by force
  with keepsD [OF keeps_run_matrix_pipeline [OF assms] ws] have ok: "session_ok A port ws1" by (metis snd_conv)
  have "session_ok A port (snd (bindp (record_audit port pid ''system'' ''PIPELINE_FAILED'' p) (\<lambda>_. liftp (Inl e)) ws1))"
    for p and e :: py_exc
    by (rule keepsD [OF keeps_bindp [OF keeps_record_audit [OF machine_acts(2)] keeps_liftp] ok])
  with ws ok run show "session_ok A port (snd (run_scheduled st clocks pid ws))"
    by (auto simp: run_scheduled_def assms split: option.splits sum.splits)
qed

subsection \<open>Decisions of the inspector\<close>

lemma record_audit_run:
  assumes "dict_get (ws_items ws) pid = Some r"
  shows "\<exists>s. record_audit port pid who act payload ws =
      (Inr (), ws\<lparr>ws_items := dict_set pid (r\<lparr>pr_journal := pr_journal r @ [(who, act, payload)]\<rparr>) (ws_items ws), ws_store := s\<rparr>) \<and>
    known port s = known port (ws_store ws)"
proof (cases "pr_bound r")
  case None
  then have "record_audit port pid who act payload ws =
      (Inr (), ws\<lparr>ws_items := dict_set pid (r\<lparr>pr_journal := pr_journal r @ [(who, act, payload)]\<rparr>) (ws_items ws)\<rparr>)"
    by (simp add: record_audit_def bindp_the_record [OF assms] bindp_change [OF assms])
  then show ?thesis by (intro exI [of _ "ws_store ws"]) (cases ws, simp)
next
  case (Some target)
  then show ?thesis by (auto simp: record_audit_def bindp_the_record [OF assms] bindp_change [OF assms] known_audit)
qed

text \<open>A finding and the review it comes from, written together.\<close>

lemma keeps_signed:
  assumes wf: "wf_finding f" and d: "inspector_decision f = Some d" "inspector_id d = who" and may: "may A REVIEW_ACTS who"
    and k: "keeps (session_ok A port) k"
  shows "keeps (session_ok A port)
    (bindp (change pid (\<lambda>r. r\<lparr>pr_findings := dict_set key f (pr_findings r)\<rparr>)) (\<lambda>_.
     bindp (to_db (sp_save_finding port pid f)) (\<lambda>_.
     bindp (record_audit port pid who ''REVIEW'' payload) (\<lambda>_. k))))"
proof (rule keepsI)
  fix ws
  assume ws: "session_ok A port ws"
  let ?run = "bindp (change pid (\<lambda>r. r\<lparr>pr_findings := dict_set key f (pr_findings r)\<rparr>)) (\<lambda>_.
     bindp (to_db (sp_save_finding port pid f)) (\<lambda>_.
     bindp (record_audit port pid who ''REVIEW'' payload) (\<lambda>_. k))) ws"
  show "session_ok A port (snd ?run)"
  proof (cases "dict_get (ws_items ws) pid")
    case None
    then have "snd ?run = ws\<lparr>ws_store := sp_save_finding port pid f (ws_store ws)\<rparr>"
      by (simp add: bindp_apply change_def record_audit_def)
    with ws show ?thesis by (simp add: session_ok_def known_finding)
  next
    case (Some r)
    let ?e = "(who, ''REVIEW'', payload)"
    let ?r1 = "r\<lparr>pr_findings := dict_set key f (pr_findings r)\<rparr>"
    let ?ws1 = "ws\<lparr>ws_items := dict_set pid ?r1 (ws_items ws), ws_store := sp_save_finding port pid f (ws_store ws)\<rparr>"
    have "dict_get (ws_items ?ws1) pid = Some ?r1" by simp
    from record_audit_run [OF this, of who "''REVIEW''" payload] obtain s where
      run: "record_audit port pid who ''REVIEW'' payload ?ws1 =
        (Inr (), ?ws1\<lparr>ws_items := dict_set pid (?r1\<lparr>pr_journal := pr_journal ?r1 @ [?e]\<rparr>) (ws_items ?ws1), ws_store := s\<rparr>)"
      and known: "known port s = known port (ws_store ?ws1)" by blast
    let ?ws2 = "?ws1\<lparr>ws_items := dict_set pid (?r1\<lparr>pr_journal := pr_journal ?r1 @ [?e]\<rparr>) (ws_items ?ws1), ws_store := s\<rparr>"
    have old: "record_ok A pid (r\<lparr>pr_journal := pr_journal r @ [?e]\<rparr>)"
      by (rule record_ok_same [OF session_ok_record [OF ws Some]]) (use may in \<open>auto simp: may_def REVIEW_ACTS_def\<close>)
    have "finding_ok (pr_journal r @ [?e]) f" using wf d by (auto simp: finding_ok_def verdict_ok_def)
    with record_ok_set_finding [OF old, of f key]
    have "record_ok A pid (r\<lparr>pr_journal := pr_journal r @ [?e], pr_findings := dict_set key f (pr_findings r)\<rparr>)" by simp
    moreover have "?r1\<lparr>pr_journal := pr_journal ?r1 @ [?e]\<rparr> =
        r\<lparr>pr_journal := pr_journal r @ [?e], pr_findings := dict_set key f (pr_findings r)\<rparr>" by (cases r) simp
    ultimately have ok: "record_ok A pid (?r1\<lparr>pr_journal := pr_journal ?r1 @ [?e]\<rparr>)" by (simp only:)
    have "dict_get (ws_items ?ws2) = (dict_get (ws_items ws))(pid \<mapsto> ?r1\<lparr>pr_journal := pr_journal ?r1 @ [?e]\<rparr>)"
      by (simp add: dict_get_set fun_upd_def)
    moreover have "known port (ws_store ?ws2) \<subseteq> insert pid (known port (ws_store ws))"
      using known by (simp add: known_finding subset_insertI)
    ultimately have "session_ok A port ?ws2" using session_ok_by [OF ws _ ok] by blast
    moreover have "?run = k ?ws2"
      by (simp add: bindp_change [OF Some] bindp_apply [of "record_audit _ _ _ _ _"] run)
    ultimately show ?thesis using keepsD [OF k] by simp
  qed
qed

lemma keeps_begin:
  assumes "may A acts (actor_id who)" and "''START_VERIFICATION'' \<in> set acts"
  shows "keeps (session_ok A port) (begin_verification port pid who)"
  unfolding begin_verification_def Review.start_verification_def bindp_assoc bindp_done
  by (intro keeps_the_record keeps_bindp_lift keeps_bindp keeps_record_audit mayD [OF assms] keeps_change_state keeps_persist)
    (auto simp: enter_verifying_def split: if_splits)

lemma keeps_complete:
  assumes "st_port st = port" and "may A [''COMPLETE_VERIFICATION''] (actor_id who)"
  shows "keeps (session_ok A port) (complete_process st pid who)"
  unfolding complete_process_def complete_verification_def assms(1) bindp_assoc bindp_done
  by (intro keeps_the_record keeps_bindp_lift keeps_bindp keeps_record_audit mayD [OF assms(2)] keeps_change_state keeps_persist)
    (auto simp: enter_completed_def split: if_splits)

lemma review_signs:
  assumes "review f who act why note now = Inr g"
  shows "wf_finding g \<and> (\<exists>d. inspector_decision g = Some d \<and> inspector_id d = actor_id who)"
  using assms by (auto simp: review_Inr decided_def)

lemma keeps_review:
  assumes port: "st_port st = port" and may: "may A REVIEW_ACTS (actor_id who)"
  shows "keeps (session_ok A port) (review_finding st now fid who act why note)"
proof -
  have starts: "keeps (session_ok A port) (begin_verification port p who)" for p
    by (rule keeps_begin [OF may]) (simp add: REVIEW_ACTS_def)
  have "keeps (session_ok A port) (case m of (pid, key, current) \<Rightarrow>
         bindp (the_record pid) (\<lambda>r.
         bindp (liftp (guard (pr_state r = FINALIZED) locked_error)) (\<lambda>_.
         bindp (liftp (review current who act why (Some note) now)) (\<lambda>updated.
         bindp (change pid (\<lambda>r. r\<lparr>pr_findings := dict_set key updated (pr_findings r)\<rparr>)) (\<lambda>_.
         bindp (to_db (sp_save_finding port pid updated)) (\<lambda>_.
         bindp (record_audit port pid (actor_id who) ''REVIEW''
             (JObj [(''finding_id'', JStr fid), (''action'', JStr act)])) (\<lambda>_.
         bindp (if pr_state r = READY then begin_verification port pid who else liftp (Inr ())) (\<lambda>_.
           liftp (Inr updated)))))))))" for m
  proof (cases m)
    case (fields pid key current)
    show ?thesis
      unfolding fields prod.case
      by (intro keeps_the_record keeps_bindp_lift, drule review_signs, elim conjE exE)
        (rule keeps_signed, (assumption | rule may | intro keeps_bindp keeps_if starts keeps_liftp)+)
  qed
  then show ?thesis
    unfolding review_finding_def Let_def port by (intro keeps_bindp_readp)
qed

lemma keeps_store_confirmed:
  assumes "wf_finding f" and "inspector_decision f = Some d" and "inspector_id d = actor_id who" and "may A REVIEW_ACTS (actor_id who)"
  shows "keeps (session_ok A port) (store_confirmed port pid who (key, f))"
  using keeps_signed [OF assms keeps_liftp, of pid key _ "Inr ()"]
  by (simp add: store_confirmed_def bindp_then_done)

lemma keeps_confirm:
  assumes port: "st_port st = port" and may: "may A REVIEW_ACTS (actor_id who)"
  shows "keeps (session_ok A port) (confirm_in_process st now pid fids who note)"
proof -
  have starts: "keeps (session_ok A port) (begin_verification port p who)" for p
    by (rule keeps_begin [OF may]) (simp add: REVIEW_ACTS_def)
  have signed: "wf_finding g \<and> (\<exists>d. inspector_decision g = Some d \<and> inspector_id d = actor_id who)"
    if "confirm_candidates fs who note now = Inr gs" "g \<in> set gs" for fs gs g
    using that review_signs by (fastforce simp: confirm_guards dest: traverse_bwd)
  have "keeps (session_ok A port) (forp (store_confirmed port pid who) (zip keys gs))"
    if "confirm_candidates fs who note now = Inr gs" for fs gs keys
    by (rule keeps_forp) (use signed [OF that] keeps_store_confirmed may in \<open>force dest: set_zip_rightD\<close>)
  then show ?thesis
    unfolding confirm_in_process_def Let_def port
    by (intro keeps_the_record keeps_bindp_lift keeps_bindp keeps_if starts keeps_liftp)
qed

subsection \<open>The end of a process\<close>

lemma finalize_process_run:
  assumes "dict_get (ws_items ws) pid = Some r"
  shows "(\<exists>e. finalize_process (pr_state r) who fs (record_audit port pid) ws = (Inl e, ws)) \<or>
    (\<exists>s. finalize_process (pr_state r) who fs (record_audit port pid) ws = (Inr FINALIZED,
        ws\<lparr>ws_items := dict_set pid (r\<lparr>pr_journal := pr_journal r @
          [(actor_id who, ''FINALIZE'', from_to COMPLETED FINALIZED)]\<rparr>) (ws_items ws), ws_store := s\<rparr>) \<and>
      known port s = known port (ws_store ws))"
proof (cases "is_human who \<and> fst (can_finalize fs) \<and> pr_state r = COMPLETED")
  case True
  with record_audit_run [OF assms, of "actor_id who" "''FINALIZE''" "from_to COMPLETED FINALIZED"] show ?thesis
    by (auto simp: finalize_process_def enter_finalized_def bindp_apply [of "record_audit _ _ _ _ _"])
next
  case False
  then show ?thesis by (auto simp: finalize_process_def enter_finalized_def guard_def)
qed

lemma plan_process: "finalize_plan st pid v r = Inr (i, payload, snap) \<Longrightarrow> sn_process_id snap = pr_process_id r"
  using snapshot_of_fields by (fastforce simp: finalize_plan_Inr)

lemma keeps_finalize:
  assumes port: "st_port st = port" and sec: "0 \<le> seconds" and may: "may A [''FINALIZE''] (actor_id who)"
  shows "keeps (session_ok A port) (finalize st now seconds pid who)"
proof (rule keepsI)
  fix ws
  assume ws: "session_ok A port ws"
  have not_unit: "x \<noteq> Inr () \<Longrightarrow> \<exists>e. x = Inl e" for x :: "unit result" by (cases x) simp_all
  have is_unit: "\<forall>e. x \<noteq> Inl e \<Longrightarrow> x = Inr ()" for x :: "unit result" by (cases x) simp_all
  show "session_ok A port (snd (finalize st now seconds pid who ws))"
  proof (cases "dict_get (ws_items ws) pid")
    case None
    with ws show ?thesis by (simp add: finalize_def bindp_apply)
  next
    case (Some r0)
    have ok: "record_ok A pid r0" by (rule session_ok_record [OF ws Some])
    obtain b wsb where body: "finalize_body st now seconds pid who ws = (b, wsb)" by force
    consider e where "finalize_process (pr_state r0) who (dict_values (pr_findings r0)) (record_audit port pid) ws = (Inl e, ws)"
      | s where "finalize_process (pr_state r0) who (dict_values (pr_findings r0)) (record_audit port pid) ws = (Inr FINALIZED,
          ws\<lparr>ws_items := dict_set pid (r0\<lparr>pr_journal := pr_journal r0 @
            [(actor_id who, ''FINALIZE'', from_to COMPLETED FINALIZED)]\<rparr>) (ws_items ws), ws_store := s\<rparr>)"
        "known port s = known port (ws_store ws)"
      using finalize_process_run [OF Some] by blast
    then show ?thesis
    proof cases
      case 1
      with body Some port have "b = Inl e" "wsb = ws"
        by (simp_all add: finalize_body_def Let_def bindp_the_record bindp_apply [of "finalize_process _ _ _ _"])
      moreover have "undo_finalize r0 r0 = r0" by (cases r0) (simp add: undo_finalize_def)
      ultimately have "snd (finalize st now seconds pid who ws) = ws\<lparr>ws_items := dict_set pid r0 (ws_items ws)\<rparr>"
        using body Some by (simp add: finalize_def bindp_the_record change_apply)
      then show ?thesis by (simp add: update_triv [OF Some] ws)
    next
      case 2
      let ?r1 = "r0\<lparr>pr_journal := pr_journal r0 @ [(actor_id who, ''FINALIZE'', from_to COMPLETED FINALIZED)]\<rparr>"
      let ?ws1 = "ws\<lparr>ws_items := dict_set pid ?r1 (ws_items ws), ws_store := s\<rparr>"
      let ?v = "sp_next_version port (ws_store ?ws1) (pr_object_id ?r1)"
      have r1: "dict_get (ws_items ?ws1) pid = Some ?r1" by simp
      obtain r2 where r2: "dict_get (ws_items wsb) = (dict_get (ws_items ?ws1))(pid \<mapsto> r2)"
        and plan: "case finalize_plan st pid ?v (signed who ?r1) of
          Inl e \<Rightarrow> b = Inl e \<and> r2 = (signed who ?r1)\<lparr>pr_protocol_id := pr_protocol_id r2\<rparr> \<and> ws_store wsb = ws_store ?ws1
        | Inr (i, payload, snap) \<Rightarrow>
           (case sp_materialize port now snap payload (ws_store ?ws1) of
              (Inl e, s') \<Rightarrow> b = Inl e \<and> r2 = (signed who ?r1)\<lparr>pr_protocol_id := pr_protocol_id r2\<rparr> \<and> ws_store wsb = s'
            | (Inr u, s') \<Rightarrow> b = Inr () \<and> ws_store wsb = s' \<and>
                r2 = (signed who ?r1)\<lparr>pr_protocol_id := Some i,
                  pr_phase_seconds := dict_set ''protocol'' seconds (pr_phase_seconds ?r1)\<rparr>)"
        using finalize_rest [OF r1 sec body Some, unfolded port, OF 2(1)] by auto
      have items: "dict_get (ws_items wsb) = (dict_get (ws_items ws))(pid \<mapsto> r2)"
        by (simp add: r2 dict_get_set fun_eq_iff)
      have store: "known port (ws_store wsb) \<subseteq> insert pid (known port (ws_store ws))"
      proof (cases "finalize_plan st pid ?v (signed who ?r1)")
        case (Inl e)
        with plan 2(2) show ?thesis by auto
      next
        case (Inr p)
        obtain i payload snap where p: "p = (i, payload, snap)" by (cases p)
        have "sn_process_id snap = pid" using plan_process [OF Inr [unfolded p]] ok by (simp add: signed_def record_ok_def)
        moreover obtain m s' where m: "sp_materialize port now snap payload (ws_store ?ws1) = (m, s')" by force
        then have "ws_store wsb = s'"
          using plan unfolding Inr p by (cases m) simp_all
        ultimately show ?thesis using known_materialize [of now snap payload s] m 2(2) by simp
      qed
      show ?thesis
      proof (cases b)
        case (Inl e)
        then have same: "r2 = (signed who ?r1)\<lparr>pr_protocol_id := pr_protocol_id r2\<rparr>"
          using plan by (auto split: sum.splits prod.splits dest!: not_unit)
        have "dict_get (ws_items wsb) pid = Some r2" by (simp add: items)
        then have "snd (finalize st now seconds pid who ws) = wsb\<lparr>ws_items := dict_set pid r0 (ws_items wsb)\<rparr>"
          using body Inl Some by (simp add: finalize_def bindp_the_record change_apply undo_signed [OF same])
        then show ?thesis
          by (intro session_ok_by [OF ws _ ok]) (simp_all add: store items dict_get_set fun_eq_iff)
      next
        case (Inr u)
        then obtain i where "r2 = (signed who ?r1)\<lparr>pr_protocol_id := Some i,
            pr_phase_seconds := dict_set ''protocol'' seconds (pr_phase_seconds ?r1)\<rparr>"
          using plan by (auto split: sum.splits prod.splits dest!: is_unit)
        moreover have "record_ok A pid ?r1"
          by (rule record_ok_same [OF ok]) (use may in \<open>auto simp: may_def\<close>)
        ultimately have "record_ok A pid r2" by (auto simp: record_ok_def signed_def)
        then have "session_ok A port wsb" by (rule session_ok_by [OF ws items _ store])
        then show ?thesis using body Inr Some by (simp add: finalize_def bindp_the_record)
      qed
    qed
  qed
qed

lemma keeps_unfinalize:
  assumes "st_port st = port" and "may A [''UNFINALIZE''] (actor_id who)"
  shows "keeps (session_ok A port) (unfinalize_protocol st pid who why)"
proof -
  have drop: "keeps (session_ok A port) (change pid (\<lambda>r. r\<lparr>pr_state := t, pr_finalized_by := None, pr_protocol_id := None\<rparr>))"
    if "t \<noteq> FINALIZED" for t
    by (rule keeps_change) (erule record_ok_same, simp_all add: that)
  show ?thesis
    unfolding unfinalize_protocol_def unfinalize_process_def assms(1) bindp_assoc bindp_done change_change
    by (intro keeps_the_record keeps_bindp_lift keeps_bindp keeps_record_audit mayD [OF assms(2)] keeps_persist drop)
      (auto simp: unfinalize_Inr)
qed

lemma keeps_request_sync:
  assumes "st_port st = port"
  shows "keeps (session_ok A port) (request_sync st pid)"
  unfolding request_sync_def assms
  by (intro keeps_the_record keeps_bindp_lift keeps_bindp keeps_if keeps_persist keeps_change_same) simp_all

lemma keeps_get_process:
  assumes "st_port st = port"
  shows "keeps (session_ok A port) (get_process st now pid)"
proof (rule keepsI)
  fix ws
  assume ws: "session_ok A port ws"
  show "session_ok A port (snd (get_process st now pid ws))"
  proof (cases "dict_get (ws_items ws) pid")
    case None
    then have "sp_load port (ws_store ws) pid = None" using ws by (auto simp: session_ok_def known_def)
    with None ws assms show ?thesis by (simp add: get_process_def)
  next
    case (Some r)
    with ws show ?thesis by (simp add: get_process_def)
  qed
qed

subsection \<open>Choosing the etalon\<close>

lemma fresh_findings:
  "f \<in> set (dict_values (fold (\<lambda>f. dict_set (finding_key f) f) fs d)) \<Longrightarrow> f \<in> set fs \<or> f \<in> set (dict_values d)"
proof (induction fs arbitrary: d)
  case (Cons x xs)
  then have "f \<in> set xs \<or> f \<in> set (dict_values (dict_set (finding_key x) x d))" by simp
  then show ?case using set_dict_values_set [of "finding_key x" x d] by fastforce
qed simp

lemma keeps_replace:
  assumes "\<And>f. f \<in> set fs \<Longrightarrow> wf_finding f \<and> finding_status f \<notin> set HUMAN_ONLY_STATUSES"
  shows "keeps (session_ok A port) (replace_machine_findings port pid fs)"
proof -
  have "record_ok A pid (r\<lparr>pr_findings := fold (\<lambda>f. dict_set (finding_key f) f) fs []\<rparr>)" if "record_ok A pid r" for r
  proof -
    have "finding_ok es f" if "f \<in> set (dict_values (fold (\<lambda>f. dict_set (finding_key f) f) fs []))" for f es
      using fresh_findings [OF that] assms machine_finding_ok by auto
    with that show ?thesis by (simp add: record_ok_def)
  qed
  then show ?thesis
    unfolding replace_machine_findings_def by (intro keeps_bindp keeps_change keeps_to_db known_replace)
qed

lemma keeps_select_revision:
  assumes "st_port st = port" and "may A [''SELECT_REVISION''] (actor_id who)"
  shows "keeps (session_ok A port) (select_revision st clocks pid file_id who note)"
  unfolding select_revision_def Let_def assms(1)
  by (intro keeps_the_record keeps_bindp_lift keeps_bindp keeps_get_blob keeps_record_audit mayD [OF assms(2)] machine_acts keeps_replace
      keeps_save_evidence keeps_merge_clocks keeps_persist keeps_change_same)
    (simp_all add: run_matrix_machine)

end

subsection \<open>Sessions\<close>

text \<open>One call of the workspace by the API or by its worker, with its arguments, clocks and outcome.\<close>

inductive operation :: "('s, 'p) settings \<Rightarrow> ('s workspace \<Rightarrow> 's workspace) \<Rightarrow> bool" for st where
  op_create: "operation st (snd \<circ> create_process st pid object_id completeness)"
| op_get: "operation st (snd \<circ> get_process st now pid)"
| op_reopen: "operation st (snd \<circ> reopen_for_upload pid)"
| op_attach: "operation st (snd \<circ> attach_file st pid item)"
| op_blob: "operation st (snd \<circ> keep_blob (st_port st) pid file_id content)"
| op_read: "operation st (snd \<circ> get_blob pid file_id)"
| op_phase: "operation st (snd \<circ> note_phase pid phase seconds)"
| op_audit: "operation st (snd \<circ> record_audit (st_port st) pid actor_name act payload)"
| op_run: "operation st (snd \<circ> run_scheduled st clocks pid)"
| op_review: "operation st (snd \<circ> review_finding st now fid who act why note)"
| op_confirm: "operation st (snd \<circ> confirm_in_process st moment pid fids who note)"
| op_select: "operation st (snd \<circ> select_revision st clocks pid file_id who note)"
| op_verify: "operation st (snd \<circ> start_process_verification st pid who)"
| op_complete: "operation st (snd \<circ> complete_process st pid who)"
| op_finalize: "0 \<le> seconds \<Longrightarrow> operation st (snd \<circ> finalize st now seconds pid who)"
| op_unfinalize: "operation st (snd \<circ> unfinalize_protocol st pid who why)"
| op_sync: "operation st (snd \<circ> request_sync st pid)"

inductive session :: "('s, 'p) settings \<Rightarrow> 's \<Rightarrow> 's workspace \<Rightarrow> bool" for st s0 where
  start: "session st s0 \<lparr>ws_items = [], ws_store = s0, ws_objects = objects\<rparr>"
| step: "session st s0 ws \<Longrightarrow> operation st f \<Longrightarrow> session st s0 (f ws)"

context session_rules
begin

lemma operation_keeps:
  assumes "operation st f" and "st_port st = port" and "session_ok A port ws" and may: "\<And>acts who. may A acts who"
  shows "session_ok A port (f ws)"
proof -
  note * = keeps_then [of "session_ok A port", OF assms(3)]
  note with_port = keeps_create keeps_get_process keeps_attach keeps_run_scheduled keeps_request_sync
  note with_actor = keeps_review keeps_confirm keeps_select_revision keeps_complete keeps_unfinalize
  note keep = with_port [OF assms(2)] with_actor [OF assms(2) may] keeps_reopen keeps_get_blob keeps_note_phase
  from assms(1) show ?thesis
  proof induction
    case (op_finalize seconds now pid who)
    from * [OF keeps_finalize [OF assms(2) this may]] show ?case .
  next
    case (op_verify pid who)
    from * [OF keeps_begin [OF may [where acts = REVIEW_ACTS]]] show ?case by (simp add: start_process_verification_def assms(2) REVIEW_ACTS_def)
  next
    case (op_blob pid file_id content)
    from * [OF keeps_keep_blob] show ?case by (simp only: assms(2))
  next
    case (op_audit pid actor_name act payload)
    have "A pid (actor_name, act, payload)" using may [of "[act]" actor_name] by (simp add: may_def)
    from * [OF keeps_record_audit [OF this]] show ?case by (simp only: assms(2))
  qed ((rule *, rule keep)+)
qed

lemma session_keeps:
  assumes "session st s0 ws" and "st_port st = port" and "known port s0 = {}" and "\<And>acts who. may A acts who"
  shows "session_ok A port ws"
  using assms(1)
proof induction
  case (start objects)
  then show ?case by (simp add: session_ok_def assms(3))
next
  case (step ws f)
  then show ?case using operation_keeps assms(2,4) by blast
qed

lemma session_finding:
  assumes "session st s0 ws" and "st_port st = port" and "known port s0 = {}" and "\<And>acts who. may A acts who"
    and "dict_get (ws_items ws) pid = Some r" and "f \<in> set (dict_values (pr_findings r))"
  shows "finding_ok (pr_journal r) f"
  using session_ok_record [OF session_keeps [OF assms(1-4)] assms(5)] assms(6) unfolding record_ok_def by blast

end

subsection \<open>Both stores have rows for saved processes only\<close>

lemma known_memory: "known (memory_port sha) ms = dom (dict_get (ms_rows ms))"
  by (auto simp: known_def memory_port_def memory_load_def)

lemma known_postgres: "known (postgres_port sha) pg = dom (dict_get (pg_processes pg))"
  by (auto simp: known_def postgres_port_def pg_load_def)

interpretation memory_rows: row_store "memory_port sha"
  for sha
proof unfold_locales
  show "known (memory_port sha) (snd (sp_save (memory_port sha) snap s)) \<subseteq> insert (sn_process_id snap) (known (memory_port sha) s)"
    for snap s
    unfolding known_memory by (cases "validate_snapshot snap") (auto simp: memory_port_def memory_save_def dict_get_set split: if_splits)
  show "known (memory_port sha) (snd (sp_materialize (memory_port sha) now snap payload s)) \<subseteq>
      insert (sn_process_id snap) (known (memory_port sha) s)" for now snap payload s
  proof -
    obtain r s' where m: "memory_materialize sha now snap payload s = (r, s')" by force
    then show ?thesis
      unfolding known_memory using memory_materialize_refused [of sha now snap payload s] memory_materialize_Inr [of sha now snap payload s]
      by (cases r) (fastforce simp: memory_port_def materialized_def dict_get_set split: if_splits)+
  qed
qed (unfold known_memory, auto simp: memory_port_def memory_save_finding_def memory_replace_findings_def memory_save_audit_def
      memory_save_evidence_def Let_def)

lemma pg_write_keys:
  assumes "pg_write_process snap pg = (r, pg')"
  shows "dom (dict_get (pg_processes pg')) \<subseteq> insert (sn_process_id snap) (dom (dict_get (pg_processes pg)))"
proof -
  let ?pg = "delete_files (sn_process_id snap) (upsert_process snap (ensure_object (sn_object_id snap) pg))"
  have "pg_processes pg' = pg_processes ?pg"
    by (rule forp_preserves [where I = "\<lambda>s. pg_processes s = pg_processes ?pg" and f = "insert_file (sn_process_id snap)"
        and xs = "sn_files snap" and s = ?pg])
      (use assms in \<open>auto simp: pg_write_process_def dest: insert_file_frame\<close>)
  then show ?thesis
    by (auto simp: delete_files_def upsert_process_def ensure_object_def Let_def dict_get_set split: if_splits option.splits)
qed

lemma pg_evidence_keys:
  assumes "pg_save_evidence pid gs pg = (r, pg')"
  shows "pg_processes pg' = pg_processes pg"
proof -
  obtain q s where m: "forp (pg_insert_evidence pid) gs
      (pg\<lparr>pg_evidence := filter (\<lambda>((p, g), _). p \<noteq> pid) (pg_evidence pg)\<rparr>) = (q, s)" by force
  have "pg_processes s = pg_processes pg"
    by (rule forp_preserves [where I = "\<lambda>s. pg_processes s = pg_processes pg", OF _ _ m])
      (auto simp: pg_insert_evidence_def split: if_splits)
  with assms m show ?thesis by (cases q) (auto simp: pg_save_evidence_def transaction_def)
qed

lemma pg_save_keys:
  assumes "pg_save snap pg = (r, pg')"
  shows "dom (dict_get (pg_processes pg')) \<subseteq> insert (sn_process_id snap) (dom (dict_get (pg_processes pg)))"
  using assms pg_write_keys [of snap pg]
  by (auto simp: pg_save_def transaction_def bindp_apply guard_def split: prod.splits sum.splits if_splits)

lemma pg_materialize_keys:
  assumes "pg_materialize tx sha now snap payload pg = (r, pg')"
  shows "dom (dict_get (pg_processes pg')) \<subseteq> insert (sn_process_id snap) (dom (dict_get (pg_processes pg)))"
proof (cases r)
  case (Inl e)
  with assms pg_materialize_refused show ?thesis by blast
next
  case (Inr u)
  from assms [unfolded Inr] obtain pid row encoded ins pg1 pg2 pg3 item where w: "insert_protocol pid row pg = (Inr ins, pg1)"
      "(if ins then liftp (Inr ()) else check_existing pid encoded) pg1 = (Inr (), pg2)"
      "pg_write_process snap pg2 = (Inr (), pg3)" "pg' = insert_outbox item pg3"
    unfolding pg_materialize_def bindp_lift_Inr guard_Inr_iff conflict_transaction_Inr bindp_Inr
    by (auto simp: modp_def)
  have "pg_processes pg2 = pg_processes pg"
    using w(1,2) by (auto simp: insert_protocol_def check_existing_def split: if_splits option.splits)
  with pg_write_keys [OF w(3)] show ?thesis by (auto simp: w(4) insert_outbox_def)
qed

interpretation postgres_rows: row_store "postgres_port sha"
  for sha
proof unfold_locales
  show "known (postgres_port sha) (snd (sp_save (postgres_port sha) snap s)) \<subseteq> insert (sn_process_id snap) (known (postgres_port sha) s)"
    for snap s
    unfolding known_postgres using pg_save_keys [of snap s] by (cases "pg_save snap s") (simp add: postgres_port_def)
  show "known (postgres_port sha) (snd (sp_materialize (postgres_port sha) now snap payload s)) \<subseteq>
      insert (sn_process_id snap) (known (postgres_port sha) s)" for now snap payload s
    unfolding known_postgres using pg_materialize_keys [of True sha now snap payload s]
    by (cases "pg_materialize True sha now snap payload s") (simp add: postgres_port_def)
  show "known (postgres_port sha) (snd (sp_save_evidence (postgres_port sha) pid gs s)) = known (postgres_port sha) s" for pid gs s
    unfolding known_postgres using pg_evidence_keys [of pid gs s]
    by (cases "pg_save_evidence pid gs s") (simp add: postgres_port_def)
qed (unfold known_postgres, auto simp: postgres_port_def pg_save_audit_def)

text \<open>A session admits the events of everybody.\<close>

abbreviation anybody :: "string \<Rightarrow> audit_event \<Rightarrow> bool" where
  "anybody \<equiv> \<lambda>_ _. True"

lemma anybody_may [simp]: "may anybody acts who"
  by (simp add: may_def)

interpretation memory_session: session_rules "memory_port sha" anybody
  for sha
  by unfold_locales simp

interpretation postgres_session: session_rules "postgres_port sha" anybody
  for sha
  by unfold_locales simp

subsection \<open>Properties\<close>

lemma memory_starts_empty: "known (memory_port sha) empty_store = {}"
  by (simp add: known_memory empty_store_def)

lemma postgres_starts_empty: "known (postgres_port sha) empty_database = {}"
  by (simp add: known_postgres empty_database_def)

text \<open>
  C9. Whatever is done in a session, in any order and with whatever outcome, every finding of every process
  is well formed: a status that needs evidence has its group, a confirmed violation has a decision CONFIRM
  with a comment, a rejected one a decision REJECT with a reason and a comment.
\<close>

theorem session_findings_are_well_formed:
  assumes "session st empty_store ws" and "st_port st = memory_port sha"
    and "dict_get (ws_items ws) pid = Some r" and "f \<in> set (dict_values (pr_findings r))"
  shows "wf_finding f"
  using memory_session.session_finding [OF assms(1,2) memory_starts_empty anybody_may assms(3,4)] by (simp add: finding_ok_def)


subsection \<open>A session at work: a process is created, run, and its suspicion confirmed\<close>

definition lone :: "process_record \<Rightarrow> 's \<Rightarrow> 's workspace" where
  "lone r s = \<lparr>ws_items = [(''p'', r)], ws_store = s, ws_objects = []\<rparr>"

lemma lone_simps [simp]:
  "ws_items (lone r s) = [(''p'', r)]" "ws_store (lone r s) = s"
  "change ''p'' f (lone r s) = (Inr (), lone (f r) s)"
  "bindp (change ''p'' f) k (lone r s) = k () (lone (f r) s)"
  "bindp (the_record ''p'') k' (lone r s) = k' r (lone r s)"
  "lone r s\<lparr>ws_store := s'\<rparr> = lone r s'"
  by (simp_all add: lone_def change_def bindp_apply)

definition storable :: "process_record \<Rightarrow> bool" where
  "storable r \<longleftrightarrow> pr_process_id r = ''p'' \<and> pr_object_id r = ''o'' \<and> pr_files r = [] \<and>
     pr_completeness r = [(PD, UPLOADED), (RD, UPLOADED), (ID, MISSING)] \<and> pr_state r \<noteq> FINALIZED \<and>
     0 \<le> pr_parse_attempts r \<and> pr_parse_attempts r \<le> 1 \<and> pr_sync_attempts r = 0 \<and> pr_sync_state r = NOT_REQUESTED"

definition demo_settings :: "'s store_port \<Rightarrow> ('s, unit) settings" where
  "demo_settings port = \<lparr>st_port = port, st_policy = None, st_readers = sample_readers,
     st_matrix = sample_matrix, st_catalog = [], st_rules = (\<lambda>_. None), st_shuffle = (\<lambda>x. x), st_sha = (\<lambda>_. ''d''),
     st_git_sha = ''g''\<rparr>"

definition accepts_saves :: "'s store_port \<Rightarrow> bool" where
  "accepts_saves port \<longleftrightarrow>
     (\<forall>snap s. validate_snapshot snap = Inr () \<and> sn_process_state snap \<noteq> FINALIZED \<and> sn_files snap = [] \<longrightarrow>
       (\<exists>s'. sp_save port snap s = (Inr (), s') \<and> (\<exists>s2. sp_save_evidence port (sn_process_id snap) [] s' = (Inr (), s2))))"

lemma persist_lone:
  assumes "accepts_saves port" and "storable r"
  shows "\<exists>s'. persist port ''p'' (lone r s) = (Inr (), lone r s') \<and>
    (\<exists>s2. sp_save_evidence port ''p'' [] s' = (Inr (), s2))"
proof -
  obtain snap where snap: "snapshot_of r = Inr snap" "validate_snapshot snap = Inr ()" "sn_process_state snap \<noteq> FINALIZED"
      "sn_files snap = []" "sn_process_id snap = ''p''"
    using assms(2) by (auto simp: storable_def snapshot_of_def completeness_of_def validate_snapshot_def MAX_PARSE_ATTEMPTS_def
        MAX_SYNC_ATTEMPTS_def blank_iff is_space_def)
  then obtain s' s2 where "sp_save port snap s = (Inr (), s')" "sp_save_evidence port ''p'' [] s' = (Inr (), s2)"
    using assms(1) unfolding accepts_saves_def by metis
  with snap(1) show ?thesis by (auto simp: persist_def on_db_def)
qed

definition demo_report :: pipeline_report where
  "demo_report = \<lparr>rp_findings = [suspicion\<lparr>finding_id := ''pipe-FS''\<rparr>], rp_rules_evaluated = 132, rp_parse_errors = [],
     rp_pages_built = 0, rp_stamps = [], rp_groups = [], rp_clean = [],
     rp_phase_seconds = [(''parse'', 0), (''compare'', 0)], rp_expanded = [], rp_expanded_blobs = []\<rparr>"

lemma demo_run:
  assumes "pr_blobs r = []"
  shows "run_matrix (demo_settings port) (0, 0) r [] [] = Inr demo_report"
proof -
  have t: "traverse (\<lambda>code. Inr ([], [])) (replicate n x) = Inr (replicate n ([], []))" for n x
    by (induction n) simp_all
  have c: "concat (replicate n []) = []" for n by (induction n) simp_all
  have "wf_finding (suspicion\<lparr>finding_id := ''pipe-FS''\<rparr>)"
    by (simp add: wf_finding_iff suspicion_def STATUSES_REQUIRING_EVIDENCE_def)
  then have "compare_pages sample_matrix obj comp [] [] [] = Inr ([suspicion\<lparr>finding_id := ''pipe-FS''\<rparr>], [])" for obj comp
    by (simp add: compare_pages_def sample_matrix_def run_codes_def t c numbered_id_def)
      (simp add: suspicion_def mk_finding_def wf_finding_def)
  moreover have "pages_from_blobs None sample_readers [] [] [] = Some (Inr ([], empty_build []))"
    by (simp add: pages_from_blobs_def stages_from_heads_def group_by_def empty_build_def bindo_def)
  moreover have "assert_machine_only [suspicion\<lparr>finding_id := ''pipe-FS''\<rparr>] = Inr ()"
    by (simp add: assert_machine_only_def HUMAN_ONLY_STATUSES_def suspicion_def)
  moreover have "length (mx_codes sample_matrix) = 132" by (simp add: sample_matrix_def)
  ultimately have "run_process_pipeline None sample_readers sample_matrix (0, 0) obj comp [] [] [] = Some (Inr demo_report)"
    for obj comp
    by (simp add: run_process_pipeline_def bindo_def empty_build_def EXPECTED_PARAM_COUNT_def demo_report_def count_built_pages_def)
  with assms show ?thesis by (simp add: run_matrix_def demo_settings_def)
qed

definition demo_new :: process_record where
  "demo_new = new_record ''g'' ''p'' ''o'' [(PD, UPLOADED), (RD, UPLOADED), (ID, MISSING)] PD_RD_ONLY"

lemma demo_created:
  assumes "accepts_saves port"
  shows "\<exists>s. session (demo_settings port) s0 (lone demo_new s)"
proof -
  let ?c = "[(PD, UPLOADED), (RD, UPLOADED), (ID, MISSING)]"
  let ?ws = "\<lparr>ws_items = [], ws_store = s0, ws_objects = []\<rparr>"
  have sc: "detect_scenario ?c False = Inr PD_RD_ONLY"
    by (auto simp: detect_scenario_def present_stages_def completeness_of_def Let_def)
  have "storable demo_new" by (simp add: storable_def demo_new_def new_record_def)
  from persist_lone [OF assms this, of s0] obtain s' where "persist port ''p'' (lone demo_new s0) = (Inr (), lone demo_new s')" by blast
  moreover have "lone demo_new s0 = ?ws\<lparr>ws_items := [(''p'', demo_new)]\<rparr>" by (simp add: lone_def)
  ultimately have "(snd \<circ> create_process (demo_settings port) ''p'' ''o'' ?c) ?ws = lone demo_new s'"
    by (simp add: create_process_def sc demo_settings_def demo_new_def)
  moreover have "session (demo_settings port) s0 ((snd \<circ> create_process (demo_settings port) ''p'' ''o'' ?c) ?ws)"
    by (rule session.step [OF session.start operation.op_create])
  ultimately show ?thesis by auto
qed

definition demo_ready :: process_record where
  "demo_ready = demo_new\<lparr>pr_findings := [(''g'', suspicion\<lparr>finding_id := ''pipe-FS''\<rparr>)], pr_parse_attempts := 1,
     pr_phase_seconds := [(''parse'', 0), (''compare'', 0)],
     pr_journal := [(''system'', ''PIPELINE'', pipeline_event demo_report [(''parse'', 0), (''compare'', 0)] [])],
     pr_state := READY\<rparr>"

lemma demo_ran:
  assumes "accepts_saves port" and "session (demo_settings port) s0 (lone demo_new s)"
  shows "\<exists>s'. session (demo_settings port) s0 (lone demo_ready s')"
proof -
  let ?f = "suspicion\<lparr>finding_id := ''pipe-FS''\<rparr>"
  let ?r1 = "demo_new\<lparr>pr_findings := [(''g'', ?f)]\<rparr>"
  have port: "st_port (demo_settings port) = port" by (simp add: demo_settings_def)
  have key: "finding_key ?f = ''g''" by (simp add: finding_key_def suspicion_def)
  have put: "put_finding port ''p'' ?f (lone demo_new s) = (Inr (), lone ?r1 (sp_save_finding port ''p'' ?f s))"
    by (simp add: put_finding_def key) (simp add: demo_new_def new_record_def)
  have "storable ?r1" by (simp add: storable_def demo_new_def new_record_def)
  from persist_lone [OF assms(1) this] obtain s1 s2 where p1: "persist port ''p'' (lone ?r1 (sp_save_finding port ''p'' ?f s)) = (Inr (), lone ?r1 s1)"
      "sp_save_evidence port ''p'' [] s1 = (Inr (), s2)" by blast
  have ev: "save_evidence port ''p'' (lone ?r1 (sp_save_finding port ''p'' ?f s)) = (Inr (), lone ?r1 s2)"
    by (simp add: save_evidence_def bindp_apply [of "persist _ _"] p1 on_db_def) (simp add: demo_new_def new_record_def p1)
  let ?s3 = "sp_save_audit port ''p'' ''system'' ''PIPELINE'' (pipeline_event demo_report [(''parse'', 0), (''compare'', 0)] []) s2"
  have "storable demo_ready" by (simp add: storable_def demo_ready_def demo_new_def new_record_def)
  from persist_lone [OF assms(1) this, of ?s3] obtain s4 where p2: "persist port ''p'' (lone demo_ready ?s3) = (Inr (), lone demo_ready s4)" by blast
  have shown: "public_phase_seconds [(''parse'', 0), (''compare'', 0)] = [(''parse'', 0), (''compare'', 0)]"
    by (simp add: public_phase_seconds_def PHASE_ORDER_def List.map_filter_def)
  have "run_matrix_pipeline (demo_settings port) (0, 0) ''p'' (lone demo_new s) = (Inr demo_report, lone demo_ready s4)"
  proof -
    have m: "run_matrix (demo_settings port) (0, 0) demo_new [] [] = Inr demo_report"
      by (rule demo_run) (simp add: demo_new_def new_record_def)
    have r: "pr_files demo_new = []" "pr_approved demo_new = []" "demo_new\<lparr>pr_manifest_hash := ''pending''\<rparr> = demo_new"
        "demo_new\<lparr>pr_files := []\<rparr> = demo_new" "?r1\<lparr>pr_groups := []\<rparr> = ?r1" "pr_bound demo_new = Some ''p''"
      by (simp_all add: demo_new_def new_record_def)
    have rep: "rp_expanded demo_report = []" "rp_findings demo_report = [?f]" "rp_groups demo_report = []"
        "stamp_files demo_report [] = []"
      by (simp_all add: demo_report_def stamp_files_def)
    have clocks: "merge_pipeline_clocks ''p'' demo_report (lone (?r1\<lparr>pr_parse_attempts := 1\<rparr>) s2) =
        (Inr [(''parse'', 0), (''compare'', 0)], lone (?r1\<lparr>pr_parse_attempts := 1, pr_phase_seconds := [(''parse'', 0), (''compare'', 0)]\<rparr>) s2)"
      by (simp add: merge_pipeline_clocks_def demo_report_def PIPELINE_PHASES_def shown demo_new_def new_record_def)
    let ?r2 = "?r1\<lparr>pr_parse_attempts := 1, pr_phase_seconds := [(''parse'', 0), (''compare'', 0)]\<rparr>"
    let ?e = "(''system'', ''PIPELINE'', pipeline_event demo_report [(''parse'', 0), (''compare'', 0)] [])"
    have audit: "record_audit port ''p'' ''system'' ''PIPELINE'' (pipeline_event demo_report [(''parse'', 0), (''compare'', 0)] []) (lone ?r2 s2) =
        (Inr (), lone (?r2\<lparr>pr_journal := [?e]\<rparr>) ?s3)"
      by (simp add: record_audit_def demo_new_def new_record_def)
    have st: "pr_state demo_new = PARSING" "pr_parse_attempts demo_new = 0" by (simp_all add: demo_new_def new_record_def)
    have ready: "?r2\<lparr>pr_journal := [?e], pr_state := READY\<rparr> = demo_ready" by (simp add: demo_ready_def)
    have adv: "advance_process PARSING READY = Inr READY" by (simp add: advance_process_Inr)
    show ?thesis
      unfolding run_matrix_pipeline_def Let_def
      by (simp add: m r rep manifest_hash_def port bindp_apply [of "forp _ _"] bindp_apply [of "put_finding _ _ _"] put groups_by_id_def
          bindp_apply [of "save_evidence _ _"] ev bindp_apply [of "merge_pipeline_clocks _ _"] clocks bindp_apply [of "record_audit _ _ _ _ _"] audit
          st adv bindp_assoc bindp_done bindp_apply [of "persist _ _"] ready p2)
  qed
  then have "(snd \<circ> run_scheduled (demo_settings port) (0, 0) ''p'') (lone demo_new s) = lone demo_ready s4"
    by (simp add: run_scheduled_def) (simp add: demo_new_def new_record_def)
  with session.step [OF assms(2) operation.op_run, of "(0, 0)" "''p''"] show ?thesis by metis
qed

definition demo_confirmed :: finding where
  "demo_confirmed = decided (suspicion\<lparr>finding_id := ''pipe-FS''\<rparr>) CONFIRMED_VIOLATION sample_inspector ''CONFIRM'' None ''seen'' 7"

lemma demo_reviewed:
  assumes "accepts_saves port" and "session (demo_settings port) s0 (lone demo_ready s)"
  shows "\<exists>r s'. session (demo_settings port) s0 (lone r s') \<and> pr_findings r = [(''g'', demo_confirmed)]"
proof -
  let ?f = "suspicion\<lparr>finding_id := ''pipe-FS''\<rparr>"
  have port: "st_port (demo_settings port) = port" by (simp add: demo_settings_def)
  have human: "is_human sample_inspector" by (simp add: sample_inspector_def)
  have fs: "pr_findings demo_ready = [(''g'', ?f)]" and st: "pr_state demo_ready = READY" and bound: "pr_bound demo_ready = Some ''p''"
    by (simp_all add: demo_ready_def demo_new_def new_record_def)
  have loc: "locate_finding [(''p'', demo_ready)] ''g'' (dict_get ACTION_TO_STATUS ''CONFIRM'') = Some (''p'', ''g'', ?f)"
    by (simp add: locate_finding_def finding_matches_def find_finding_def fs List.map_filter_def ACTION_TO_STATUS_def suspicion_def)
  have "truthy (evidence_group_id ?f)" by (simp add: suspicion_def)
  then have rev: "review ?f sample_inspector ''CONFIRM'' None (Some ''seen'') 7 = Inr demo_confirmed"
    unfolding review_Inr demo_confirmed_def
    by (auto intro!: decided_wf simp: ACTION_TO_STATUS_Some advance_finding_Inr suspicion_def sample_inspector_def blank_iff is_space_def)
  let ?e = "(actor_id sample_inspector, ''REVIEW'', JObj [(''finding_id'', JStr ''g''), (''action'', JStr ''CONFIRM'')])"
  let ?e2 = "(actor_id sample_inspector, ''START_VERIFICATION'', from_to READY VERIFYING)"
  let ?r1 = "demo_ready\<lparr>pr_findings := [(''g'', demo_confirmed)]\<rparr>"
  let ?r2 = "?r1\<lparr>pr_journal := pr_journal demo_ready @ [?e]\<rparr>"
  let ?r3 = "?r2\<lparr>pr_journal := pr_journal demo_ready @ [?e, ?e2], pr_state := VERIFYING\<rparr>"
  obtain s1 where audit: "record_audit port ''p'' (actor_id sample_inspector) ''REVIEW''
      (JObj [(''finding_id'', JStr ''g''), (''action'', JStr ''CONFIRM'')]) (lone ?r1 (sp_save_finding port ''p'' demo_confirmed s)) =
      (Inr (), lone ?r2 s1)"
    by (simp add: record_audit_def bound)
  have "storable ?r3" by (simp add: storable_def demo_ready_def demo_new_def new_record_def)
  from persist_lone [OF assms(1) this, of "sp_save_audit port ''p'' (actor_id sample_inspector) ''START_VERIFICATION'' (from_to READY VERIFYING) s1"]
  obtain s2 where p: "persist port ''p'' (lone ?r3
      (sp_save_audit port ''p'' (actor_id sample_inspector) ''START_VERIFICATION'' (from_to READY VERIFYING) s1)) = (Inr (), lone ?r3 s2)" by blast
  have "record_audit port ''p'' (actor_id sample_inspector) ''START_VERIFICATION'' (from_to READY VERIFYING) (lone ?r2 s1) =
      (Inr (), lone (?r2\<lparr>pr_journal := pr_journal demo_ready @ [?e, ?e2]\<rparr>)
        (sp_save_audit port ''p'' (actor_id sample_inspector) ''START_VERIFICATION'' (from_to READY VERIFYING) s1))"
    by (simp add: record_audit_def bound)
  then have begin_run: "begin_verification port ''p'' sample_inspector (lone ?r2 s1) = (Inr (), lone ?r3 s2)"
    unfolding begin_verification_def Review.start_verification_def bindp_assoc bindp_done
    by (simp add: enter_verifying_def st p [simplified]
        bindp_apply [of "record_audit _ _ _ _ _"] human)
  have "(snd \<circ> review_finding (demo_settings port) 7 ''g'' sample_inspector ''CONFIRM'' None ''seen'') (lone demo_ready s) = lone ?r3 s2"
    by (simp add: review_finding_def port loc rev st fs bindp_apply [of "record_audit _ _ _ _ _"] audit
        bindp_apply [of "begin_verification _ _ _"] begin_run)
  with session.step [OF assms(2) operation.op_review, of 7 "''g''" sample_inspector "''CONFIRM''" None "''seen''"]
  have "session (demo_settings port) s0 (lone ?r3 s2)" by metis
  moreover have "pr_findings ?r3 = [(''g'', demo_confirmed)]" by simp
  ultimately show ?thesis by blast
qed

lemma demo_session:
  assumes "accepts_saves port"
  shows "\<exists>r s. session (demo_settings port) s0 (lone r s) \<and> pr_findings r = [(''g'', demo_confirmed)]"
  using demo_created [OF assms] demo_ran [OF assms] demo_reviewed [OF assms] by blast

lemma memory_accepts_saves: "accepts_saves (memory_port sha)"
  by (auto simp: accepts_saves_def memory_port_def memory_save_def memory_save_evidence_def)

lemma postgres_accepts_saves: "accepts_saves (postgres_port sha)"
  by (auto simp: accepts_saves_def postgres_port_def pg_save_def pg_save_evidence_def transaction_def written_process files_ok_def)

theorem session_findings_are_well_formed_witness:
  "\<exists>ws r. session (demo_settings (memory_port (\<lambda>_. ''d''))) empty_store ws \<and> dict_get (ws_items ws) ''p'' = Some r \<and>
     pr_findings r = [(''g'', demo_confirmed)] \<and> wf_finding demo_confirmed"
proof -
  obtain r s where r: "session (demo_settings (memory_port (\<lambda>_. ''d''))) empty_store (lone r s)" "pr_findings r = [(''g'', demo_confirmed)]"
    using demo_session [OF memory_accepts_saves] by blast
  have "st_port (demo_settings (memory_port (\<lambda>_. ''d''))) = memory_port (\<lambda>_. ''d'')" by (simp add: demo_settings_def)
  from session_findings_are_well_formed [OF r(1) this, of "''p''" r demo_confirmed] r show ?thesis
    by (intro exI [of _ "lone r s"] exI [of _ r]) simp
qed


end
