(* ===== verification/Http_Auth.thy ===== *)
theory Http_Auth
  imports Json State_Machines
begin

section \<open>Who may call what (presentation/auth.py, presentation/rbac.py, infrastructure/access\_control.py)\<close>

text \<open>
  The bearer token of a request is read into a subject, its roles and its object; the matrix of rights
  says which roles an operation needs, and the object of the caller must be that of the process. The JWT
  library is an argument: it reads the header of a token, loads a PEM key, and decodes a token under a
  key to its verified claims or fails. The environment is the function \<open>os.environ.get\<close>.
\<close>

subsection \<open>Rights\<close>

datatype role = INSPECTOR | SUPERVISOR | ADMIN

fun role_value :: "role \<Rightarrow> string" where
  "role_value INSPECTOR = ''INSPECTOR''"
| "role_value SUPERVISOR = ''SUPERVISOR''"
| "role_value ADMIN = ''ADMIN''"

definition all_roles :: "role list" where
  "all_roles = [INSPECTOR, SUPERVISOR, ADMIN]"

definition parse_role :: "string \<Rightarrow> role option" where
  "parse_role s = find (\<lambda>r. role_value r = s) all_roles"

definition everyone :: "role list" where
  "everyone = [INSPECTOR, SUPERVISOR, ADMIN]"

definition deciders :: "role list" where
  "deciders = [INSPECTOR, SUPERVISOR]"

definition REQUIRED_ROLES :: "(string, role list) dict" where
  "REQUIRED_ROLES =
     [(''uploadDocuments'', deciders), (''getSystemCapabilities'', everyone), (''scoreEvaluation'', everyone),
      (''getProcessStatus'', everyone), (''loadDemoKit'', deciders), (''getProcessDocuments'', everyone),
      (''listProcessFindings'', everyone), (''getFilePagePng'', everyone), (''getProtocol'', everyone),
      (''getRevisionDiff'', everyone), (''getProtocolDocx'', everyone), (''getProtocolXml'', everyone),
      (''getProtocolPdf'', everyone), (''getAuditLog'', everyone), (''recordUiEvent'', everyone),
      (''getEvidenceCard'', everyone), (''reviewFinding'', deciders), (''confirmCandidates'', deciders),
      (''startVerification'', deciders), (''completeVerification'', deciders), (''finalizeProtocol'', deciders),
      (''unfinalizeProtocol'', everyone), (''selectRevision'', deciders), (''syncInspection'', everyone)]"

definition LEGAL_DECISION_OPERATIONS :: "string list" where
  "LEGAL_DECISION_OPERATIONS = [''reviewFinding'', ''confirmCandidates'', ''finalizeProtocol'', ''selectRevision'']"

definition roles_for :: "string \<Rightarrow> role list result" where
  "roles_for operation_id =
     (case dict_get REQUIRED_ROLES operation_id of
        None \<Rightarrow> raise ValueError ''operation is not in the matrix of rights'' [operation_id]
      | Some roles \<Rightarrow> Inr roles)"

text \<open>The granted roles, in the order of the enumeration.\<close>

definition authorize :: "string \<Rightarrow> string list \<Rightarrow> role list result" where
  "authorize operation_id presented =
     bindr (roles_for operation_id) (\<lambda>allowed.
       if presented = [] then raise AuthenticationRequiredError ''no role of the subject'' [operation_id]
       else let recognized = List.map_filter parse_role presented;
                granted = filter (\<lambda>r. r \<in> set allowed \<and> r \<in> set recognized) all_roles
            in if granted = [] then
                 raise PermissionDeniedError ''one of these roles is required'' (operation_id # sort (map role_value allowed))
               else Inr granted)"

definition check_object_access :: "string option \<Rightarrow> string option \<Rightarrow> unit result" where
  "check_object_access requested caller =
     (if requested \<noteq> None \<and> caller \<noteq> None \<and> requested = caller then Inr ()
      else raise AccessDeniedError ''access denied'' [])"

subsection \<open>Training tokens\<close>

record auth_context =
  ac_subject :: string
  ac_roles :: "string list"
  ac_object_id :: "string option"

definition NAME_CHARS :: string where
  "NAME_CHARS = ''ABCDEFGHIJKLMNOPQRSTUVWXYZabcdefghijklmnopqrstuvwxyz0123456789_-''"

definition ROLE_HEAD :: string where
  "ROLE_HEAD = ''ABCDEFGHIJKLMNOPQRSTUVWXYZ''"

definition ROLE_CHARS :: string where
  "ROLE_CHARS = ''ABCDEFGHIJKLMNOPQRSTUVWXYZ0123456789_''"

definition is_name :: "string \<Rightarrow> bool" where
  "is_name part = (part \<noteq> [] \<and> list_all (\<lambda>c. c \<in> set NAME_CHARS) part)"

definition is_role :: "string \<Rightarrow> bool" where
  "is_role part = (part \<noteq> [] \<and> hd part \<in> set ROLE_HEAD \<and> list_all (\<lambda>c. c \<in> set ROLE_CHARS) part)"

definition legacy_grammar :: "string \<Rightarrow> bool" where
  "legacy_grammar token =
     (case split1 (CHR ''/'') token of
        None \<Rightarrow> is_role token
      | Some (who_part, roles_part) \<Rightarrow>
          let names = split_on (CHR ''@'') who_part
          in length names \<le> 2 \<and> list_all is_name names \<and> list_all is_role (split_on (CHR '','') roles_part))"

definition auth_required :: "'a result" where
  "auth_required = raise AuthenticationRequiredError ''authentication required'' []"

definition legacy_context :: "string \<Rightarrow> auth_context result" where
  "legacy_context token =
     (if \<not> legacy_grammar token then auth_required
      else let (who_part, roles_part) = (case split1 (CHR ''/'') token of None \<Rightarrow> (token, token) | Some p \<Rightarrow> p);
               (subject, object_id) = (case split1 (CHR ''@'') who_part of
                   None \<Rightarrow> (who_part, None) | Some (s, obj) \<Rightarrow> (s, Some obj))
           in Inr \<lparr>ac_subject = subject, ac_roles = split_on (CHR '','') roles_part, ac_object_id = object_id\<rparr>)"

type_synonym environ = "string \<Rightarrow> string option"

definition is_true :: "string option \<Rightarrow> bool" where
  "is_true v = (case v of None \<Rightarrow> False | Some s \<Rightarrow> str_lower s = ''true'')"

definition INSECURE_AUTH_ENVS :: "string list" where
  "INSECURE_AUTH_ENVS = [''dev'', ''demo'']"

definition explicit_env :: "environ \<Rightarrow> string" where
  "explicit_env env = str_lower (strip (or_str (env ''KONTUR_ENV'') []))"

definition insecure_auth_permitted :: "environ \<Rightarrow> bool" where
  "insecure_auth_permitted env =
     (is_true (env ''KONTUR_ALLOW_INSECURE_DEV_AUTH'') \<and> explicit_env env \<in> set INSECURE_AUTH_ENVS)"

definition assert_insecure_auth_allowed :: "environ \<Rightarrow> unit result" where
  "assert_insecure_auth_allowed env =
     (if is_true (env ''KONTUR_ALLOW_INSECURE_DEV_AUTH'') \<and> \<not> insecure_auth_permitted env
      then raise RuntimeError ''KONTUR_ALLOW_INSECURE_DEV_AUTH=true is forbidden here'' [explicit_env env]
      else Inr ())"

subsection \<open>Signed tokens\<close>

datatype key_kind = RSA_Key | EC_P256_Key | Other_Key

datatype key_source = Pem string | Jwks string

text \<open>
  \<open>jw_alg\<close>: the \<open>alg\<close> of the unverified header (\<open>None\<close> when the token has no readable header);
  \<open>jw_key\<close>: the kind of a PEM key (\<open>None\<close> when it does not load); \<open>jw_decode source token algorithm issuer
  audience\<close>: the claims once signature, times, issuer, audience and the required claims are verified.
\<close>

record jwt_lib =
  jw_alg :: "string \<Rightarrow> string option option"
  jw_key :: "string \<Rightarrow> key_kind option"
  jw_decode :: "key_source \<Rightarrow> string \<Rightarrow> string \<Rightarrow> string \<Rightarrow> string \<Rightarrow> json option"

definition ALLOWED_ALGORITHMS :: "string list" where
  "ALLOWED_ALGORITHMS = [''RS256'', ''ES256'']"

definition key_fits :: "jwt_lib \<Rightarrow> string \<Rightarrow> string \<Rightarrow> bool" where
  "key_fits lib pem algorithm =
     (case jw_key lib pem of
        Some RSA_Key \<Rightarrow> algorithm = ''RS256''
      | Some EC_P256_Key \<Rightarrow> algorithm = ''ES256''
      | _ \<Rightarrow> False)"

text \<open>A finite number that is not a boolean; a JSON number of the model is finite.\<close>

definition numeric_date :: "json \<Rightarrow> string \<Rightarrow> bool" where
  "numeric_date claims key =
     (case jget claims key of Some (JInt _) \<Rightarrow> True | Some (JFloat _) \<Rightarrow> True | _ \<Rightarrow> False)"

text \<open>\<open>replace\<close> of a backslash and an n by a line break.\<close>

fun unescape_newlines :: "string \<Rightarrow> string" where
  "unescape_newlines (c # d # cs) =
     (if c = CHR 0x5C \<and> d = CHR ''n'' then CHR 0x0A # unescape_newlines cs else c # unescape_newlines (d # cs))"
| "unescape_newlines cs = cs"

definition env_or :: "environ \<Rightarrow> string \<Rightarrow> string \<Rightarrow> string" where
  "env_or env key d = (case env key of None \<Rightarrow> d | Some v \<Rightarrow> v)"

definition validated_claims :: "environ \<Rightarrow> jwt_lib \<Rightarrow> string \<Rightarrow> json result" where
  "validated_claims env lib token =
     (let algorithm = strip (env_or env ''KONTUR_JWT_ALGORITHM'' ''RS256'');
          issuer = strip (env_or env ''KONTUR_JWT_ISSUER'' []);
          audience = strip (env_or env ''KONTUR_JWT_AUDIENCE'' []);
          pem = strip (unescape_newlines (env_or env ''KONTUR_JWT_PUBLIC_KEY'' []));
          jwks = strip (env_or env ''KONTUR_JWKS_URL'' [])
      in if algorithm \<notin> set ALLOWED_ALGORITHMS \<or> issuer = [] \<or> audience = [] then auth_required
         else if pem = [] \<and> jwks = [] then auth_required
         else if jw_alg lib token \<noteq> Some (Some algorithm) then auth_required
         else if jwks = [] \<and> \<not> key_fits lib pem algorithm then auth_required
         else (case jw_decode lib (if jwks \<noteq> [] then Jwks jwks else Pem pem) token algorithm issuer audience of
             Some (JObj kvs) \<Rightarrow>
               if numeric_date (JObj kvs) ''exp'' \<and> numeric_date (JObj kvs) ''nbf'' then Inr (JObj kvs) else auth_required
           | _ \<Rightarrow> auth_required))"

fun named :: "json \<Rightarrow> bool" where
  "named (JStr s) = (\<not> blank s)"
| "named _ = False"

fun text_of :: "json \<Rightarrow> string" where
  "text_of (JStr s) = strip s"
| "text_of _ = []"

definition jwt_context :: "environ \<Rightarrow> jwt_lib \<Rightarrow> string \<Rightarrow> auth_context result" where
  "jwt_context env lib token =
     bindr (validated_claims env lib token) (\<lambda>claims.
       case jget claims ''sub'' of
         Some (JStr subject) \<Rightarrow>
           if blank subject then auth_required
           else (case jget claims ''roles'' of
               Some (JArr roles) \<Rightarrow>
                 if roles = [] \<or> \<not> list_all named roles then auth_required
                 else (case jget claims ''object_id'' of
                     None \<Rightarrow> Inr \<lparr>ac_subject = strip subject, ac_roles = map text_of roles, ac_object_id = None\<rparr>
                   | Some JNull \<Rightarrow> Inr \<lparr>ac_subject = strip subject, ac_roles = map text_of roles, ac_object_id = None\<rparr>
                   | Some obj \<Rightarrow> if \<not> named obj then auth_required
                       else Inr \<lparr>ac_subject = strip subject, ac_roles = map text_of roles, ac_object_id = Some (text_of obj)\<rparr>)
             | _ \<Rightarrow> auth_required)
       | _ \<Rightarrow> auth_required)"

definition bearer_token :: "string option \<Rightarrow> string option" where
  "bearer_token authorization =
     (case authorization of
        None \<Rightarrow> None
      | Some a \<Rightarrow>
          if \<not> starts_with (str_lower a) ''bearer '' then None
          else let token = strip (drop 7 a) in if token = [] then None else Some token)"

definition parse_bearer :: "environ \<Rightarrow> jwt_lib \<Rightarrow> string option \<Rightarrow> auth_context result" where
  "parse_bearer env lib authorization =
     (case bearer_token authorization of
        None \<Rightarrow> auth_required
      | Some token \<Rightarrow>
          if CHR ''.'' \<in> set token then jwt_context env lib token
          else if insecure_auth_permitted env then legacy_context token
          else auth_required)"

definition actor_from_roles :: "string \<Rightarrow> role list \<Rightarrow> actor" where
  "actor_from_roles subject roles = \<lparr>actor_id = subject, is_human = True, is_supervisor = SUPERVISOR \<in> set roles\<rparr>"

subsection \<open>What a granted request has\<close>

lemma auth_required_not_Inr [simp]: "auth_required \<noteq> Inr x" "Inr x \<noteq> auth_required"
  by (simp_all add: auth_required_def)

lemma recognized: "r \<in> set (List.map_filter parse_role ps) \<longleftrightarrow> (\<exists>p \<in> set ps. parse_role p = Some r)"
  by (induction ps) (auto simp: List.map_filter_def split: option.splits)

lemma authorize_Inr:
  assumes "authorize op presented = Inr granted"
  shows "\<exists>allowed. dict_get REQUIRED_ROLES op = Some allowed \<and> granted \<noteq> [] \<and>
    granted = filter (\<lambda>r. r \<in> set allowed \<and> (\<exists>p \<in> set presented. parse_role p = Some r)) all_roles"
proof (cases "dict_get REQUIRED_ROLES op")
  case None
  with assms show ?thesis by (simp add: authorize_def roles_for_def)
next
  case (Some allowed)
  with assms show ?thesis by (simp add: authorize_def roles_for_def Let_def recognized split: if_splits)
qed

text \<open>A value read through one pattern, every other value being refused.\<close>

lemma on_string:
  "(case x of Some (JStr s) \<Rightarrow> f s | _ \<Rightarrow> auth_required) = Inr y \<Longrightarrow> \<exists>s. x = Some (JStr s) \<and> f s = Inr y"
  by (cases x; cases "the x") simp_all

lemma on_array:
  "(case x of Some (JArr js) \<Rightarrow> f js | _ \<Rightarrow> auth_required) = Inr y \<Longrightarrow> \<exists>js. x = Some (JArr js) \<and> f js = Inr y"
  by (cases x; cases "the x") simp_all

lemma on_object:
  "(case x of Some (JObj kvs) \<Rightarrow> f kvs | _ \<Rightarrow> auth_required) = Inr y \<Longrightarrow> \<exists>kvs. x = Some (JObj kvs) \<and> f kvs = Inr y"
  by (cases x; cases "the x") simp_all

lemma legacy_context_Inr:
  assumes "legacy_context token = Inr ctx"
  shows "legacy_grammar token \<and> ac_subject ctx \<noteq> [] \<and> ac_roles ctx \<noteq> []"
proof -
  have g: "legacy_grammar token" using assms by (auto simp: legacy_context_def split: if_splits)
  have subject: "s \<noteq> []" if "list_all is_name (split_on (CHR ''@'') who_part)"
      "split1 (CHR ''@'') who_part = Some (s, obj) \<or> s = who_part" for who_part s obj
  proof (cases "split1 (CHR ''@'') who_part")
    case None
    then have "split_on (CHR ''@'') who_part = [who_part]" by (intro split_on_no_sep) (simp add: split1_None)
    with that None show ?thesis by (auto simp: is_name_def)
  next
    case (Some ab)
    then have p: "who_part = fst ab @ CHR ''@'' # snd ab" "CHR ''@'' \<notin> set (fst ab)"
      using split1_Some [of "CHR ''@''" who_part "fst ab" "snd ab"] by simp_all
    have "split_on (CHR ''@'') who_part = fst ab # split_on (CHR ''@'') (snd ab)"
      unfolding p(1) by (rule split_on_sep [OF p(2)])
    with that(1) have "fst ab \<noteq> []" by (simp add: is_name_def)
    with that(2) Some p(1) show ?thesis by auto
  qed
  have role: "is_role p \<Longrightarrow> p \<noteq> [] \<and> CHR ''@'' \<notin> set p" for p
    by (auto simp: is_role_def list_all_iff ROLE_CHARS_def)
  define parts where "parts = (case split1 (CHR ''/'') token of None \<Rightarrow> (token, token) | Some p \<Rightarrow> p)"
  define ids where "ids = (case split1 (CHR ''@'') (fst parts) of None \<Rightarrow> (fst parts, None) | Some (s, obj) \<Rightarrow> (s, Some obj))"
  have ctx: "ctx = \<lparr>ac_subject = fst ids, ac_roles = split_on (CHR '','') (snd parts), ac_object_id = snd ids\<rparr>"
    using assms g unfolding legacy_context_def Let_def ids_def parts_def split_beta by simp
  have "fst ids \<noteq> []"
  proof (cases "split1 (CHR ''/'') token")
    case None
    with g role [of token] have "token \<noteq> []" "CHR ''@'' \<notin> set token" by (simp_all add: legacy_grammar_def)
    with None show ?thesis by (simp add: ids_def parts_def split1_None [THEN iffD2])
  next
    case (Some p)
    with g have "list_all is_name (split_on (CHR ''@'') (fst p))" by (simp add: legacy_grammar_def Let_def split: prod.splits)
    note fit = subject [OF this]
    from Some show ?thesis
    proof (cases "split1 (CHR ''@'') (fst p)")
      case None
      with Some fit [of "fst p"] show ?thesis by (simp add: ids_def parts_def)
    next
      case (Some so)
      with \<open>split1 (CHR ''/'') token = Some p\<close> fit [of "fst so" "snd so"] show ?thesis
        by (simp add: ids_def parts_def split_beta)
    qed
  qed
  with g ctx show ?thesis by simp
qed

lemma validated_claims_Inr:
  assumes "validated_claims env lib token = Inr claims"
  shows "\<exists>source alg issuer audience. alg \<in> set ALLOWED_ALGORITHMS \<and> issuer \<noteq> [] \<and> audience \<noteq> [] \<and>
    jw_alg lib token = Some (Some alg) \<and> (\<forall>pem. source = Pem pem \<longrightarrow> key_fits lib pem alg) \<and>
    jw_decode lib source token alg issuer audience = Some claims"
proof -
  define alg issuer audience pem jwks where names:
    "alg = strip (env_or env ''KONTUR_JWT_ALGORITHM'' ''RS256'')" "issuer = strip (env_or env ''KONTUR_JWT_ISSUER'' [])"
    "audience = strip (env_or env ''KONTUR_JWT_AUDIENCE'' [])"
    "pem = strip (unescape_newlines (env_or env ''KONTUR_JWT_PUBLIC_KEY'' []))" "jwks = strip (env_or env ''KONTUR_JWKS_URL'' [])"
  let ?source = "if jwks \<noteq> [] then Jwks jwks else Pem pem"
  have "alg \<in> set ALLOWED_ALGORITHMS" "issuer \<noteq> []" "audience \<noteq> []" "jw_alg lib token = Some (Some alg)"
      "jwks = [] \<longrightarrow> key_fits lib pem alg"
    and d: "(case jw_decode lib ?source token alg issuer audience of
             Some (JObj kvs) \<Rightarrow>
               if numeric_date (JObj kvs) ''exp'' \<and> numeric_date (JObj kvs) ''nbf'' then Inr (JObj kvs) else auth_required
           | _ \<Rightarrow> auth_required) = Inr claims"
    using assms unfolding validated_claims_def Let_def names [symmetric] by (simp_all split: if_splits)
  moreover from on_object [OF d] have "jw_decode lib ?source token alg issuer audience = Some claims"
    by (auto split: if_splits)
  ultimately show ?thesis by (intro exI [of _ ?source] exI conjI) (assumption | simp split: if_splits)+
qed

lemma strip_text: "\<not> blank s \<Longrightarrow> strip s \<noteq> []"
  by (simp add: blank_def)

lemma jwt_context_Inr:
  assumes "jwt_context env lib token = Inr ctx"
  shows "\<exists>claims s. validated_claims env lib token = Inr claims \<and> jget claims ''sub'' = Some (JStr s) \<and> \<not> blank s \<and>
    ac_subject ctx = strip s \<and> ac_roles ctx \<noteq> []"
proof -
  from assms obtain claims where c: "validated_claims env lib token = Inr claims"
    unfolding jwt_context_def by (auto simp: bindr_eq_Inr)
  with assms obtain s where s: "jget claims ''sub'' = Some (JStr s)"
    unfolding jwt_context_def by (auto dest: on_string)
  with c assms have "\<not> blank s" by (simp add: jwt_context_def split: if_splits)
  with c s assms obtain roles where r: "jget claims ''roles'' = Some (JArr roles)"
    unfolding jwt_context_def by (auto dest: on_array)
  with c s \<open>\<not> blank s\<close> assms have "roles \<noteq> []" by (simp add: jwt_context_def split: if_splits)
  with c s r \<open>\<not> blank s\<close> assms have "ac_subject ctx = strip s \<and> ac_roles ctx \<noteq> []"
    by (auto simp: jwt_context_def split: if_splits option.splits json.splits)
  with c s \<open>\<not> blank s\<close> show ?thesis by blast
qed

subsection \<open>Properties\<close>


text \<open>
  C11. Rights are only what the matrix lists: a granted role is one the subject presented and the operation
  allows; an operation outside the matrix is refused to everybody; and the operations that make a legal
  decision are never granted to a subject that is not an inspector or a supervisor.
\<close>

theorem rights_are_only_what_is_listed:
  assumes "authorize op presented = Inr granted"
  shows "granted \<noteq> [] \<and> op \<in> set (dict_keys REQUIRED_ROLES) \<and>
    (\<forall>r \<in> set granted. role_value r \<in> set presented \<and> r \<in> set (the (dict_get REQUIRED_ROLES op))) \<and>
    (op \<in> set LEGAL_DECISION_OPERATIONS \<longrightarrow> ADMIN \<notin> set granted \<and> (INSPECTOR \<in> set granted \<or> SUPERVISOR \<in> set granted))"
proof -
  from assms obtain allowed where a: "dict_get REQUIRED_ROLES op = Some allowed" "granted \<noteq> []"
      "granted = filter (\<lambda>r. r \<in> set allowed \<and> (\<exists>p \<in> set presented. parse_role p = Some r)) all_roles"
    using authorize_Inr by blast
  have v: "parse_role p = Some r \<Longrightarrow> role_value r = p" for p r
    by (auto simp: parse_role_def all_roles_def split: if_splits)
  have key: "op \<in> set (dict_keys REQUIRED_ROLES)" using a(1) by (force dest: map_of_SomeD)
  have legal: "allowed = deciders" if "op \<in> set LEGAL_DECISION_OPERATIONS"
    using that a(1) by (auto simp: LEGAL_DECISION_OPERATIONS_def REQUIRED_ROLES_def)
  have "ADMIN \<notin> set granted" "INSPECTOR \<in> set granted \<or> SUPERVISOR \<in> set granted"
    if "op \<in> set LEGAL_DECISION_OPERATIONS"
  proof -
    have sub: "set granted \<subseteq> {INSPECTOR, SUPERVISOR}" unfolding a(3) legal [OF that] by (auto simp: deciders_def)
    then show "ADMIN \<notin> set granted" by auto
    from a(2) sub show "INSPECTOR \<in> set granted \<or> SUPERVISOR \<in> set granted" by (cases granted) auto
  qed
  moreover have "\<forall>r \<in> set granted. role_value r \<in> set presented \<and> r \<in> set (the (dict_get REQUIRED_ROLES op))"
    using v a(1) unfolding a(3) by auto
  ultimately show ?thesis using a(2) key by blast
qed

subsection \<open>A training token\<close>

definition training_env :: environ where
  "training_env = (\<lambda>k. dict_get [(''KONTUR_ENV'', ''demo''), (''KONTUR_ALLOW_INSECURE_DEV_AUTH'', ''true'')] k)"

definition no_jwt :: jwt_lib where
  "no_jwt = \<lparr>jw_alg = (\<lambda>_. None), jw_key = (\<lambda>_. None), jw_decode = (\<lambda>_ _ _ _ _. None)\<rparr>"

lemmas text_simps = str_lower_def lower_code_def odd_case_pairs_def char_of_def bit_0 strip_def is_space_def

lemma training_bearer:
  "bearer_token (Some ''Bearer insp@o/INSPECTOR,ADMIN'') = Some ''insp@o/INSPECTOR,ADMIN''"
  by (simp add: bearer_token_def text_simps)

lemma training_token:
  "parse_bearer training_env no_jwt (Some ''Bearer insp@o/INSPECTOR,ADMIN'') =
     Inr \<lparr>ac_subject = ''insp'', ac_roles = [''INSPECTOR'', ''ADMIN''], ac_object_id = Some ''o''\<rparr>"
proof -
  have "legacy_grammar ''insp@o/INSPECTOR,ADMIN''"
    by (simp add: legacy_grammar_def is_name_def is_role_def NAME_CHARS_def ROLE_CHARS_def ROLE_HEAD_def)
  moreover have "insecure_auth_permitted training_env"
    by (simp add: insecure_auth_permitted_def is_true_def training_env_def explicit_env_def INSECURE_AUTH_ENVS_def text_simps)
  ultimately show ?thesis by (simp add: parse_bearer_def training_bearer legacy_context_def)
qed


lemma inspector_may_finalise: "authorize ''finalizeProtocol'' [''INSPECTOR'', ''ADMIN''] = Inr [INSPECTOR]"
  by (simp add: authorize_def roles_for_def REQUIRED_ROLES_def deciders_def everyone_def all_roles_def parse_role_def
      Let_def List.map_filter_def)

theorem rights_are_only_what_is_listed_witness:
  "\<exists>granted. authorize ''finalizeProtocol'' [''INSPECTOR'', ''ADMIN''] = Inr granted \<and> ADMIN \<notin> set granted"
  using rights_are_only_what_is_listed [OF inspector_may_finalise] inspector_may_finalise
  by (simp add: LEGAL_DECISION_OPERATIONS_def)

end
