(* ===== verification/Document_Catalog.thy ===== *)
theory Document_Catalog
  imports Revision_Resolver Json
begin

section \<open>The documents of a process (application/document\_catalog.py)\<close>

text \<open>
  The rows of the screen of documents: which file of a cipher is current. What the first page of a PDF says
  (pdfium, the title block reader, the scan for injected text) is the argument \<open>read\<close>; it raises when the file
  cannot be read.
\<close>

record catalog_file =
  cat_file_id :: string
  cat_file_hash :: string
  cat_filename :: string
  cat_stage :: doc_stage
  cat_content :: string
  cat_predecessor :: "string option"
  cat_successor :: "string option"

text \<open>What is read from a title block.\<close>

record title_facts =
  tf_document_code :: "string option"
  tf_revision :: "string option"
  tf_approval_status :: approval_status
  tf_approval_basis :: approval_basis
  tf_discipline :: "string option"
  tf_sheet :: "string option"
  tf_revision_kind :: string

record catalog_row =
  cw_file_id :: string
  cw_filename :: string
  cw_stage :: doc_stage
  cw_section :: "string option"
  cw_cipher :: "string option"
  cw_revision :: "string option"
  cw_approval_status :: approval_status
  cw_approval_basis :: approval_basis
  cw_actuality :: string

definition stamp_ref ::
    "(catalog_file \<Rightarrow> title_facts result) \<Rightarrow> catalog_file \<Rightarrow> string list \<Rightarrow> (document_ref \<times> string option) result" where
  "stamp_ref read item inspector_ids =
     bindr (read item) (\<lambda>p.
       let (approval, basis) = approval_with_basis (tf_approval_status p) (tf_approval_basis p)
             (cat_file_id item \<in> set inspector_ids)
       in Inr (\<lparr>doc_file_id = cat_file_id item, doc_file_hash = cat_file_hash item, doc_stage = cat_stage item,
            document_code = or_str (tf_document_code p) [], revision = or_str (tf_revision p) [],
            approval_status = approval, approval_basis = basis, discipline = tf_discipline p,
            approval_date = None, sheet = tf_sheet p, predecessor_file_id = cat_predecessor item,
            successor_file_id = cat_successor item, source_name = cat_filename item,
            revision_kind = tf_revision_kind p\<rparr>, tf_discipline p))"

text \<open>
  The loop over the files: what was read, by file id, with the section; a file id that was read and one that
  failed. An exception other than a timeout or a \<open>ValueError\<close> ends it.
\<close>

fun read_all ::
    "(catalog_file \<Rightarrow> title_facts result) \<Rightarrow> string list \<Rightarrow> catalog_file list \<Rightarrow>
      (string, document_ref) dict \<times> (string, string option) dict \<times> string list \<Rightarrow>
      ((string, document_ref) dict \<times> (string, string option) dict \<times> string list) result" where
  "read_all read ids [] acc = Inr acc"
| "read_all read ids (item # items) (parsed, secs, failed) =
     (case stamp_ref read item ids of
        Inr (ref, sec) \<Rightarrow>
          read_all read ids items (dict_set (cat_file_id item) ref parsed, dict_set (cat_file_id item) sec secs, failed)
      | Inl e \<Rightarrow>
          if exc_cls e \<in> {PdfParseTimeoutError, ValueError}
          then read_all read ids items (parsed, dict_set (cat_file_id item) None secs, cat_file_id item # failed)
          else Inl e)"

text \<open>What the heads of the stages say: blocked ids, current ids, superseded ids, the document shown for an etalon.\<close>

record actuality =
  ay_blocked :: "string list"
  ay_current :: "string list"
  ay_superseded :: "string list"
  ay_shown :: "(string, document_ref) dict"

definition note_head :: "identity_head \<Rightarrow> actuality \<Rightarrow> actuality" where
  "note_head h a =
     (case (res_status (head_resolution h), resolved (head_resolution h)) of
        (RESOLVED, Some x) \<Rightarrow>
          let chosen = rr_document x
          in a\<lparr>ay_shown := dict_set (doc_file_id chosen) chosen (ay_shown a),
               ay_current := doc_file_id chosen # ay_current a,
               ay_superseded := filter (\<lambda>i. i \<noteq> doc_file_id chosen) (head_file_ids h) @ ay_superseded a\<rparr>
      | _ \<Rightarrow> a\<lparr>ay_blocked := head_file_ids h @ ay_blocked a\<rparr>)"

text \<open>The resolver always returns (\<open>every_document_has_a_head\<close>), so the first branch is never taken.\<close>

definition heads_of_stage :: "string option \<Rightarrow> document_ref list \<Rightarrow> string list \<Rightarrow> doc_stage \<Rightarrow> identity_head list result" where
  "heads_of_stage env refs ids stage =
     (let here = filter (\<lambda>d. doc_stage d = stage) refs
      in if here = [] then Inr []
         else case resolve_heads_by_identity env here stage ids of
             None \<Rightarrow> raise RuntimeError [] [] | Some r \<Rightarrow> r)"

definition actualities :: "string option \<Rightarrow> document_ref list \<Rightarrow> string list \<Rightarrow> actuality result" where
  "actualities env refs ids =
     bindr (traverse (heads_of_stage env refs ids) [PD, RD, ID]) (\<lambda>heads.
       Inr (fold note_head (concat heads) \<lparr>ay_blocked = [], ay_current = [], ay_superseded = [], ay_shown = []\<rparr>))"

definition none_if_blank :: "string \<Rightarrow> string option" where
  "none_if_blank s = (if s = [] then None else Some s)"

definition catalog_row_of ::
    "(string, document_ref) dict \<Rightarrow> (string, string option) dict \<Rightarrow> string list \<Rightarrow> actuality \<Rightarrow> catalog_file \<Rightarrow> catalog_row result" where
  "catalog_row_of parsed secs failed a item =
     (let fid = cat_file_id item;
          row = (\<lambda>sec cipher rev st basis act. \<lparr>cw_file_id = fid, cw_filename = cat_filename item, cw_stage = cat_stage item,
             cw_section = sec, cw_cipher = cipher, cw_revision = rev, cw_approval_status = st, cw_approval_basis = basis,
             cw_actuality = act\<rparr>)
      in if fid \<in> set failed then Inr (row None None None UNKNOWN UNPROVEN ''UNREADABLE'')
         else case dict_get parsed fid of
           None \<Rightarrow> raise KeyError [] [fid]
         | Some ref \<Rightarrow>
             let (shown, act) =
                (if fid \<in> set (ay_blocked a) then (Some ref, ''CLARIFICATION_REQUIRED'')
                 else if fid \<in> set (ay_current a) then (dict_get (ay_shown a) fid, ''CURRENT'')
                 else if fid \<in> set (ay_superseded a) then (Some ref, ''SUPERSEDED'')
                 else (Some ref, ''CLARIFICATION_REQUIRED''))
             in case shown of
                  None \<Rightarrow> raise KeyError [] [fid]
                | Some d \<Rightarrow> Inr (row (Option.bind (dict_get secs fid) id) (none_if_blank (document_code d))
                    (none_if_blank (revision d)) (approval_status d) (approval_basis d) act))"

definition build_document_catalog ::
    "string option \<Rightarrow> (catalog_file \<Rightarrow> title_facts result) \<Rightarrow> catalog_file list \<Rightarrow> string list \<Rightarrow> catalog_row list result" where
  "build_document_catalog env read items ids =
     bindr (read_all read ids items ([], [], [])) (\<lambda>(parsed, secs, failed).
     bindr (actualities env (dict_values parsed) ids) (\<lambda>a.
       traverse (catalog_row_of parsed secs failed a) items))"

definition catalog_json :: "catalog_row \<Rightarrow> json" where
  "catalog_json r = JObj
     [(''file_id'', JStr (cw_file_id r)), (''filename'', JStr (cw_filename r)),
      (''doc_stage'', JStr (doc_stage_value (cw_stage r))), (''section'', case cw_section r of None \<Rightarrow> JNull | Some s \<Rightarrow> JStr s),
      (''cipher'', case cw_cipher r of None \<Rightarrow> JNull | Some s \<Rightarrow> JStr s),
      (''revision'', case cw_revision r of None \<Rightarrow> JNull | Some s \<Rightarrow> JStr s),
      (''approval_status'', JStr (approval_status_value (cw_approval_status r))),
      (''approval_basis'', JStr (approval_basis_value (cw_approval_basis r))), (''actuality'', JStr (cw_actuality r))]"

end
