(* ===== verification/Http_Api.thy ===== *)
theory Http_Api
  imports Http_Auth Document_Catalog Runtime Program_Logic Intake Capabilities
begin

section \<open>The HTTP interface (presentation/api.py)\<close>

text \<open>
  A request is the operation with its path, its body and its Authorization header; serving it is a program over the
  workspace and the queue of scheduled runs. A handler that raises is answered by the exception handlers; a body
  that does not fit its pydantic model is refused before the handler. Requests are served one after another. The
  worker thread may run the head of the queue between two requests (\<open>background\<close>); a request that waits for a
  process lets the worker run up to the last run of that process. Downloads rendered as DOCX, PDF, XML and PNG, the
  evidence card, the scoring of an evaluation and the demo kit are not modelled.
\<close>

datatype response = Response (resp_status: nat) (resp_body: json)

text \<open>The status of an exception that leaves a handler.\<close>

fun status_of :: "exc_class \<Rightarrow> nat" where
  "status_of TransitionError = 409"
| "status_of ProtocolConflictError = 409"
| "status_of TransactionUnavailableError = 409"
| "status_of ProtocolMaterializationRequiredError = 409"
| "status_of AuthenticationRequiredError = 401"
| "status_of PermissionDeniedError = 403"
| "status_of AccessDeniedError = 403"
| "status_of EmptyPackageError = 400"
| "status_of _ = 500"

definition detail :: "nat \<Rightarrow> string \<Rightarrow> response" where
  "detail code t = Response code (JObj [(''detail'', JStr t)])"

text \<open>The state of the application, what it is configured with, and the occasion of a request: clocks and fresh ids.\<close>

record 's api =
  ap_ws :: "'s workspace"
  ap_queue :: "string list"

record ('s, 'p) server =
  sv_settings :: "('s, 'p) settings"
  sv_env :: environ
  sv_jwt :: jwt_lib
  sv_intake :: intake_env
  sv_titles :: "catalog_file \<Rightarrow> title_facts result"

record occasion =
  oc_now :: timestamp
  oc_moment :: "finding \<Rightarrow> timestamp"
  oc_process_id :: string
  oc_file_id :: "nat \<Rightarrow> string"
  oc_seconds :: rat
  oc_clocks :: "string \<Rightarrow> rat \<times> rat"

definition in_ws :: "('s workspace, 'a) prog \<Rightarrow> ('s api, 'a) prog" where
  "in_ws m s = (case m (ap_ws s) of (r, ws) \<Rightarrow> (r, s\<lparr>ap_ws := ws\<rparr>))"

text \<open>An exception without a handler is answered by the server itself.\<close>

definition failure :: "py_exc \<Rightarrow> response" where
  "failure e =
     (if status_of (exc_cls e) = 500 then Response 500 (JStr ''Internal Server Error'')
      else detail (status_of (exc_cls e)) (exc_text e))"

definition respond :: "('s api, response) prog \<Rightarrow> 's api \<Rightarrow> response \<times> 's api" where
  "respond m s = (case m s of
       (Inr r, s') \<Rightarrow> (r, s')
     | (Inl e, s') \<Rightarrow> (failure e, s'))"

definition reply :: "nat \<Rightarrow> json \<Rightarrow> ('s api, response) prog" where
  "reply code j = liftp (Inr (Response code j))"

definition refuse :: "nat \<Rightarrow> string \<Rightarrow> ('s api, response) prog" where
  "refuse code t = liftp (Inr (detail code t))"

subsection \<open>Scheduled runs\<close>

definition work :: "('s, 'p) server \<Rightarrow> occasion \<Rightarrow> string \<Rightarrow> 's workspace \<Rightarrow> 's workspace" where
  "work sv oc pid ws = snd (run_scheduled (sv_settings sv) (oc_clocks oc pid) pid ws)"

definition schedule :: "string \<Rightarrow> ('s api, unit) prog" where
  "schedule pid = modp (\<lambda>s. s\<lparr>ap_queue := filter (\<lambda>p. p \<noteq> pid) (ap_queue s) @ [pid]\<rparr>)"

definition background :: "('s, 'p) server \<Rightarrow> occasion \<Rightarrow> 's api \<Rightarrow> 's api" where
  "background sv oc s =
     (case ap_queue s of
        [] \<Rightarrow> s
      | pid # q \<Rightarrow> s\<lparr>ap_ws := work sv oc pid (ap_ws s), ap_queue := q\<rparr>)"

definition wait_for :: "('s, 'p) server \<Rightarrow> occasion \<Rightarrow> string \<Rightarrow> ('s api, unit) prog" where
  "wait_for sv oc pid = modp (\<lambda>s.
     if pid \<notin> set (ap_queue s) then s
     else s\<lparr>ap_ws := fold (work sv oc) (takeWhile (\<lambda>p. p \<noteq> pid) (ap_queue s) @ [pid]) (ap_ws s),
            ap_queue := tl (dropWhile (\<lambda>p. p \<noteq> pid) (ap_queue s))\<rparr>)"

definition wait_pipelines :: "('s, 'p) server \<Rightarrow> occasion \<Rightarrow> ('s api, unit) prog" where
  "wait_pipelines sv oc = modp (\<lambda>s. s\<lparr>ap_ws := fold (work sv oc) (ap_queue s) (ap_ws s), ap_queue := []\<rparr>)"

definition get_record :: "('s, 'p) server \<Rightarrow> occasion \<Rightarrow> string \<Rightarrow> ('s api, process_record option) prog" where
  "get_record sv oc pid =
     bindp (wait_for sv oc pid) (\<lambda>_. in_ws (get_process (sv_settings sv) (oc_now oc) pid))"

subsection \<open>Who asks, and for which object\<close>

definition require ::
    "('s, 'p) server \<Rightarrow> string \<Rightarrow> string option \<Rightarrow> (string \<times> role list \<times> string option) result" where
  "require sv operation_id authorization =
     bindr (parse_bearer (sv_env sv) (sv_jwt sv) authorization) (\<lambda>ctx.
     bindr (authorize operation_id (ac_roles ctx)) (\<lambda>granted.
       Inr (ac_subject ctx, granted, ac_object_id ctx)))"

definition check_scope :: "string \<Rightarrow> string option \<Rightarrow> unit result" where
  "check_scope requested_object_id caller = check_object_access (Some requested_object_id) caller"

definition record_for_access ::
    "('s, 'p) server \<Rightarrow> occasion \<Rightarrow> string \<Rightarrow> string option \<Rightarrow> ('s api, process_record option) prog" where
  "record_for_access sv oc pid caller =
     bindp (get_record sv oc pid) (\<lambda>found.
       case found of
         None \<Rightarrow> liftp (Inr None)
       | Some r \<Rightarrow> bindp (liftp (check_scope (pr_object_id r) caller)) (\<lambda>_. liftp (Inr (Some r))))"

definition not_found :: "('s api, response) prog" where
  "not_found = refuse 404 ''the process is not found''"

text \<open>The first lines of the handlers of a process: the rights, then the record, then its object.\<close>

definition on_process ::
    "('s, 'p) server \<Rightarrow> occasion \<Rightarrow> string \<Rightarrow> string option \<Rightarrow> string \<Rightarrow>
      (string \<Rightarrow> role list \<Rightarrow> process_record \<Rightarrow> ('s api, response) prog) \<Rightarrow> ('s api, response) prog" where
  "on_process sv oc operation_id authorization pid k =
     bindp (liftp (require sv operation_id authorization)) (\<lambda>(subject, granted, caller).
     bindp (record_for_access sv oc pid caller) (\<lambda>found.
       case found of None \<Rightarrow> not_found | Some r \<Rightarrow> k subject granted r))"

text \<open>The same for a decision, which names its inspector: the inspector must be the subject of the token.\<close>

definition by_inspector ::
    "('s, 'p) server \<Rightarrow> string \<Rightarrow> string option \<Rightarrow> string \<Rightarrow>
      (string \<Rightarrow> role list \<Rightarrow> string option \<Rightarrow> ('s api, response) prog) \<Rightarrow> ('s api, response) prog" where
  "by_inspector sv operation_id authorization inspector k =
     bindp (liftp (require sv operation_id authorization)) (\<lambda>(subject, granted, caller).
     bindp (liftp (guard (inspector \<noteq> subject)
         (Exc PermissionDeniedError ''inspector_id is not the subject of the token'' []))) (\<lambda>_.
       k subject granted caller))"

definition decide_on_process ::
    "('s, 'p) server \<Rightarrow> occasion \<Rightarrow> string \<Rightarrow> string option \<Rightarrow> string \<Rightarrow> string \<Rightarrow>
      (actor \<Rightarrow> process_record \<Rightarrow> ('s api, response) prog) \<Rightarrow> ('s api, response) prog" where
  "decide_on_process sv oc operation_id authorization inspector pid k =
     by_inspector sv operation_id authorization inspector (\<lambda>subject granted caller.
     bindp (record_for_access sv oc pid caller) (\<lambda>found.
       case found of None \<Rightarrow> not_found | Some r \<Rightarrow> k (actor_from_roles subject granted) r))"

text \<open>The record of a process as it is now, for the answer.\<close>

definition status_reply :: "string \<Rightarrow> ('s api, response) prog" where
  "status_reply pid =
     bindp (in_ws (the_record pid)) (\<lambda>r. bindp (liftp (to_status r)) (\<lambda>j. reply 200 j))"

subsection \<open>Reading\<close>

definition bucket_names :: "(string \<times> engine_bucket) list" where
  "bucket_names = [(''healthy'', Healthy), (''degraded'', DegradedB), (''measured'', MeasuredB), (''failed'', Failed),
     (''skipped'', Skipped)]"

fun cap_status_value :: "cap_status \<Rightarrow> string" where
  "cap_status_value AVAILABLE = ''AVAILABLE''"
| "cap_status_value CAP_DEGRADED = ''DEGRADED''"
| "cap_status_value MEASURED = ''MEASURED''"
| "cap_status_value UNAVAILABLE = ''UNAVAILABLE''"

text \<open>The text of the note is left out.\<close>

definition capabilities_payload :: "json result" where
  "capabilities_payload =
     bindr declared_capabilities (\<lambda>declared. bindr live_kit (\<lambda>live.
       Inr (JObj
         [(''overall'', JStr (cap_status_value (overall_kit_status live))), (''kit_blocked'', JBool (kit_blocked live)),
          (''engines'', JArr (map (\<lambda>c. JObj [(''name'', JStr (cap_name c)), (''status'', JStr (cap_status_value (cap_status c))),
             (''affects_verdict'', JBool (affects_verdict c))]) declared)),
          (''health'', JObj (map (\<lambda>(n, b). (n, JArr (map JStr (engine_health_summary declared b)))) bucket_names))])))"

definition system_capabilities :: "('s, 'p) server \<Rightarrow> string option \<Rightarrow> ('s api, response) prog" where
  "system_capabilities sv authorization =
     bindp (liftp (require sv ''getSystemCapabilities'' authorization)) (\<lambda>_.
     bindp (liftp capabilities_payload) (reply 200))"

definition get_status :: "('s, 'p) server \<Rightarrow> occasion \<Rightarrow> string option \<Rightarrow> string \<Rightarrow> ('s api, response) prog" where
  "get_status sv oc authorization pid =
     on_process sv oc ''getProcessStatus'' authorization pid (\<lambda>_ _ r.
       bindp (liftp (to_status r)) (reply 200))"

text \<open>The files whose body is there; the catalogue gets no links between revisions.\<close>

fun catalog_files :: "string \<Rightarrow> accepted_file list \<Rightarrow> ('s workspace, catalog_file list) prog" where
  "catalog_files pid [] = liftp (Inr [])"
| "catalog_files pid (f # fs) =
     bindp (get_blob pid (af_file_id f)) (\<lambda>body.
     bindp (catalog_files pid fs) (\<lambda>rest.
       liftp (Inr (case body of
           None \<Rightarrow> rest
         | Some b \<Rightarrow> \<lparr>cat_file_id = af_file_id f, cat_file_hash = af_file_hash f, cat_filename = af_filename f,
             cat_stage = af_stage f, cat_content = b, cat_predecessor = None, cat_successor = None\<rparr> # rest))))"

definition get_documents :: "('s, 'p) server \<Rightarrow> occasion \<Rightarrow> string option \<Rightarrow> string \<Rightarrow> ('s api, response) prog" where
  "get_documents sv oc authorization pid =
     on_process sv oc ''getProcessDocuments'' authorization pid (\<lambda>_ _ r.
       bindp (in_ws (catalog_files pid (pr_files r))) (\<lambda>items.
       bindp (liftp (build_document_catalog (st_policy (sv_settings sv)) (sv_titles sv) items (pr_approved r))) (\<lambda>rows.
         reply 200 (JObj [(''process_id'', JStr pid), (''documents'', JArr (map catalog_json rows))]))))"

definition opt_str :: "string option \<Rightarrow> json" where
  "opt_str v = (case v of None \<Rightarrow> JNull | Some s \<Rightarrow> JStr s)"

definition opt_scalar :: "py_scalar option \<Rightarrow> json" where
  "opt_scalar v = (case v of None \<Rightarrow> JNull | Some x \<Rightarrow> scalar_json x)"

definition rule_norms :: "(string \<Rightarrow> json option) \<Rightarrow> string \<Rightarrow> json list" where
  "rule_norms rules code =
     (case Option.bind (rules code) (\<lambda>rule. jget rule ''normative_refs'') of
        Some (JArr raw) \<Rightarrow> List.map_filter (\<lambda>ref.
          case jget ref ''identifier'' of
            Some (JStr i) \<Rightarrow> Some (JObj [(''identifier'', JStr i),
              (''clause'', case jget ref ''clause'' of Some (JStr c) \<Rightarrow> JStr c | _ \<Rightarrow> JNull)])
          | _ \<Rightarrow> None) raw
      | _ \<Rightarrow> [])"

definition finding_unit :: "process_record \<Rightarrow> string option \<Rightarrow> string option" where
  "finding_unit r gid =
     Option.bind (Option.bind gid (dict_get (pr_groups r))) (\<lambda>g.
     Option.bind (group_role g ACTUAL) (\<lambda>fr. ext_unit (extracted fr)))"

fun evidence_role_value :: "evidence_role \<Rightarrow> string" where
  "evidence_role_value EXPECTED = ''expected''"
| "evidence_role_value ACTUAL = ''actual''"
| "evidence_role_value CONTEXT = ''context''"

definition finding_places :: "process_record \<Rightarrow> string option \<Rightarrow> json" where
  "finding_places r gid =
     (case gid of
        None \<Rightarrow> JArr []
      | Some g \<Rightarrow> (case dict_get (pr_groups r) g of
            None \<Rightarrow> JNull
          | Some grp \<Rightarrow> JArr (map (\<lambda>fr. JObj [(''role'', JStr (evidence_role_value (frag_role fr))),
              (''file_id'', JStr (doc_file_id (frag_document fr))), (''page'', JInt (page fr))]) (fragments grp))))"

definition matrix_section :: "(string \<Rightarrow> json option) \<Rightarrow> string \<Rightarrow> string option" where
  "matrix_section rules code =
     (case Option.bind (rules code) (\<lambda>rule. jget rule ''section'') of
        Some (JStr s) \<Rightarrow> if blank s then None else Some (strip s)
      | _ \<Rightarrow> None)"

definition finding_row :: "(string \<Rightarrow> json option) \<Rightarrow> process_record \<Rightarrow> finding \<Rightarrow> json" where
  "finding_row rules r f = JObj
     [(''finding_id'', JStr (finding_id f)), (''rule_code'', JStr (rule_code f)),
      (''finding_status'', JStr (finding_status_value (finding_status f))),
      (''section'', opt_str (matrix_section rules (rule_code f))), (''rationale'', JStr (rationale f)),
      (''evidence_group_id'', opt_str (evidence_group_id f)), (''expected_value'', opt_scalar (expected_value f)),
      (''actual_value'', opt_scalar (actual_value f)), (''delta'', opt_scalar (delta f)),
      (''unit'', opt_str (finding_unit r (evidence_group_id f))),
      (''normative_refs'', JArr (rule_norms rules (rule_code f))),
      (''places'', finding_places r (evidence_group_id f))]"

definition list_findings :: "('s, 'p) server \<Rightarrow> occasion \<Rightarrow> string option \<Rightarrow> string \<Rightarrow> ('s api, response) prog" where
  "list_findings sv oc authorization pid =
     on_process sv oc ''listProcessFindings'' authorization pid (\<lambda>_ _ r.
       reply 200 (JObj [(''process_id'', JStr pid),
         (''findings'', JArr (map (finding_row (st_rules (sv_settings sv)) r) (dict_values (pr_findings r))))]))"

text \<open>\<open>x or y\<close> on what a store returns; an old row without the full protocol has the one sent out.\<close>

definition json_or :: "json option \<Rightarrow> json option \<Rightarrow> json option" where
  "json_or a b = (case a of Some j \<Rightarrow> if jtruthy j then Some j else b | None \<Rightarrow> b)"

definition load_full_protocol :: "'s store_port \<Rightarrow> 's \<Rightarrow> string \<Rightarrow> json option" where
  "load_full_protocol port s i = json_or (sp_full_protocol port s i) (sp_protocol port s i)"

definition load_full_protocol_version :: "'s store_port \<Rightarrow> 's \<Rightarrow> string \<Rightarrow> int \<Rightarrow> json option" where
  "load_full_protocol_version port s object_id v =
     json_or (sp_full_protocol_version port s object_id v) (sp_protocol_version port s object_id v)"

definition get_protocol ::
    "('s, 'p) server \<Rightarrow> occasion \<Rightarrow> string option \<Rightarrow> string \<Rightarrow> int option \<Rightarrow> ('s api, response) prog" where
  "get_protocol sv oc authorization pid v =
     (let st = sv_settings sv; port = st_port st
      in on_process sv oc ''getProtocol'' authorization pid (\<lambda>_ _ r.
         case v of
           Some n \<Rightarrow>
             if n < 1 then refuse 400 ''version must be >= 1''
             else bindp (in_ws (readp (\<lambda>ws. Inr (load_full_protocol_version port (ws_store ws) (pr_object_id r) n)))) (\<lambda>stored.
               case stored of None \<Rightarrow> refuse 404 ''no such version of the protocol'' | Some p \<Rightarrow> reply 200 (protocol_for_http p))
         | None \<Rightarrow>
             if protocol_status (pr_state r) = None then refuse 404 ''no protocol yet: PENDING/PARSING''
             else if pr_state r = FINALIZED then
               (case pr_protocol_id r of
                  None \<Rightarrow> refuse 409 ''a finalised process without protocol_id''
                | Some i \<Rightarrow> bindp (in_ws (readp (\<lambda>ws. Inr (load_full_protocol port (ws_store ws) i)))) (\<lambda>stored.
                    case stored of None \<Rightarrow> refuse 409 ''the protocol is not materialised'' | Some p \<Rightarrow> reply 200 (protocol_for_http p)))
             else
               bindp (liftp (assemble_payload st r (or_str (pr_protocol_id r) (pr_process_id r)) 1)) (\<lambda>payload.
               bindp (in_ws (note_phase pid ''protocol'' (oc_seconds oc))) (\<lambda>_.
                 reply 200 (protocol_for_http payload)))))"

definition ui_journal :: "audit_event list \<Rightarrow> json" where
  "ui_journal records = JObj [(''teaching_data'', JBool True),
     (''entries'', JArr (map (\<lambda>(who, act, payload). JObj
         [(''action'', JStr act), (''user_id'', JStr who),
          (''timestamp'', JStr (case jget payload ''client_ts'' of None \<Rightarrow> [] | Some v \<Rightarrow> if jtruthy v then py_str v else [])),
          (''object_id'', case jget payload ''object_id'' of None \<Rightarrow> JNull | Some v \<Rightarrow> v),
          (''details'', payload)])
       (filter (\<lambda>(who, act, payload). starts_with act ''UI_'') records)))]"

definition get_audit :: "('s, 'p) server \<Rightarrow> occasion \<Rightarrow> string option \<Rightarrow> string \<Rightarrow> ('s api, response) prog" where
  "get_audit sv oc authorization pid =
     on_process sv oc ''getAuditLog'' authorization pid (\<lambda>_ _ r.
       reply 200 (JObj [(''process_id'', JStr pid),
         (''events'', JArr (map (\<lambda>(who, act, payload).
            JObj [(''actor_id'', JStr who), (''action'', JStr act), (''payload'', payload)]) (pr_journal r))),
         (''ui_journal'', ui_journal (pr_journal r))]))"

definition get_revision_diff ::
    "('s, 'p) server \<Rightarrow> occasion \<Rightarrow> string option \<Rightarrow> string \<Rightarrow> string \<Rightarrow> ('s api, response) prog" where
  "get_revision_diff sv oc authorization pid file_id =
     on_process sv oc ''getRevisionDiff'' authorization pid (\<lambda>_ _ r.
       let groups = dict_values (pr_groups r); documents = documents_in groups
       in case dict_get documents file_id of
            None \<Rightarrow>
              if list_ex (\<lambda>f. af_file_id f = file_id) (pr_files r) then refuse 409 ''the file is in no evidence group''
              else refuse 404 ''the file is not found''
          | Some new \<Rightarrow>
              (case Option.bind (predecessor_file_id new) (dict_get documents) of
                 None \<Rightarrow> refuse 409 ''the revision has no recorded predecessor in the package''
               | Some old \<Rightarrow>
                   (case revision_diff_payload (st_shuffle (sv_settings sv)) groups old new of
                      Inl e \<Rightarrow> if exc_cls e = RevisionChainError then refuse 409 ''the revisions are no recorded pair''
                        else liftp (Inl e)
                    | Inr (JObj kvs) \<Rightarrow> reply 200 (JObj ((''process_id'', JStr pid) # kvs))
                    | Inr j \<Rightarrow> reply 200 j)))"

subsection \<open>Uploading\<close>

record upload_form =
  uf_object_id :: string
  uf_files :: "upload list"
  uf_process_id :: "string option"
  uf_stage :: "doc_stage option"
  uf_supersedes :: "string option"
  uf_content_length :: "int option"

definition empty_completeness :: completeness_map where
  "empty_completeness = [(PD, MISSING), (RD, MISSING), (ID, MISSING)]"

fun rejection_reason_value :: "rejection_reason \<Rightarrow> string" where
  "rejection_reason_value UNSUPPORTED_FORMAT = ''UNSUPPORTED_FORMAT''"
| "rejection_reason_value CORRUPTED_FILE = ''CORRUPTED_FILE''"
| "rejection_reason_value FILE_TOO_LARGE = ''FILE_TOO_LARGE''"
| "rejection_reason_value BATCH_LIMIT_EXCEEDED = ''BATCH_LIMIT_EXCEEDED''"
| "rejection_reason_value ANTIVIRUS_REJECTED = ''ANTIVIRUS_REJECTED''"
| "rejection_reason_value ENCRYPTED_FILE = ''ENCRYPTED_FILE''"
| "rejection_reason_value PROCESSING_TIMEOUT = ''PROCESSING_TIMEOUT''"
| "rejection_reason_value UNSAFE_FILENAME = ''UNSAFE_FILENAME''"

definition rejection_body :: "rejection \<Rightarrow> json" where
  "rejection_body r = JObj [(''file_name'', JStr (rej_filename r)), (''reason_code'', JStr (rejection_reason_value (rej_reason r))),
     (''message'', JStr (rej_detail r))]"

definition new_upload :: "string \<Rightarrow> string \<Rightarrow> string option \<Rightarrow> doc_stage \<Rightarrow> upload_candidate \<Rightarrow> accepted_file" where
  "new_upload fid digest prior stage c =
     \<lparr>af_file_id = fid, af_file_hash = digest, af_filename = up_filename c, af_stage = stage, af_size_bytes = up_size_bytes c,
      af_stamp = UNKNOWN, af_predecessor = prior, af_successor = None, af_section = None, af_path = None,
      af_file_path = None, af_declared = None\<rparr>"

text \<open>\<open>prior.successor_file_id = ...\<close>: the file that is superseded is an object of the list of the record.\<close>

definition link_prior :: "string \<Rightarrow> string option \<Rightarrow> string option \<Rightarrow> ('s workspace, unit) prog" where
  "link_prior pid prior successor =
     (case prior of
        None \<Rightarrow> liftp (Inr ())
      | Some p \<Rightarrow> change pid (\<lambda>r. r\<lparr>pr_files := update_first (\<lambda>f. af_file_id f = p)
          (\<lambda>f. f\<lparr>af_successor := successor\<rparr>) (pr_files r)\<rparr>))"

fun attach_each ::
    "('s, 'p) settings \<Rightarrow> (nat \<Rightarrow> string) \<Rightarrow> string \<Rightarrow> doc_stage \<Rightarrow> string option \<Rightarrow> (string, bytes) dict \<Rightarrow> nat \<Rightarrow>
      upload_candidate list \<Rightarrow> ('s workspace, (string \<times> string) list) prog" where
  "attach_each st fresh pid stage prior bodies i [] = liftp (Inr [])"
| "attach_each st fresh pid stage prior bodies i (c # cs) =
     bindp (liftp (case up_content_hash c of None \<Rightarrow> raise RuntimeError ''an accepted file has a SHA-256'' [] | Some h \<Rightarrow> Inr h)) (\<lambda>digest.
     bindp (link_prior pid prior (Some (fresh i))) (\<lambda>_.
     bindp (attach_file st pid (new_upload (fresh i) digest prior stage c)) (\<lambda>attached.
       if attached then
         bindp (liftp (case dict_get bodies digest of None \<Rightarrow> raise KeyError [] [digest] | Some b \<Rightarrow> Inr b)) (\<lambda>body.
         bindp (keep_blob (st_port st) pid (fresh i) body) (\<lambda>_.
         bindp (attach_each st fresh pid stage prior bodies (Suc i) cs) (\<lambda>rest.
           liftp (Inr ((fresh i, digest) # rest)))))
       else
         bindp (link_prior pid prior None) (\<lambda>_. attach_each st fresh pid stage prior bodies (Suc i) cs))))"

definition attach_new_files ::
    "('s, 'p) settings \<Rightarrow> (nat \<Rightarrow> string) \<Rightarrow> string \<Rightarrow> upload_candidate list \<Rightarrow> (string, bytes) dict \<Rightarrow> doc_stage \<Rightarrow>
      string \<Rightarrow> ('s workspace, (string \<times> string) list) prog" where
  "attach_new_files st fresh pid cs bodies stage supersedes =
     bindp (the_record pid) (\<lambda>r.
       let prior = (if supersedes = [] then None
                    else map_option af_file_id (find (\<lambda>f. af_file_id f = supersedes) (pr_files r)))
       in attach_each st fresh pid stage prior bodies 0 cs)"

definition upload_receipt :: "string \<Rightarrow> (string \<times> string) list \<Rightarrow> rejection list \<Rightarrow> ('s api, response) prog" where
  "upload_receipt pid attached rejects = reply 202 (JObj
     [(''process_id'', JStr pid),
      (''accepted'', JArr (map (\<lambda>(i, h). JObj [(''file_id'', JStr i), (''file_hash'', JStr h)]) attached)),
      (''rejected'', JArr (map rejection_body rejects))])"

text \<open>\<open>max(..., key=...)\<close>: the first one of the greatest status.\<close>

fun worst :: "rejection \<Rightarrow> rejection list \<Rightarrow> rejection" where
  "worst w [] = w"
| "worst w (r # rs) = worst (if HTTP_STATUS (rej_reason r) > HTTP_STATUS (rej_reason w) then r else w) rs"

definition upload_error :: "nat \<Rightarrow> string \<Rightarrow> string \<Rightarrow> ('s api, response) prog" where
  "upload_error code reason message =
     reply code (JObj [(''file_name'', JStr ''*''), (''reason_code'', JStr reason), (''message'', JStr message)])"

text \<open>Whether the file that is superseded can be: the answer when it cannot.\<close>

definition check_superseded :: "string \<Rightarrow> doc_stage \<Rightarrow> intake_decision \<Rightarrow> process_record option \<Rightarrow> response option" where
  "check_superseded replaced stage d record =
     (if replaced = [] then None
      else if length (accepted d) \<noteq> 1 then Some (detail 400 ''supersedes_file_id is for exactly one file'')
      else case record of
          None \<Rightarrow> None
        | Some r \<Rightarrow>
            (case find (\<lambda>f. af_file_id f = replaced) (pr_files r) of
               None \<Rightarrow> Some (detail 400 ''supersedes_file_id is not in the process'')
             | Some prior \<Rightarrow>
                 if af_stage prior \<noteq> stage then Some (detail 400 ''a successor is of the same stage'')
                 else if af_successor prior \<noteq> None then Some (detail 409 ''the file already has a successor'')
                 else None))"

definition bodies_of :: "(upload_candidate \<times> bytes) list \<Rightarrow> (string, bytes) dict" where
  "bodies_of payloads = fold (\<lambda>(c, b) d. case up_content_hash c of None \<Rightarrow> d | Some h \<Rightarrow> dict_set h b d) payloads []"

text \<open>The files are attached to a new process or to the one of the form, and a run is scheduled.\<close>

definition store_upload ::
    "('s, 'p) server \<Rightarrow> occasion \<Rightarrow> string \<Rightarrow> doc_stage \<Rightarrow> string \<Rightarrow> intake_decision \<Rightarrow> (string, bytes) dict \<Rightarrow>
      process_record option \<Rightarrow> ('s api, response) prog" where
  "store_upload sv oc object_id stage replaced d bodies record =
     (let st = sv_settings sv
      in case record of
           None \<Rightarrow>
             let pid = oc_process_id oc
             in bindp (in_ws (create_process st pid object_id (dict_set stage UPLOADED empty_completeness))) (\<lambda>_.
                bindp (in_ws (attach_new_files st (oc_file_id oc) pid (accepted d) bodies stage replaced)) (\<lambda>attached.
                bindp (in_ws (note_phase pid ''upload'' (oc_seconds oc))) (\<lambda>_.
                bindp (schedule pid) (\<lambda>_.
                  upload_receipt pid attached (rejected d)))))
         | Some r \<Rightarrow>
             let pid = pr_process_id r
             in bindp (liftp (guard (pr_state r = FINALIZED)
                    (Exc TransitionError ''the protocol is finalised, no further upload'' []))) (\<lambda>_.
                bindp (in_ws (attach_new_files st (oc_file_id oc) pid (accepted d) bodies stage replaced)) (\<lambda>attached.
                  if attached = [] then upload_receipt pid [] (rejected d)
                  else
                    bindp (in_ws (reopen_for_upload pid)) (\<lambda>_.
                    bindp (in_ws (note_phase pid ''upload'' (oc_seconds oc))) (\<lambda>_.
                    bindp (schedule pid) (\<lambda>_.
                      upload_receipt pid attached (rejected d)))))))"

text \<open>What happens to the files once the form is in order.\<close>

definition receive_upload ::
    "('s, 'p) server \<Rightarrow> occasion \<Rightarrow> upload_form \<Rightarrow> string \<Rightarrow> doc_stage \<Rightarrow> string \<Rightarrow> process_record option \<Rightarrow> ('s api, response) prog" where
  "receive_upload sv oc form object_id stage replaced record =
     (let (d, payloads) = accept_uploads (sv_intake sv) (uf_files form)
      in case (rejected d, accepted d) of
           (w # ws, []) \<Rightarrow> reply (nat (HTTP_STATUS (rej_reason (worst w ws)))) (rejection_body (worst w ws))
         | _ \<Rightarrow>
             (case check_superseded replaced stage d record of
                Some answer \<Rightarrow> liftp (Inr answer)
              | None \<Rightarrow> store_upload sv oc object_id stage replaced d (bodies_of payloads) record))"

definition upload_documents :: "('s, 'p) server \<Rightarrow> occasion \<Rightarrow> string option \<Rightarrow> upload_form \<Rightarrow> ('s api, response) prog" where
  "upload_documents sv oc authorization form =
     bindp (liftp (require sv ''uploadDocuments'' authorization)) (\<lambda>(subject, granted, caller).
       let object_id = strip (uf_object_id form); asked = or_str (uf_process_id form) []
       in bindp (liftp (guard (object_id = []) (Exc EmptyPackageError ''object_id is empty'' []))) (\<lambda>_.
          bindp (liftp (check_scope object_id caller)) (\<lambda>_.
          bindp (if asked = [] then liftp (Inr None) else get_record sv oc asked) (\<lambda>record.
          if asked \<noteq> [] \<and> record = None then not_found
          else bindp (liftp (case record of None \<Rightarrow> Inr () | Some r \<Rightarrow> check_scope (pr_object_id r) caller)) (\<lambda>_.
          if (case record of None \<Rightarrow> False | Some r \<Rightarrow> pr_object_id r \<noteq> object_id) then refuse 409 ''object_id is another one''
          else if (case uf_content_length form of None \<Rightarrow> False | Some n \<Rightarrow> n > MAX_BATCH_BYTES)
            then upload_error 413 ''BATCH_LIMIT_EXCEEDED'' ''Content-Length over the limit''
          else if uf_files form = [] then liftp (raise EmptyPackageError ''empty package is not a TZ comparison scenario'' [])
          else case uf_stage form of
            None \<Rightarrow> upload_error 422 ''UNSUPPORTED_FORMAT'' ''doc_stage is required''
          | Some stage \<Rightarrow>
              let replaced = strip (or_str (uf_supersedes form) [])
              in if replaced \<noteq> [] \<and> record = None then refuse 400 ''supersedes_file_id needs an existing process''
                 else receive_upload sv oc form object_id stage replaced record)))))"

subsection \<open>Decisions\<close>

record ui_event =
  ue_action :: string
  ue_screen :: string
  ue_target :: string
  ue_check_id :: string
  ue_click_index :: "int option"
  ue_client_ts :: string

definition UI_ACTIONS :: "string list" where
  "UI_ACTIONS = [''UI_CLICK'', ''UI_CARD_OPEN'', ''UI_DECISION_SUBMIT'', ''UI_HOTKEY'']"

definition record_ui_event ::
    "('s, 'p) server \<Rightarrow> occasion \<Rightarrow> string option \<Rightarrow> string \<Rightarrow> ui_event \<Rightarrow> ('s api, response) prog" where
  "record_ui_event sv oc authorization pid e =
     on_process sv oc ''recordUiEvent'' authorization pid (\<lambda>subject _ r.
       if ue_action e \<notin> set UI_ACTIONS then refuse 422 ''unknown UI event''
       else if (case ue_click_index e of None \<Rightarrow> False | Some i \<Rightarrow> i < 0) then refuse 422 ''click_index must be an integer''
       else if length (ue_screen e) > 40 \<or> length (ue_target e) > 80 \<or> length (ue_check_id e) > 80 \<or> length (ue_client_ts e) > 40
         then refuse 422 ''a field of the UI event is too long''
       else
         bindp (in_ws (record_audit (st_port (sv_settings sv)) pid subject (ue_action e) (JObj
             [(''screen'', JStr (ue_screen e)), (''target'', JStr (ue_target e)), (''check_id'', JStr (ue_check_id e)),
              (''click_index'', case ue_click_index e of None \<Rightarrow> JNull | Some i \<Rightarrow> JInt i),
              (''client_ts'', JStr (ue_client_ts e)), (''object_id'', JStr (pr_object_id r))]))) (\<lambda>_.
           reply 200 (JObj [(''stored'', JBool True), (''closes_gate_k'', JBool False)])))"

record review_request =
  rq_action :: string
  rq_inspector :: string
  rq_comment :: string
  rq_reason :: "reason_code option"

definition review_reply :: "finding \<Rightarrow> ('s api, response) prog" where
  "review_reply f = reply 200 (JObj
     ([(''finding_id'', JStr (finding_id f)), (''finding_status'', JStr (finding_status_value (finding_status f))),
       (''rule_code'', JStr (rule_code f)), (''evidence_group_id'', opt_str (evidence_group_id f))] @
      opt_entry ''source_id'' JStr (source_id f) @
      (if evidence_refs f \<noteq> [] then [(''evidence_refs'', JArr (map JStr (evidence_refs f)))] else []) @
      opt_entry ''disagreement_kind'' (JStr \<circ> disagreement_kind_value) (disagreement_kind f)))"

definition api_review ::
    "('s, 'p) server \<Rightarrow> occasion \<Rightarrow> string option \<Rightarrow> string \<Rightarrow> review_request \<Rightarrow> ('s api, response) prog" where
  "api_review sv oc authorization fid q =
     by_inspector sv ''reviewFinding'' authorization (rq_inspector q) (\<lambda>subject granted caller.
     bindp (wait_pipelines sv oc) (\<lambda>_.
     bindp (in_ws (readp (\<lambda>ws. Inr (locate_finding (ws_items ws) fid (dict_get ACTION_TO_STATUS (rq_action q)))))) (\<lambda>located.
       case located of
         None \<Rightarrow> refuse 404 ''the finding is not found''
       | Some (owner, key, current) \<Rightarrow>
           bindp (in_ws (the_record owner)) (\<lambda>r.
           bindp (liftp (check_scope (pr_object_id r) caller)) (\<lambda>_.
           bindp (in_ws (review_finding (sv_settings sv) (oc_now oc) fid (actor_from_roles subject granted)
               (rq_action q) (rq_reason q) (rq_comment q))) review_reply)))))"

text \<open>\<open>except KeyError\<close>.\<close>

definition or_missing :: "('s, 'a) prog \<Rightarrow> ('a \<Rightarrow> ('s, response) prog) \<Rightarrow> response \<Rightarrow> ('s, response) prog" where
  "or_missing m k answer s =
     (case m s of
        (Inl e, s') \<Rightarrow> if exc_cls e = KeyError then (Inr answer, s') else (Inl e, s')
      | (Inr x, s') \<Rightarrow> k x s')"

definition api_confirm ::
    "('s, 'p) server \<Rightarrow> occasion \<Rightarrow> string option \<Rightarrow> string \<Rightarrow> string \<Rightarrow> string \<Rightarrow> string list \<Rightarrow> ('s api, response) prog" where
  "api_confirm sv oc authorization pid inspector note fids =
     decide_on_process sv oc ''confirmCandidates'' authorization inspector pid (\<lambda>who r.
       or_missing (in_ws (confirm_in_process (sv_settings sv) (oc_moment oc) pid fids who note))
         (\<lambda>updated. reply 200 (JObj [(''process_id'', JStr pid), (''confirmed'', JArr (map (\<lambda>f.
            JObj [(''finding_id'', JStr (finding_id f)), (''finding_status'', JStr (finding_status_value (finding_status f)))]) updated))]))
         (detail 404 ''the finding is not found''))"

datatype process_action = Verify | Complete | Finalize

fun action_id :: "process_action \<Rightarrow> string" where
  "action_id Verify = ''startVerification''"
| "action_id Complete = ''completeVerification''"
| "action_id Finalize = ''finalizeProtocol''"

fun act_on :: "('s, 'p) server \<Rightarrow> occasion \<Rightarrow> process_action \<Rightarrow> string \<Rightarrow> actor \<Rightarrow> ('s workspace, unit) prog" where
  "act_on sv oc Verify pid who = start_process_verification (sv_settings sv) pid who"
| "act_on sv oc Complete pid who = complete_process (sv_settings sv) pid who"
| "act_on sv oc Finalize pid who = finalize (sv_settings sv) (oc_now oc) (oc_seconds oc) pid who"

definition human_process_action ::
    "('s, 'p) server \<Rightarrow> occasion \<Rightarrow> string option \<Rightarrow> process_action \<Rightarrow> string \<Rightarrow> string \<Rightarrow> ('s api, response) prog" where
  "human_process_action sv oc authorization a pid inspector =
     decide_on_process sv oc (action_id a) authorization inspector pid (\<lambda>who r.
       bindp (in_ws (act_on sv oc a pid who)) (\<lambda>_. status_reply pid))"

definition api_unfinalize ::
    "('s, 'p) server \<Rightarrow> occasion \<Rightarrow> string option \<Rightarrow> string \<Rightarrow> string \<Rightarrow> string \<Rightarrow> ('s api, response) prog" where
  "api_unfinalize sv oc authorization pid inspector why =
     decide_on_process sv oc ''unfinalizeProtocol'' authorization inspector pid (\<lambda>who r.
       bindp (in_ws (unfinalize_protocol (sv_settings sv) pid who why)) (\<lambda>_. status_reply pid))"

definition api_select_revision ::
    "('s, 'p) server \<Rightarrow> occasion \<Rightarrow> string option \<Rightarrow> string \<Rightarrow> string \<Rightarrow> string \<Rightarrow> string \<Rightarrow> ('s api, response) prog" where
  "api_select_revision sv oc authorization pid file_id inspector note =
     decide_on_process sv oc ''selectRevision'' authorization inspector pid (\<lambda>who r.
       or_missing (in_ws (select_revision (sv_settings sv) (oc_clocks oc pid) pid file_id who note))
         (\<lambda>_. status_reply pid) (detail 404 ''the file is not found''))"

definition sync_inspection :: "('s, 'p) server \<Rightarrow> occasion \<Rightarrow> string option \<Rightarrow> string \<Rightarrow> ('s api, response) prog" where
  "sync_inspection sv oc authorization pid =
     on_process sv oc ''syncInspection'' authorization pid (\<lambda>_ _ r.
       bindp (in_ws (request_sync (sv_settings sv) pid)) (\<lambda>_.
       bindp (in_ws (the_record pid)) (\<lambda>r. reply 202 (JStr (sync_state_value (pr_sync_state r))))))"

subsection \<open>Requests\<close>

datatype request =
    Get_Capabilities
  | Upload upload_form
  | Get_Status string
  | Get_Documents string
  | List_Findings string
  | Get_Protocol string "int option"
  | Get_Audit string
  | Get_Revision_Diff string string
  | Record_Ui_Event string ui_event
  | Review_Finding string review_request
  | Confirm_Candidates string string string "string list"
  | Process_Action process_action string string
  | Unfinalize string string string
  | Select_Revision string string string string
  | Sync_Inspection string

definition len_within :: "nat \<Rightarrow> nat \<Rightarrow> string \<Rightarrow> bool" where
  "len_within a b s = (a \<le> length s \<and> length s \<le> b)"

text \<open>The bounds of the pydantic models; a body outside them is answered 422 before its handler.\<close>

fun body_ok :: "request \<Rightarrow> bool" where
  "body_ok (Review_Finding fid q) =
     (len_within 1 40 (rq_action q) \<and> len_within 1 200 (rq_inspector q) \<and> len_within 1 4000 (rq_comment q))"
| "body_ok (Confirm_Candidates pid inspector note fids) =
     (len_within 1 200 inspector \<and> len_within 1 4000 note \<and> 1 \<le> length fids \<and> length fids \<le> 50)"
| "body_ok (Process_Action a pid inspector) = (inspector \<noteq> [])"
| "body_ok (Unfinalize pid inspector why) = (len_within 1 200 inspector \<and> len_within 1 4000 why \<and> \<not> blank why)"
| "body_ok (Select_Revision pid file_id inspector note) = (len_within 1 200 inspector \<and> len_within 1 4000 note)"
| "body_ok _ = True"

fun operation_of :: "request \<Rightarrow> string" where
  "operation_of Get_Capabilities = ''getSystemCapabilities''"
| "operation_of (Upload form) = ''uploadDocuments''"
| "operation_of (Get_Status pid) = ''getProcessStatus''"
| "operation_of (Get_Documents pid) = ''getProcessDocuments''"
| "operation_of (List_Findings pid) = ''listProcessFindings''"
| "operation_of (Get_Protocol pid v) = ''getProtocol''"
| "operation_of (Get_Audit pid) = ''getAuditLog''"
| "operation_of (Get_Revision_Diff pid file_id) = ''getRevisionDiff''"
| "operation_of (Record_Ui_Event pid e) = ''recordUiEvent''"
| "operation_of (Review_Finding fid q) = ''reviewFinding''"
| "operation_of (Confirm_Candidates pid inspector note fids) = ''confirmCandidates''"
| "operation_of (Process_Action a pid inspector) = action_id a"
| "operation_of (Unfinalize pid inspector why) = ''unfinalizeProtocol''"
| "operation_of (Select_Revision pid file_id inspector note) = ''selectRevision''"
| "operation_of (Sync_Inspection pid) = ''syncInspection''"

fun handler :: "('s, 'p) server \<Rightarrow> occasion \<Rightarrow> string option \<Rightarrow> request \<Rightarrow> ('s api, response) prog" where
  "handler sv oc auth Get_Capabilities = system_capabilities sv auth"
| "handler sv oc auth (Upload form) = upload_documents sv oc auth form"
| "handler sv oc auth (Get_Status pid) = get_status sv oc auth pid"
| "handler sv oc auth (Get_Documents pid) = get_documents sv oc auth pid"
| "handler sv oc auth (List_Findings pid) = list_findings sv oc auth pid"
| "handler sv oc auth (Get_Protocol pid v) = get_protocol sv oc auth pid v"
| "handler sv oc auth (Get_Audit pid) = get_audit sv oc auth pid"
| "handler sv oc auth (Get_Revision_Diff pid file_id) = get_revision_diff sv oc auth pid file_id"
| "handler sv oc auth (Record_Ui_Event pid e) = record_ui_event sv oc auth pid e"
| "handler sv oc auth (Review_Finding fid q) = api_review sv oc auth fid q"
| "handler sv oc auth (Confirm_Candidates pid inspector note fids) = api_confirm sv oc auth pid inspector note fids"
| "handler sv oc auth (Process_Action a pid inspector) = human_process_action sv oc auth a pid inspector"
| "handler sv oc auth (Unfinalize pid inspector why) = api_unfinalize sv oc auth pid inspector (strip why)"
| "handler sv oc auth (Select_Revision pid file_id inspector note) = api_select_revision sv oc auth pid file_id inspector note"
| "handler sv oc auth (Sync_Inspection pid) = sync_inspection sv oc auth pid"

definition serve :: "('s, 'p) server \<Rightarrow> occasion \<Rightarrow> string option \<Rightarrow> request \<Rightarrow> 's api \<Rightarrow> response \<times> 's api" where
  "serve sv oc auth q s =
     (if \<not> body_ok q then (detail 422 ''the body does not fit its model'', s)
      else respond (handler sv oc auth q) s)"

subsection \<open>A service at work\<close>

text \<open>
  What a service does from its start: it serves requests and its worker runs what is scheduled, in any order. The
  servers of the set are one service at different moments: what its readers, keys and libraries answer may change.
\<close>

inductive api_run :: "('s, 'p) server set \<Rightarrow> 's \<Rightarrow> 's api \<Rightarrow> bool" for SV s0 where
  api_start: "api_run SV s0 \<lparr>ap_ws = \<lparr>ws_items = [], ws_store = s0, ws_objects = objects\<rparr>, ap_queue = []\<rparr>"
| api_request: "api_run SV s0 s \<Longrightarrow> sv \<in> SV \<Longrightarrow> 0 \<le> oc_seconds oc \<Longrightarrow> api_run SV s0 (snd (serve sv oc auth q s))"
| api_worker: "api_run SV s0 s \<Longrightarrow> sv \<in> SV \<Longrightarrow> api_run SV s0 (background sv oc s)"

end
