(* ===== verification/Api_Demo.thy ===== *)
theory Api_Demo
  imports Http_Api Sessions
begin

section \<open>A service at work, on one small package\<close>

text \<open>
  One run of the whole service on concrete input, evaluated step by step: an inspector uploads a file, the worker runs
  the matrix over it, the inspector confirms what it suspects. The theorems about the interface are applied to it.
\<close>

subsection \<open>The service and its requests\<close>

definition digest :: string where
  "digest = replicate 64 CHR ''d''"

definition demo_port :: "pg_store store_port" where
  "demo_port = postgres_port (\<lambda>_. ''d'')"

definition demo_server :: "(pg_store, unit) server" where
  "demo_server = \<lparr>sv_settings = demo_settings demo_port, sv_env = training_env, sv_jwt = no_jwt,
     sv_intake = sample_intake\<lparr>in_sha := (\<lambda>_. digest)\<rparr>, sv_titles = (\<lambda>_. raise ValueError [] [])\<rparr>"

definition demo_occasion :: occasion where
  "demo_occasion = \<lparr>oc_now = 7, oc_moment = (\<lambda>_. 7), oc_process_id = ''p'', oc_file_id = (\<lambda>_. ''f''), oc_seconds = 0,
     oc_clocks = (\<lambda>_. (0, 0))\<rparr>"

definition demo_token :: "string option" where
  "demo_token = Some ''Bearer insp@o/INSPECTOR,ADMIN''"

definition demo_upload :: request where
  "demo_upload = Upload \<lparr>uf_object_id = ''o'', uf_files = [sample_upload], uf_process_id = None, uf_stage = Some PD,
     uf_supersedes = None, uf_content_length = None\<rparr>"

definition demo_review :: request where
  "demo_review = Review_Finding ''g'' \<lparr>rq_action = ''CONFIRM'', rq_inspector = ''insp'', rq_comment = ''seen'', rq_reason = None\<rparr>"

definition demo_start :: "pg_store api" where
  "demo_start = \<lparr>ap_ws = \<lparr>ws_items = [], ws_store = empty_database, ws_objects = []\<rparr>, ap_queue = []\<rparr>"

lemma demo_fields [simp]:
  "sv_settings demo_server = demo_settings demo_port" "sv_env demo_server = training_env" "sv_jwt demo_server = no_jwt"
  "sv_intake demo_server = sample_intake\<lparr>in_sha := (\<lambda>_. digest)\<rparr>"
  "st_port (demo_settings port) = port" "st_git_sha (demo_settings port) = ''g''" "st_sha (demo_settings port) = (\<lambda>_. ''d'')"
  "oc_process_id demo_occasion = ''p''" "oc_file_id demo_occasion i = ''f''" "oc_seconds demo_occasion = 0"
  "oc_clocks demo_occasion pid = (0, 0)" "oc_now demo_occasion = 7" "oc_moment demo_occasion f = 7"
  by (simp_all add: demo_server_def demo_settings_def demo_occasion_def)

lemma demo_context: "parse_bearer training_env no_jwt demo_token =
    Inr \<lparr>ac_subject = ''insp'', ac_roles = [''INSPECTOR'', ''ADMIN''], ac_object_id = Some ''o''\<rparr>"
  unfolding demo_token_def by (rule training_token)

lemma demo_require:
  assumes "dict_get REQUIRED_ROLES op = Some allowed" and "filter (\<lambda>r. r \<in> set allowed \<and> r \<in> {INSPECTOR, ADMIN}) all_roles = granted"
    and "granted \<noteq> []"
  shows "require demo_server op demo_token = Inr (''insp'', granted, Some ''o'')"
proof -
  have "List.map_filter parse_role [''INSPECTOR'', ''ADMIN''] = [INSPECTOR, ADMIN]"
    by (simp add: List.map_filter_def parse_role_def all_roles_def)
  with assms show ?thesis by (simp add: require_def demo_context authorize_def roles_for_def Let_def)
qed

lemma demo_decider: "require demo_server ''uploadDocuments'' demo_token = Inr (''insp'', [INSPECTOR], Some ''o'')"
  "require demo_server ''reviewFinding'' demo_token = Inr (''insp'', [INSPECTOR], Some ''o'')"
  by (rule demo_require [where allowed = deciders], simp_all add: REQUIRED_ROLES_def deciders_def all_roles_def)+

subsection \<open>One process in the workspace\<close>

definition solo :: "process_record \<Rightarrow> 's \<Rightarrow> (string, bytes) dict \<Rightarrow> 's workspace" where
  "solo r s ob = \<lparr>ws_items = [(''p'', r)], ws_store = s, ws_objects = ob\<rparr>"

lemma solo_simps [simp]:
  "ws_items (solo r s ob) = [(''p'', r)]" "ws_store (solo r s ob) = s" "ws_objects (solo r s ob) = ob"
  "change ''p'' f (solo r s ob) = (Inr (), solo (f r) s ob)"
  "bindp (change ''p'' f) k (solo r s ob) = k () (solo (f r) s ob)"
  "bindp (the_record ''p'') k' (solo r s ob) = k' r (solo r s ob)"
  "solo r s ob\<lparr>ws_store := s'\<rparr> = solo r s' ob" "solo r s ob\<lparr>ws_objects := ob'\<rparr> = solo r s ob'"
  by (simp_all add: solo_def change_def bindp_apply)

definition kept :: "process_record \<Rightarrow> bool" where
  "kept r \<longleftrightarrow> pr_process_id r = ''p'' \<and> pr_object_id r = ''o'' \<and> files_ok (map file_row (pr_files r)) \<and>
     pr_completeness r = [(PD, UPLOADED), (RD, MISSING), (ID, MISSING)] \<and> pr_state r \<noteq> FINALIZED \<and>
     0 \<le> pr_parse_attempts r \<and> pr_parse_attempts r \<le> 1 \<and> pr_sync_attempts r = 0 \<and> pr_sync_state r = NOT_REQUESTED"

lemma persist_solo:
  assumes "kept r"
  shows "\<exists>s'. persist demo_port ''p'' (solo r s ob) = (Inr (), solo r s' ob)"
proof -
  obtain snap where snap: "snapshot_of r = Inr snap" "validate_snapshot snap = Inr ()" "sn_process_state snap \<noteq> FINALIZED"
      "files_ok (sn_files snap)"
    using assms by (auto simp: kept_def snapshot_of_def completeness_of_def validate_snapshot_def MAX_PARSE_ATTEMPTS_def
        MAX_SYNC_ATTEMPTS_def blank_iff is_space_def)
  then obtain s' where "sp_save demo_port snap s = (Inr (), s')"
    by (auto simp: demo_port_def postgres_port_def pg_save_def transaction_def written_process)
  with snap(1) show ?thesis by (auto simp: persist_def on_db_def)
qed

lemma demo_no_evidence: "\<exists>s'. sp_save_evidence demo_port pid [] s = (Inr (), s')"
  by (simp add: demo_port_def postgres_port_def pg_save_evidence_def transaction_def)

subsection \<open>The upload\<close>

definition demo_candidate :: upload_candidate where
  "demo_candidate = sample_candidate\<lparr>up_content_hash := Some digest\<rparr>"

lemma demo_candidate_fields: "up_content_hash demo_candidate = Some digest" "up_size_bytes demo_candidate = 6"
  by (simp_all add: demo_candidate_def sample_candidate_def)

lemma demo_accepted:
  "accept_uploads (sample_intake\<lparr>in_sha := (\<lambda>_. digest)\<rparr>) [sample_upload] =
     (empty_decision\<lparr>accepted := [demo_candidate]\<rparr>, [(demo_candidate, ''%PDF-1'')])"
proof -
  have "antivirus_rejection (in_av sample_intake) (in_daemon sample_intake) ''a.pdf'' ''%PDF-1'' = None"
    using sample_received by (simp add: receive_def sample_candidate_def sample_upload_def body_of_def
        split: prod.splits option.splits)
  moreover have "read_bounded_upload (\<lambda>_. digest) MAX_FILE_BYTES sample_upload = (demo_candidate, Some ''%PDF-1'')"
    by (simp add: read_bounded_upload_def sample_upload_def sample_candidate_def demo_candidate_def MAX_FILE_BYTES_def
        none_if_empty_def)
  ultimately have r: "receive (sample_intake\<lparr>in_sha := (\<lambda>_. digest)\<rparr>) sample_upload = Inr (demo_candidate, ''%PDF-1'')"
    by (simp add: receive_def body_of_def demo_candidate_def sample_candidate_def)
  have same: "up_filename demo_candidate = up_filename sample_candidate" "up_size_bytes demo_candidate = up_size_bytes sample_candidate"
      "up_header demo_candidate = up_header sample_candidate"
    by (simp_all add: demo_candidate_def)
  have "check_file (\<lambda>_. None) demo_candidate = check_file (\<lambda>_. None) sample_candidate"
    unfolding check_file_def same ..
  then have "evaluate_batch (\<lambda>_. None) [demo_candidate] = empty_decision\<lparr>accepted := [demo_candidate]\<rparr>"
    using demo_candidate_fields by (simp add: sample_checked evaluate_batch_def MAX_BATCH_BYTES_def batch_step_def empty_decision_def)
  then show ?thesis
    by (simp add: accept_uploads_def r map_filter_def Let_def) (simp add: sample_intake_def empty_decision_def)
qed

definition demo_file :: accepted_file where
  "demo_file = \<lparr>af_file_id = ''f'', af_file_hash = digest, af_filename = ''a.pdf'', af_stage = PD, af_size_bytes = 6,
     af_stamp = UNKNOWN, af_predecessor = None, af_successor = None, af_section = None, af_path = None,
     af_file_path = None, af_declared = None\<rparr>"

definition demo_empty :: process_record where
  "demo_empty = new_record ''g'' ''p'' ''o'' [(PD, UPLOADED), (RD, MISSING), (ID, MISSING)] SINGLE_ONLY"

definition demo_attached :: process_record where
  "demo_attached = demo_empty\<lparr>pr_files := [demo_file], pr_manifest_hash := ''d''\<rparr>"

definition demo_stored :: process_record where
  "demo_stored = demo_attached\<lparr>pr_files := [demo_file\<lparr>af_file_path := Some ''p/f''\<rparr>], pr_blobs := [(''f'', ''%PDF-1'')]\<rparr>"

definition demo_uploaded :: process_record where
  "demo_uploaded = demo_stored\<lparr>pr_phase_seconds := [(''upload'', 0)]\<rparr>"

lemmas demo_records = demo_uploaded_def demo_stored_def demo_attached_def demo_empty_def new_record_def

lemma demo_kept: "kept demo_empty" "kept demo_attached" "kept demo_stored" "kept demo_uploaded"
  by (simp_all add: kept_def demo_records demo_file_def file_row_def files_ok_def)

lemma single_scenario: "detect_scenario [(PD, UPLOADED), (RD, MISSING), (ID, MISSING)] False = Inr SINGLE_ONLY"
  by (auto simp: detect_scenario_def present_stages_def completeness_of_def Let_def)

lemma demo_manifest: "manifest_hash (\<lambda>_. ''d'') [f] = Inr ''d''" if "af_file_id f = ''f''" "af_file_hash f = digest"
proof -
  have "strip digest = digest" by (rule strip_fixed) (simp_all add: digest_def is_space_def)
  moreover have "str_lower digest = digest"
    by (simp add: digest_def str_lower_def lower_code_def odd_case_pairs_def char_of_def bit_0)
  moreover have "length digest = 64 \<and> \<not> list_ex (\<lambda>c. c \<notin> set ''0123456789abcdef'') digest"
    by (simp add: digest_def list_ex_iff)
  moreover have "strip ''f'' = ''f''" by (rule strip_fixed) (simp_all add: is_space_def)
  ultimately have "manifest_row (''f'', digest) = Inr (''f'', digest)" by (simp add: manifest_row_def Let_def)
  with that show ?thesis by (simp add: manifest_hash_def)
qed

lemma api_created:
  "\<exists>s. create_process (demo_settings demo_port) ''p'' ''o'' [(PD, UPLOADED), (RD, MISSING), (ID, MISSING)] (ap_ws demo_start) =
     (Inr (), solo demo_empty s [])"
proof -
  obtain s where "persist demo_port ''p'' (solo demo_empty empty_database []) = (Inr (), solo demo_empty s [])"
    using persist_solo [OF demo_kept(1)] by blast
  then show ?thesis
    by (intro exI [of _ s])
      (simp add: create_process_def single_scenario demo_empty_def [symmetric], simp add: demo_start_def solo_def)
qed

lemma demo_attach:
  "\<exists>s'. attach_new_files (demo_settings demo_port) (\<lambda>_. ''f'') ''p'' [demo_candidate] [(digest, ''%PDF-1'')] PD []
     (solo demo_empty s []) = (Inr [(''f'', digest)], solo demo_stored s' [(''p/f'', ''%PDF-1'')])"
proof -
  have new: "new_upload ''f'' digest None PD demo_candidate = demo_file"
    by (simp add: new_upload_def demo_file_def demo_candidate_def sample_candidate_def)
  obtain s1 where p1: "persist demo_port ''p'' (solo demo_attached s []) = (Inr (), solo demo_attached s1 [])"
    using persist_solo [OF demo_kept(2)] by blast
  have f: "af_file_id demo_file = ''f''" "af_file_hash demo_file = digest" "af_stage demo_file = PD" by (simp_all add: demo_file_def)
  have e: "pr_files demo_empty = []" "pr_completeness demo_empty = [(PD, UPLOADED), (RD, MISSING), (ID, MISSING)]"
    by (simp_all add: demo_records)
  have r1: "demo_empty\<lparr>pr_files := [demo_file], pr_completeness := [(PD, UPLOADED), (RD, MISSING), (ID, MISSING)],
      pr_scenario := SINGLE_ONLY, pr_manifest_hash := ''d''\<rparr> = demo_attached"
    by (simp add: demo_records)
  have a: "attach_file (demo_settings demo_port) ''p'' demo_file (solo demo_empty s []) = (Inr True, solo demo_attached s1 [])"
    unfolding attach_file_def
    by (simp add: has_file_def f e demo_manifest single_scenario bindp_apply [of "persist _ _"] p1 r1)
  obtain s2 where p2: "persist demo_port ''p'' (solo demo_stored s1 [(''p/f'', ''%PDF-1'')]) =
      (Inr (), solo demo_stored s2 [(''p/f'', ''%PDF-1'')])"
    using persist_solo [OF demo_kept(3)] by blast
  have o: "object_put ''p'' ''f'' ''%PDF-1'' (solo r s []) = (Inr ''p/f'', solo r s [(''p/f'', ''%PDF-1'')])" for r and s :: pg_store
    by (simp add: object_put_def object_key_def blank_iff is_space_def)
  have b: "demo_attached\<lparr>pr_blobs := dict_set ''f'' ''%PDF-1'' (pr_blobs demo_attached),
      pr_files := update_first (\<lambda>f. af_file_id f = ''f'') (\<lambda>f. f\<lparr>af_file_path := Some ''p/f''\<rparr>) (pr_files demo_attached)\<rparr> = demo_stored"
    by (simp add: demo_records demo_file_def)
  have k: "keep_blob demo_port ''p'' ''f'' ''%PDF-1'' (solo demo_attached s1 []) = (Inr (), solo demo_stored s2 [(''p/f'', ''%PDF-1'')])"
    using p2 by (simp add: keep_blob_def bindp_apply [of "object_put _ _ _"] o b)
  have "up_content_hash demo_candidate = Some digest" by (simp add: demo_candidate_def)
  then show ?thesis
    by (intro exI [of _ s2])
      (simp add: attach_new_files_def link_prior_def new bindp_apply [of "attach_file _ _ _"] a bindp_apply [of "keep_blob _ _ _ _"] k)
qed

lemma upload_served:
  "\<exists>answer s. serve demo_server demo_occasion demo_token demo_upload demo_start =
     (answer, \<lparr>ap_ws = solo demo_uploaded s [(''p/f'', ''%PDF-1'')], ap_queue = [''p'']\<rparr>) \<and> resp_status answer = 202"
proof -
  obtain s1 where c: "create_process (demo_settings demo_port) ''p'' ''o'' [(PD, UPLOADED), (RD, MISSING), (ID, MISSING)] (ap_ws demo_start) =
     (Inr (), solo demo_empty s1 [])" using api_created by blast
  obtain s2 where a: "attach_new_files (demo_settings demo_port) (\<lambda>_. ''f'') ''p'' [demo_candidate] [(digest, ''%PDF-1'')] PD []
     (solo demo_empty s1 []) = (Inr [(''f'', digest)], solo demo_stored s2 [(''p/f'', ''%PDF-1'')])" using demo_attach by blast
  have n: "note_phase ''p'' ''upload'' 0 (solo demo_stored s ob) = (Inr (), solo demo_uploaded s ob)" for s :: pg_store and ob
    by (simp add: note_phase_def CALLER_PHASES_def guard_def) (simp add: demo_records)
  have st: "strip ''o'' = ''o''" by (rule strip_fixed) (simp_all add: is_space_def)
  have st0: "strip [] = []" by (simp add: strip_def)
  have comp: "dict_set PD UPLOADED empty_completeness = [(PD, UPLOADED), (RD, MISSING), (ID, MISSING)]"
    by (simp add: empty_completeness_def)
  have ids: "oc_file_id demo_occasion = (\<lambda>_. ''f'')" by (simp add: demo_occasion_def)
  let ?d = "empty_decision\<lparr>accepted := [demo_candidate]\<rparr>"
  have d: "accepted ?d = [demo_candidate]" "rejected ?d = []" by (simp_all add: empty_decision_def)
  have b: "bodies_of [(demo_candidate, ''%PDF-1'')] = [(digest, ''%PDF-1'')]" by (simp add: bodies_of_def demo_candidate_fields)
  let ?s = "\<lparr>ap_ws = solo demo_uploaded s2 [(''p/f'', ''%PDF-1'')], ap_queue = [''p'']\<rparr>"
  have "store_upload demo_server demo_occasion ''o'' PD [] ?d [(digest, ''%PDF-1'')] None demo_start =
      upload_receipt ''p'' [(''f'', digest)] [] ?s"
    by (simp add: store_upload_def Let_def bindp_apply [of "in_ws _"] in_ws_def comp c ids a d n schedule_def)
      (simp add: demo_start_def)
  then have "upload_documents demo_server demo_occasion demo_token
      \<lparr>uf_object_id = ''o'', uf_files = [sample_upload], uf_process_id = None, uf_stage = Some PD, uf_supersedes = None,
       uf_content_length = None\<rparr> demo_start = upload_receipt ''p'' [(''f'', digest)] [] ?s"
    by (simp add: upload_documents_def demo_decider st Let_def or_str_def guard_def check_scope_def check_object_access_def
        receive_upload_def demo_accepted d check_superseded_def b st0)
  then have "serve demo_server demo_occasion demo_token demo_upload demo_start =
      respond (upload_receipt ''p'' [(''f'', digest)] []) ?s"
    by (simp add: serve_def demo_upload_def respond_def)
  then show ?thesis by (auto simp: respond_def upload_receipt_def reply_def)
qed

subsection \<open>The run of the worker\<close>

definition bad_report :: pipeline_report where
  "bad_report = demo_report\<lparr>rp_parse_errors := [''f: not a PDF'']\<rparr>"

definition demo_suspect :: finding where
  "demo_suspect = suspicion\<lparr>finding_id := ''pipe-FS''\<rparr>"

lemma demo_matrix_run:
  "run_matrix (demo_settings demo_port) (0, 0) (demo_uploaded\<lparr>pr_manifest_hash := ''d''\<rparr>) [matrix_file (demo_file\<lparr>af_file_path := Some ''p/f''\<rparr>)] [] =
     Inr bad_report"
proof -
  have t: "traverse (\<lambda>code. Inr ([], [])) (replicate n x) = Inr (replicate n ([], []))" for n x
    by (induction n) simp_all
  have c: "concat (replicate n []) = []" for n by (induction n) simp_all
  have "wf_finding (suspicion\<lparr>finding_id := ''pipe-FS''\<rparr>)"
    by (simp add: wf_finding_iff suspicion_def STATUSES_REQUIRING_EVIDENCE_def)
  then have "compare_pages sample_matrix obj comp [] [] [] = Inr ([demo_suspect], [])" for obj comp
    by (simp add: compare_pages_def sample_matrix_def run_codes_def t c numbered_id_def demo_suspect_def)
      (simp add: suspicion_def mk_finding_def wf_finding_def)
  moreover have "build_pages sample_readers [] [matrix_file (demo_file\<lparr>af_file_path := Some ''p/f''\<rparr>)] (empty_build [(''f'', ''%PDF-1'')]) =
      Inr ((empty_build [(''f'', ''%PDF-1'')])\<lparr>bd_seen := [''f''], bd_errors := [''f: not a PDF'']\<rparr>)"
  proof -
    have "archive_suffix ''a.pdf'' = None" "office_suffix ''a.pdf'' = None" "is_pdf ''a.pdf''"
      by (simp_all add: archive_suffix_def office_suffix_def is_pdf_def sample_lower ends_with_def)
    then show ?thesis
      by (simp add: build_file_def matrix_file_def demo_file_def empty_build_def read_with_def sample_readers_def add_error_def)
  qed
  then have "pages_from_blobs None sample_readers [matrix_file (demo_file\<lparr>af_file_path := Some ''p/f''\<rparr>)] [(''f'', ''%PDF-1'')] [] =
      Some (Inr ([], (empty_build [(''f'', ''%PDF-1'')])\<lparr>bd_seen := [''f''], bd_errors := [''f: not a PDF'']\<rparr>))"
    by (simp add: pages_from_blobs_def stages_from_heads_def group_by_def empty_build_def bindo_def)
  moreover have "assert_machine_only [demo_suspect] = Inr ()"
    by (simp add: assert_machine_only_def HUMAN_ONLY_STATUSES_def suspicion_def demo_suspect_def)
  moreover have "length (mx_codes sample_matrix) = 132" by (simp add: sample_matrix_def)
  ultimately have "run_process_pipeline None sample_readers sample_matrix (0, 0) obj comp
      [matrix_file (demo_file\<lparr>af_file_path := Some ''p/f''\<rparr>)] [(''f'', ''%PDF-1'')] [] = Some (Inr bad_report)" for obj comp
    by (simp add: run_process_pipeline_def bindo_def empty_build_def EXPECTED_PARAM_COUNT_def bad_report_def demo_report_def
        demo_suspect_def count_built_pages_def)
  then show ?thesis by (simp add: run_matrix_def demo_settings_def demo_records)
qed

definition demo_clocks :: "(string, rat) dict" where
  "demo_clocks = [(''upload'', 0), (''parse'', 0), (''compare'', 0)]"

definition demo_found :: process_record where
  "demo_found = demo_uploaded\<lparr>pr_findings := [(''g'', demo_suspect)]\<rparr>"

definition demo_ran :: process_record where
  "demo_ran = demo_found\<lparr>pr_parse_attempts := 1, pr_phase_seconds := demo_clocks,
     pr_journal := [(''system'', ''PIPELINE'', pipeline_event bad_report demo_clocks [])], pr_state := READY\<rparr>"

lemma demo_kept_run: "kept demo_found" "kept demo_ran"
  using demo_kept(4) by (simp_all add: kept_def demo_found_def demo_ran_def)

lemma demo_run_of_worker:
  "\<exists>s'. run_matrix_pipeline (demo_settings demo_port) (0, 0) ''p'' (solo demo_uploaded s ob) = (Inr bad_report, solo demo_ran s' ob)"
proof -
  let ?f = demo_suspect
  have key: "finding_key ?f = ''g''" by (simp add: finding_key_def suspicion_def demo_suspect_def)
  have up: "pr_findings demo_uploaded = []" "pr_groups demo_uploaded = []" "pr_approved demo_uploaded = []"
      "pr_files demo_uploaded = [demo_file\<lparr>af_file_path := Some ''p/f''\<rparr>]" "demo_uploaded\<lparr>pr_manifest_hash := ''d''\<rparr> = demo_uploaded"
      "pr_bound demo_uploaded = Some ''p''" "pr_state demo_uploaded = PARSING" "pr_parse_attempts demo_uploaded = 0" "pr_journal demo_uploaded = []"
      "pr_phase_seconds demo_uploaded = [(''upload'', 0)]" "demo_uploaded\<lparr>pr_findings := [(''g'', demo_suspect)]\<rparr> = demo_found"
      "demo_uploaded\<lparr>pr_files := [demo_file\<lparr>af_file_path := Some ''p/f''\<rparr>]\<rparr> = demo_uploaded"
    by (simp_all add: demo_records demo_found_def)
  have fo: "pr_groups demo_found = []" "demo_found\<lparr>pr_groups := []\<rparr> = demo_found" "pr_state demo_found = PARSING"
      "pr_bound demo_found = Some ''p''" "pr_parse_attempts demo_found = 0" "pr_journal demo_found = []" "pr_phase_seconds demo_found = [(''upload'', 0)]"
    by (simp_all add: demo_records demo_found_def)
  have put: "put_finding demo_port ''p'' ?f (solo demo_uploaded s ob) = (Inr (), solo demo_found (sp_save_finding demo_port ''p'' ?f s) ob)"
    by (simp add: put_finding_def key up)
  obtain s1 where p1: "persist demo_port ''p'' (solo demo_found (sp_save_finding demo_port ''p'' ?f s) ob) = (Inr (), solo demo_found s1 ob)"
    using persist_solo [OF demo_kept_run(1)] by blast
  obtain s2 where e: "sp_save_evidence demo_port ''p'' [] s1 = (Inr (), s2)" using demo_no_evidence by blast
  have ev: "save_evidence demo_port ''p'' (solo demo_found (sp_save_finding demo_port ''p'' ?f s) ob) = (Inr (), solo demo_found s2 ob)"
    by (simp add: save_evidence_def bindp_apply [of "persist _ _"] p1 on_db_def e fo)
  let ?r2 = "demo_found\<lparr>pr_parse_attempts := 1, pr_phase_seconds := demo_clocks\<rparr>"
  have shown: "public_phase_seconds demo_clocks = demo_clocks"
    by (simp add: public_phase_seconds_def PHASE_ORDER_def List.map_filter_def demo_clocks_def)
  have clocks: "merge_pipeline_clocks ''p'' bad_report (solo (demo_found\<lparr>pr_parse_attempts := 1\<rparr>) s2 ob) = (Inr demo_clocks, solo ?r2 s2 ob)"
    using shown by (simp add: merge_pipeline_clocks_def bad_report_def demo_report_def PIPELINE_PHASES_def fo demo_clocks_def)
  let ?e = "(''system'', ''PIPELINE'', pipeline_event bad_report demo_clocks [])"
  let ?s3 = "sp_save_audit demo_port ''p'' ''system'' ''PIPELINE'' (pipeline_event bad_report demo_clocks []) s2"
  have audit: "record_audit demo_port ''p'' ''system'' ''PIPELINE'' (pipeline_event bad_report demo_clocks []) (solo ?r2 s2 ob) =
      (Inr (), solo (?r2\<lparr>pr_journal := [?e]\<rparr>) ?s3 ob)"
    by (simp add: record_audit_def fo)
  have ready: "?r2\<lparr>pr_journal := [?e], pr_state := READY\<rparr> = demo_ran" by (simp add: demo_ran_def)
  have adv: "advance_process PARSING READY = Inr READY" by (simp add: advance_process_Inr)
  obtain s4 where p2: "persist demo_port ''p'' (solo demo_ran ?s3 ob) = (Inr (), solo demo_ran s4 ob)"
    using persist_solo [OF demo_kept_run(2)] by blast
  have rep: "rp_expanded bad_report = []" "rp_findings bad_report = [?f]" "rp_groups bad_report = []" "stamp_files bad_report fs = fs" for fs
    by (simp_all add: bad_report_def demo_report_def stamp_files_def demo_suspect_def)
  have m: "run_matrix (demo_settings demo_port) (0, 0) demo_uploaded [matrix_file (demo_file\<lparr>af_file_path := Some ''p/f''\<rparr>)] [] = Inr bad_report"
    using demo_matrix_run by (simp only: up)
  have h: "manifest_hash (\<lambda>_. ''d'') [demo_file\<lparr>af_file_path := Some ''p/f''\<rparr>] = Inr ''d''"
    by (rule demo_manifest) (simp_all add: demo_file_def)
  show ?thesis
    unfolding run_matrix_pipeline_def Let_def
    by (intro exI [of _ s4])
      (simp add: m h rep up fo bindp_apply [of "forp _ _"] bindp_apply [of "put_finding _ _ _"] put groups_by_id_def
        bindp_apply [of "save_evidence _ _"] ev bindp_apply [of "merge_pipeline_clocks _ _"] clocks
        bindp_apply [of "record_audit _ _ _ _ _"] audit adv bindp_assoc bindp_done bindp_apply [of "persist _ _"] ready p2)
qed

lemma worker_ran:
  "\<exists>s'. background demo_server demo_occasion \<lparr>ap_ws = solo demo_uploaded s ob, ap_queue = [''p'']\<rparr> =
     \<lparr>ap_ws = solo demo_ran s' ob, ap_queue = []\<rparr>"
proof -
  obtain s' where "run_matrix_pipeline (demo_settings demo_port) (0, 0) ''p'' (solo demo_uploaded s ob) = (Inr bad_report, solo demo_ran s' ob)"
    using demo_run_of_worker by blast
  then have "run_scheduled (demo_settings demo_port) (0, 0) ''p'' (solo demo_uploaded s ob) = (Inr (), solo demo_ran s' ob)"
    by (simp add: run_scheduled_def) (simp add: demo_records)
  then show ?thesis by (auto simp: background_def work_def)
qed

subsection \<open>The review of the inspector\<close>

definition demo_actor :: actor where
  "demo_actor = actor_from_roles ''insp'' [INSPECTOR]"

definition demo_verdict :: finding where
  "demo_verdict = decided demo_suspect CONFIRMED_VIOLATION demo_actor ''CONFIRM'' None ''seen'' 7"

definition demo_decided :: process_record where
  "demo_decided = demo_ran\<lparr>pr_findings := [(''g'', demo_verdict)], pr_state := VERIFYING,
     pr_journal := pr_journal demo_ran @
       [(''insp'', ''REVIEW'', JObj [(''finding_id'', JStr ''g''), (''action'', JStr ''CONFIRM'')]),
        (''insp'', ''START_VERIFICATION'', from_to READY VERIFYING)]\<rparr>"

lemma demo_verdict_fields:
  "finding_status demo_verdict = CONFIRMED_VIOLATION"
  "\<exists>d. inspector_decision demo_verdict = Some d \<and> inspector_id d = ''insp''"
  by (simp_all add: demo_verdict_def decided_def demo_actor_def actor_from_roles_def)

lemma ran_fields:
  "pr_findings demo_ran = [(''g'', demo_suspect)]" "pr_state demo_ran = READY" "pr_bound demo_ran = Some ''p''" "pr_object_id demo_ran = ''o''"
  by (simp_all add: demo_ran_def demo_found_def demo_records)

lemma api_reviewed:
  "\<exists>s'. review_finding (demo_settings demo_port) 7 ''g'' demo_actor ''CONFIRM'' None ''seen'' (solo demo_ran s ob) =
     (Inr demo_verdict, solo demo_decided s' ob)"
proof -
  have who: "is_human demo_actor" "actor_id demo_actor = ''insp''" by (simp_all add: demo_actor_def actor_from_roles_def)
  have loc: "locate_finding [(''p'', demo_ran)] ''g'' (dict_get ACTION_TO_STATUS ''CONFIRM'') = Some (''p'', ''g'', demo_suspect)"
    by (simp add: locate_finding_def finding_matches_def find_finding_def ran_fields List.map_filter_def ACTION_TO_STATUS_def
        suspicion_def demo_suspect_def)
  have "truthy (evidence_group_id demo_suspect)" by (simp add: suspicion_def demo_suspect_def)
  then have rev: "review demo_suspect demo_actor ''CONFIRM'' None (Some ''seen'') 7 = Inr demo_verdict"
    unfolding review_Inr demo_verdict_def
    by (auto intro!: decided_wf simp: ACTION_TO_STATUS_Some advance_finding_Inr suspicion_def demo_suspect_def who blank_iff is_space_def)
  let ?e = "(''insp'', ''REVIEW'', JObj [(''finding_id'', JStr ''g''), (''action'', JStr ''CONFIRM'')])"
  let ?e2 = "(''insp'', ''START_VERIFICATION'', from_to READY VERIFYING)"
  let ?r1 = "demo_ran\<lparr>pr_findings := [(''g'', demo_verdict)]\<rparr>"
  let ?r2 = "?r1\<lparr>pr_journal := pr_journal demo_ran @ [?e]\<rparr>"
  obtain s1 where audit: "record_audit demo_port ''p'' ''insp'' ''REVIEW''
      (JObj [(''finding_id'', JStr ''g''), (''action'', JStr ''CONFIRM'')]) (solo ?r1 (sp_save_finding demo_port ''p'' demo_verdict s) ob) =
      (Inr (), solo ?r2 s1 ob)"
    by (simp add: record_audit_def ran_fields)
  let ?s2 = "sp_save_audit demo_port ''p'' ''insp'' ''START_VERIFICATION'' (from_to READY VERIFYING) s1"
  have final: "?r2\<lparr>pr_journal := pr_journal demo_ran @ [?e, ?e2], pr_state := VERIFYING\<rparr> = demo_decided" by (simp add: demo_decided_def)
  have "kept demo_decided" using demo_kept_run(2) by (simp add: kept_def demo_decided_def)
  from persist_solo [OF this, of ?s2] obtain s3 where p: "persist demo_port ''p'' (solo demo_decided ?s2 ob) = (Inr (), solo demo_decided s3 ob)" by blast
  have "record_audit demo_port ''p'' ''insp'' ''START_VERIFICATION'' (from_to READY VERIFYING) (solo ?r2 s1 ob) =
      (Inr (), solo (?r2\<lparr>pr_journal := pr_journal demo_ran @ [?e, ?e2]\<rparr>) ?s2 ob)"
    by (simp add: record_audit_def ran_fields)
  then have starts: "begin_verification demo_port ''p'' demo_actor (solo ?r2 s1 ob) = (Inr (), solo demo_decided s3 ob)"
    unfolding begin_verification_def Review.start_verification_def bindp_assoc bindp_done
    by (simp add: enter_verifying_def ran_fields who bindp_apply [of "record_audit _ _ _ _ _"] final [simplified] p)
  then show ?thesis
    by (intro exI [of _ s3])
      (simp add: review_finding_def loc rev who ran_fields bindp_apply [of "record_audit _ _ _ _ _"] audit
        bindp_apply [of "begin_verification _ _ _"])
qed

lemma review_served:
  "\<exists>answer s'. serve demo_server demo_occasion demo_token demo_review \<lparr>ap_ws = solo demo_ran s ob, ap_queue = []\<rparr> =
     (answer, \<lparr>ap_ws = solo demo_decided s' ob, ap_queue = []\<rparr>) \<and> resp_status answer = 200"
proof -
  obtain s' where r: "review_finding (demo_settings demo_port) 7 ''g'' demo_actor ''CONFIRM'' None ''seen'' (solo demo_ran s ob) =
     (Inr demo_verdict, solo demo_decided s' ob)" using api_reviewed by blast
  have loc: "locate_finding [(''p'', demo_ran)] ''g'' (dict_get ACTION_TO_STATUS ''CONFIRM'') = Some (''p'', ''g'', demo_suspect)"
    by (simp add: locate_finding_def finding_matches_def find_finding_def ran_fields List.map_filter_def ACTION_TO_STATUS_def
        suspicion_def demo_suspect_def)
  let ?s = "\<lparr>ap_ws = solo demo_decided s' ob, ap_queue = []\<rparr>"
  have "handler demo_server demo_occasion demo_token demo_review \<lparr>ap_ws = solo demo_ran s ob, ap_queue = []\<rparr> =
      review_reply demo_verdict ?s"
    by (simp add: demo_review_def api_review_def by_inspector_def demo_decider guard_def wait_pipelines_def bindp_apply [of "in_ws _"]
        in_ws_def loc ran_fields check_scope_def check_object_access_def demo_actor_def [symmetric] r)
  moreover have "body_ok demo_review" by (simp add: demo_review_def len_within_def)
  ultimately show ?thesis by (auto simp: serve_def respond_def review_reply_def reply_def)
qed

lemma demo_run_reaches:
  "\<exists>s ob. api_run {demo_server} empty_database \<lparr>ap_ws = solo demo_ran s ob, ap_queue = []\<rparr>"
proof -
  obtain answer s where u: "serve demo_server demo_occasion demo_token demo_upload demo_start =
      (answer, \<lparr>ap_ws = solo demo_uploaded s [(''p/f'', ''%PDF-1'')], ap_queue = [''p'']\<rparr>)" using upload_served by blast
  have start: "api_run {demo_server} empty_database demo_start" unfolding demo_start_def by (rule api_start)
  have "api_run {demo_server} empty_database (snd (serve demo_server demo_occasion demo_token demo_upload demo_start))"
    by (rule api_request [OF start]) simp_all
  then have "api_run {demo_server} empty_database \<lparr>ap_ws = solo demo_uploaded s [(''p/f'', ''%PDF-1'')], ap_queue = [''p'']\<rparr>"
    by (simp add: u)
  from api_worker [OF this, of demo_server demo_occasion] worker_ran [of s "[(''p/f'', ''%PDF-1'')]"] show ?thesis
    by (metis singletonI)
qed

lemma demo_run_decides:
  "\<exists>s ob. api_run {demo_server} empty_database \<lparr>ap_ws = solo demo_decided s ob, ap_queue = []\<rparr>"
proof -
  obtain s ob where r: "api_run {demo_server} empty_database \<lparr>ap_ws = solo demo_ran s ob, ap_queue = []\<rparr>"
    using demo_run_reaches by blast
  obtain answer s' where v: "serve demo_server demo_occasion demo_token demo_review \<lparr>ap_ws = solo demo_ran s ob, ap_queue = []\<rparr> =
      (answer, \<lparr>ap_ws = solo demo_decided s' ob, ap_queue = []\<rparr>)" using review_served by blast
  have "api_run {demo_server} empty_database
      (snd (serve demo_server demo_occasion demo_token demo_review \<lparr>ap_ws = solo demo_ran s ob, ap_queue = []\<rparr>))"
    by (rule api_request [OF r]) simp_all
  then show ?thesis unfolding v by auto
qed

end
