(* ===== verification/Api_Safety.thy ===== *)
theory Api_Safety
  imports Api_Demo
begin

section \<open>What requests can do\<close>

text \<open>
  Strangers change nothing, nobody reaches the processes of another object, and nobody writes into a journal in the
  name of another: the invariant of a session, carried by the logic of Program\_Logic through every handler.
\<close>

subsection \<open>Strangers\<close>

lemma parse_bearer_Inl: "parse_bearer env lib auth = Inl e \<Longrightarrow> exc_cls e = AuthenticationRequiredError"
proof -
  have req: "auth_required = Inl e \<Longrightarrow> exc_cls e = AuthenticationRequiredError" for e
    by (auto simp: auth_required_def)
  have legacy: "legacy_context token = Inl e \<Longrightarrow> exc_cls e = AuthenticationRequiredError" for token e
    by (auto simp: legacy_context_def Let_def req split: if_splits prod.splits)
  have claims: "validated_claims env lib token = Inl e \<Longrightarrow> exc_cls e = AuthenticationRequiredError" for token e
    unfolding validated_claims_def Let_def
    by (simp only: split: if_splits option.splits json.splits) (auto simp: req)
  have jwt: "jwt_context env lib token = Inl e \<Longrightarrow> exc_cls e = AuthenticationRequiredError" for token e
    unfolding jwt_context_def bindr_eq_Inl
    by (elim disjE exE conjE) (auto dest: claims simp: req split: if_splits option.splits json.splits)
  assume "parse_bearer env lib auth = Inl e"
  then show ?thesis by (auto simp: parse_bearer_def req dest: legacy jwt split: option.splits if_splits)
qed

lemma operation_listed: "dict_get REQUIRED_ROLES (operation_of q) \<noteq> None"
proof (cases q)
  case (Process_Action a pid inspector)
  then show ?thesis by (cases a) (simp_all add: REQUIRED_ROLES_def)
qed (simp_all add: REQUIRED_ROLES_def)

lemma require_Inl:
  assumes "require sv (operation_of q) auth = Inl e"
  shows "status_of (exc_cls e) \<in> {401, 403}"
proof (cases "parse_bearer (sv_env sv) (sv_jwt sv) auth")
  case (Inl e')
  with assms parse_bearer_Inl [OF Inl] show ?thesis by (simp add: require_def)
next
  case (Inr ctx)
  obtain allowed where "dict_get REQUIRED_ROLES (operation_of q) = Some allowed" using operation_listed by blast
  with Inr assms show ?thesis by (auto simp: require_def authorize_def roles_for_def Let_def bindr_eq_Inl split: if_splits)
qed

lemma refused_at_once: "r = Inl e \<Longrightarrow> respond (bindp (liftp r) k) s = (failure e, s)"
  by (simp add: respond_def)

lemmas handlers = system_capabilities_def upload_documents_def get_status_def get_documents_def list_findings_def
  get_protocol_def get_audit_def get_revision_diff_def record_ui_event_def api_review_def api_confirm_def
  human_process_action_def api_unfinalize_def api_select_revision_def sync_inspection_def

text \<open>
  C4. Strangers change nothing: a request whose token is not accepted, or whose subject has no right to the operation,
  is answered 401 or 403 (422 when its body does not even fit), and leaves processes, store, objects and the queue of
  runs exactly as they were.
\<close>

theorem strangers_change_nothing:
  assumes "require sv (operation_of q) auth = Inl e"
  shows "snd (serve sv oc auth q s) = s \<and> resp_status (fst (serve sv oc auth q s)) \<in> {401, 403, 422}"
proof (cases "body_ok q")
  case True
  have "respond (handler sv oc auth q) s = (failure e, s)"
    using assms by (cases q) (simp_all add: handlers on_process_def decide_on_process_def by_inspector_def respond_def Let_def)
  with True require_Inl [OF assms] show ?thesis by (auto simp: serve_def failure_def detail_def)
qed (simp add: serve_def detail_def)

subsection \<open>Foreign objects\<close>

text \<open>The process a request names.\<close>

fun target_of :: "request \<Rightarrow> string option" where
  "target_of (Get_Status pid) = Some pid"
| "target_of (Get_Documents pid) = Some pid"
| "target_of (List_Findings pid) = Some pid"
| "target_of (Get_Protocol pid v) = Some pid"
| "target_of (Get_Audit pid) = Some pid"
| "target_of (Get_Revision_Diff pid file_id) = Some pid"
| "target_of (Record_Ui_Event pid e) = Some pid"
| "target_of (Confirm_Candidates pid inspector note fids) = Some pid"
| "target_of (Process_Action a pid inspector) = Some pid"
| "target_of (Unfinalize pid inspector why) = Some pid"
| "target_of (Select_Revision pid file_id inspector note) = Some pid"
| "target_of (Sync_Inspection pid) = Some pid"
| "target_of _ = None"

definition waited :: "('s, 'p) server \<Rightarrow> occasion \<Rightarrow> string \<Rightarrow> 's api \<Rightarrow> 's api" where
  "waited sv oc pid s = snd (wait_for sv oc pid s)"

lemma record_for_access_foreign:
  assumes "dict_get (ws_items (ap_ws (waited sv oc pid s))) pid = Some r" and "caller \<noteq> Some (pr_object_id r)"
  shows "\<exists>t. record_for_access sv oc pid caller s = (raise AccessDeniedError t [], waited sv oc pid s)"
proof -
  have w: "wait_for sv oc pid s = (Inr (), waited sv oc pid s)" by (simp add: waited_def wait_for_def)
  have g: "in_ws (get_process (sv_settings sv) (oc_now oc) pid) (waited sv oc pid s) = (Inr (Some r), waited sv oc pid s)"
    using assms(1) by (simp add: in_ws_def get_process_def)
  have "check_scope (pr_object_id r) caller = raise AccessDeniedError ''access denied'' []"
    using assms(2) by (auto simp: check_scope_def check_object_access_def)
  then show ?thesis
    by (simp add: record_for_access_def get_record_def bindp_apply w g)
qed


subsection \<open>Who may write which entries\<close>

text \<open>The acts a request journals in the name of its subject.\<close>

fun acts_of :: "request \<Rightarrow> string list" where
  "acts_of (Record_Ui_Event pid e) = UI_ACTIONS"
| "acts_of (Review_Finding fid q) = REVIEW_ACTS"
| "acts_of (Confirm_Candidates pid inspector note fids) = REVIEW_ACTS"
| "acts_of (Process_Action Verify pid inspector) = [''START_VERIFICATION'']"
| "acts_of (Process_Action Complete pid inspector) = [''COMPLETE_VERIFICATION'']"
| "acts_of (Process_Action Finalize pid inspector) = [''FINALIZE'']"
| "acts_of (Unfinalize pid inspector why) = [''UNFINALIZE'']"
| "acts_of (Select_Revision pid file_id inspector note) = [''SELECT_REVISION'']"
| "acts_of _ = []"

definition api_ok :: "(string \<Rightarrow> audit_event \<Rightarrow> bool) \<Rightarrow> 's store_port \<Rightarrow> 's api \<Rightarrow> bool" where
  "api_ok A port s = session_ok A port (ap_ws s)"

lemma keeps_modp: "(\<And>s. I s \<Longrightarrow> I (f s)) \<Longrightarrow> keeps I (modp f)"
  by (simp add: keeps_def)

lemma keeps_in_ws: "keeps (session_ok A port) m \<Longrightarrow> keeps (api_ok A port) (in_ws m)"
  by (simp add: keeps_def in_ws_def api_ok_def split: prod.splits) (metis snd_conv)

lemma keeps_readp: "keeps I (readp f)"
  by (simp add: keeps_def)

lemma keeps_reply: "keeps I (reply code j)" and keeps_refuse: "keeps I (refuse code t)"
  and keeps_not_found: "keeps I not_found" and keeps_upload_error: "keeps I (upload_error code reason message)"
  and keeps_receipt: "keeps I (upload_receipt pid attached rejects)" and keeps_review_reply: "keeps I (review_reply f)"
  by (simp_all add: reply_def refuse_def not_found_def upload_error_def upload_receipt_def review_reply_def keeps_liftp)

lemmas keeps_answers = keeps_reply keeps_refuse keeps_not_found keeps_upload_error keeps_receipt keeps_review_reply keeps_liftp

lemma keeps_or_missing:
  assumes "keeps I m" and "\<And>x. keeps I (k x)"
  shows "keeps I (or_missing m k answer)"
proof (rule keepsI)
  fix s
  assume "I s"
  obtain r s' where "m s = (r, s')" by force
  with keepsD [OF assms(1) \<open>I s\<close>] keepsD [OF assms(2)] show "I (snd (or_missing m k answer s))"
    by (cases r) (auto simp: or_missing_def)
qed

context session_rules
begin

lemma work_keeps: "st_port (sv_settings sv) = port \<Longrightarrow> session_ok A port ws \<Longrightarrow> session_ok A port (work sv oc pid ws)"
  unfolding work_def by (rule keepsD [OF keeps_run_scheduled])

lemma runs_keep: "st_port (sv_settings sv) = port \<Longrightarrow> session_ok A port ws \<Longrightarrow> session_ok A port (fold (work sv oc) pids ws)"
  by (induction pids arbitrary: ws) (simp_all add: work_keeps)

lemma background_keeps: "st_port (sv_settings sv) = port \<Longrightarrow> api_ok A port s \<Longrightarrow> api_ok A port (background sv oc s)"
  by (simp add: background_def api_ok_def work_keeps split: list.splits)

lemma keeps_waits:
  assumes "st_port (sv_settings sv) = port"
  shows "keeps (api_ok A port) (wait_for sv oc pid)" and "keeps (api_ok A port) (wait_pipelines sv oc)"
  by (auto simp: wait_for_def wait_pipelines_def api_ok_def intro!: keeps_modp work_keeps [OF assms] runs_keep [OF assms])

lemma keeps_schedule: "keeps (api_ok A port) (schedule pid)"
  unfolding schedule_def by (intro keeps_modp) (simp add: api_ok_def)

lemma keeps_get_record:
  assumes "st_port (sv_settings sv) = port"
  shows "keeps (api_ok A port) (get_record sv oc pid)"
  unfolding get_record_def by (intro keeps_bindp keeps_waits keeps_in_ws keeps_get_process assms)

lemma keeps_record_for_access:
  assumes "st_port (sv_settings sv) = port"
  shows "keeps (api_ok A port) (record_for_access sv oc pid caller)"
  unfolding record_for_access_def
  by (intro keeps_bindp keeps_get_record assms) (auto intro!: keeps_bindp_lift keeps_liftp split: option.splits)

lemma keeps_on_process:
  assumes "st_port (sv_settings sv) = port"
    and "\<And>subject granted caller r. require sv op auth = Inr (subject, granted, caller) \<Longrightarrow> keeps (api_ok A port) (k subject granted r)"
  shows "keeps (api_ok A port) (on_process sv oc op auth pid k)"
  unfolding on_process_def
  by (rule keeps_bindp_lift) (auto intro!: keeps_bindp keeps_record_for_access assms keeps_not_found split: option.splits)

lemma keeps_decide:
  assumes "st_port (sv_settings sv) = port"
    and "\<And>granted caller r. require sv op auth = Inr (inspector, granted, caller) \<Longrightarrow>
      keeps (api_ok A port) (k (actor_from_roles inspector granted) r)"
  shows "keeps (api_ok A port) (decide_on_process sv oc op auth inspector pid k)"
  unfolding decide_on_process_def by_inspector_def guard_def
  by (rule keeps_bindp_lift) (auto intro!: keeps_bindp keeps_bindp_lift keeps_record_for_access assms keeps_not_found
      split: option.splits if_splits)

subsection \<open>Every handler\<close>

lemma keeps_link_prior: "keeps (session_ok A port) (link_prior pid prior successor)"
  unfolding link_prior_def by (auto intro!: keeps_liftp keeps_change_same split: option.splits)

lemma keeps_attach_each:
  assumes "st_port st = port"
  shows "keeps (session_ok A port) (attach_each st fresh pid stage prior bodies i cs)"
proof (induction cs arbitrary: i)
  case (Cons c cs)
  show ?case
    unfolding attach_each.simps assms
    by (intro keeps_bindp_lift keeps_bindp keeps_link_prior keeps_attach keeps_if keeps_keep_blob keeps_liftp Cons assms)
qed (simp add: keeps_liftp)

lemma keeps_attach_new:
  assumes "st_port st = port"
  shows "keeps (session_ok A port) (attach_new_files st fresh pid cs bodies stage supersedes)"
  unfolding attach_new_files_def Let_def by (intro keeps_the_record keeps_attach_each assms)

lemma keeps_store_upload:
  assumes "st_port (sv_settings sv) = port"
  shows "keeps (api_ok A port) (store_upload sv oc object_id stage replaced d bodies record)"
  unfolding store_upload_def Let_def
  by (auto intro!: keeps_bindp keeps_bindp_lift keeps_in_ws keeps_create keeps_attach_new keeps_note_phase keeps_schedule
      keeps_reopen keeps_answers assms split: option.splits)

lemma keeps_upload:
  assumes "st_port (sv_settings sv) = port"
  shows "keeps (api_ok A port) (upload_documents sv oc auth form)"
proof -
  have files: "keeps (api_ok A port) (receive_upload sv oc form object_id stage replaced found)" for object_id stage replaced found
    unfolding receive_upload_def Let_def
    by (auto intro!: keeps_answers keeps_store_upload assms split: prod.splits list.splits option.splits)
  show ?thesis
    unfolding upload_documents_def Let_def
    by (rule keeps_bindp_lift)
      (auto intro!: keeps_bindp keeps_bindp_lift keeps_get_record keeps_answers files assms split: option.splits)
qed

lemma keeps_catalog: "keeps (session_ok A port) (catalog_files pid fs)"
proof (induction fs)
  case (Cons f fs)
  show ?case unfolding catalog_files.simps by (intro keeps_bindp keeps_get_blob keeps_liftp Cons)
qed (simp only: catalog_files.simps keeps_liftp)

lemma keeps_protocol:
  assumes "st_port (sv_settings sv) = port"
  shows "keeps (api_ok A port) (get_protocol sv oc auth pid v)"
  unfolding get_protocol_def Let_def
  by (rule keeps_on_process [OF assms])
    (auto intro!: keeps_bindp keeps_bindp_lift keeps_in_ws keeps_readp keeps_note_phase keeps_answers split: option.splits)

lemma keeps_diff:
  assumes "st_port (sv_settings sv) = port"
  shows "keeps (api_ok A port) (get_revision_diff sv oc auth pid file_id)"
  unfolding get_revision_diff_def Let_def
  by (rule keeps_on_process [OF assms]) (auto intro!: keeps_answers split: option.splits sum.splits json.splits)

lemma keeps_api_review:
  assumes "st_port (sv_settings sv) = port"
    and "\<And>subject granted caller. require sv ''reviewFinding'' auth = Inr (subject, granted, caller) \<Longrightarrow> may A REVIEW_ACTS subject"
  shows "keeps (api_ok A port) (api_review sv oc auth fid q)"
proof -
  have "may A REVIEW_ACTS (actor_id (actor_from_roles subject granted))"
    if "require sv ''reviewFinding'' auth = Inr (subject, granted, caller)" for subject granted caller
    using assms(2) [OF that] by (simp add: actor_from_roles_def)
  then show ?thesis
    unfolding api_review_def by_inspector_def
    by - (rule keeps_bindp_lift, auto intro!: keeps_bindp keeps_bindp_lift keeps_waits keeps_in_ws keeps_readp
        keeps_review keeps_answers keeps_the_record assms(1) simp: the_record_def split: option.splits)
qed

lemma keeps_status_reply: "keeps (api_ok A port) (status_reply pid)"
  unfolding status_reply_def the_record_def by (intro keeps_bindp keeps_bindp_lift keeps_in_ws keeps_readp keeps_reply)

lemma keeps_act_on:
  assumes "st_port (sv_settings sv) = port" and "0 \<le> oc_seconds oc"
    and "may A (acts_of (Process_Action a pid (actor_id who))) (actor_id who)"
  shows "keeps (session_ok A port) (act_on sv oc a pid who)"
proof (cases a)
  case Verify
  with assms(3) keeps_begin [OF assms(3)] show ?thesis by (simp add: start_process_verification_def assms(1))
next
  case Complete
  with assms(3) show ?thesis by (simp add: keeps_complete [OF assms(1)])
next
  case Finalize
  with assms(3) show ?thesis by (simp add: keeps_finalize [OF assms(1,2)])
qed

lemma handler_keeps:
  assumes port: "st_port (sv_settings sv) = port" and "0 \<le> oc_seconds oc"
    and grants: "\<And>subject granted caller. require sv (operation_of q) auth = Inr (subject, granted, caller) \<Longrightarrow> may A (acts_of q) subject"
  shows "keeps (api_ok A port) (handler sv oc auth q)"
proof -
  have who: "actor_id (actor_from_roles subject granted) = subject" for subject granted by (simp add: actor_from_roles_def)
  note basic = keeps_bindp keeps_bindp_lift keeps_in_ws keeps_answers keeps_status_reply
  show ?thesis
  proof (cases q)
    case Get_Capabilities
    show ?thesis unfolding Get_Capabilities handler.simps system_capabilities_def by (intro basic)
  next
    case (Upload form)
    then show ?thesis by (simp add: keeps_upload [OF port])
  next
    case (Get_Status pid)
    show ?thesis unfolding Get_Status handler.simps get_status_def by (intro keeps_on_process [OF port] basic)
  next
    case (Get_Documents pid)
    show ?thesis unfolding Get_Documents handler.simps get_documents_def by (intro keeps_on_process [OF port] basic keeps_catalog)
  next
    case (List_Findings pid)
    show ?thesis unfolding List_Findings handler.simps list_findings_def by (intro keeps_on_process [OF port] basic)
  next
    case (Get_Protocol pid v)
    then show ?thesis by (simp add: keeps_protocol [OF port])
  next
    case (Get_Audit pid)
    show ?thesis unfolding Get_Audit handler.simps get_audit_def by (intro keeps_on_process [OF port] basic)
  next
    case (Get_Revision_Diff pid file_id)
    then show ?thesis by (simp add: keeps_diff [OF port])
  next
    case (Record_Ui_Event pid e)
    have "A p (subject, ue_action e, x)" if "require sv ''recordUiEvent'' auth = Inr (subject, granted, caller)" "ue_action e \<in> set UI_ACTIONS"
      for p subject granted caller x
      using mayD [of A UI_ACTIONS subject] grants [of subject] that unfolding Record_Ui_Event by simp
    then show ?thesis unfolding Record_Ui_Event handler.simps record_ui_event_def port
      by (intro keeps_on_process [OF port] keeps_if basic keeps_record_audit) auto
  next
    case (Review_Finding fid rq)
    with grants show ?thesis by (simp add: keeps_api_review [OF port])
  next
    case (Confirm_Candidates pid inspector remark fids)
    with grants show ?thesis unfolding Confirm_Candidates handler.simps api_confirm_def
      by (intro keeps_decide [OF port] keeps_or_missing keeps_in_ws keeps_confirm [OF port] keeps_reply) (simp add: who)
  next
    case (Process_Action a pid inspector)
    with grants show ?thesis unfolding Process_Action handler.simps human_process_action_def
      by (intro keeps_decide [OF port] basic keeps_act_on [OF port assms(2)]) (simp add: who)
  next
    case (Unfinalize pid inspector why)
    with grants show ?thesis unfolding Unfinalize handler.simps api_unfinalize_def
      by (intro keeps_decide [OF port] basic keeps_unfinalize [OF port]) (simp add: who)
  next
    case (Select_Revision pid file_id inspector remark)
    with grants show ?thesis unfolding Select_Revision handler.simps api_select_revision_def
      by (intro keeps_decide [OF port] keeps_or_missing basic keeps_select_revision [OF port]) (simp add: who)
  next
    case (Sync_Inspection pid)
    show ?thesis unfolding Sync_Inspection handler.simps sync_inspection_def the_record_def
      by (intro keeps_on_process [OF port] basic keeps_request_sync [OF port] keeps_readp)
  qed
qed

lemma serve_keeps:
  assumes "st_port (sv_settings sv) = port" and "0 \<le> oc_seconds oc"
    and "\<And>subject granted caller. require sv (operation_of q) auth = Inr (subject, granted, caller) \<Longrightarrow> may A (acts_of q) subject"
    and "api_ok A port s"
  shows "api_ok A port (snd (serve sv oc auth q s))"
proof -
  have "keeps (api_ok A port) (handler sv oc auth q)" by (rule handler_keeps [OF assms(1-3)])
  from keepsD [OF this assms(4)] assms(4) show ?thesis
    by (auto simp: serve_def respond_def split: prod.splits sum.splits)
qed

end

context session_rules
begin

lemma api_run_keeps:
  assumes "api_run SV s0 s" and "\<And>sv. sv \<in> SV \<Longrightarrow> st_port (sv_settings sv) = port" and "known port s0 = {}"
    and "\<And>sv q auth subject granted caller. sv \<in> SV \<Longrightarrow> require sv (operation_of q) auth = Inr (subject, granted, caller) \<Longrightarrow>
      may A (acts_of q) subject"
  shows "api_ok A port s"
  using assms(1)
proof induction
  case (api_start objects)
  then show ?case by (simp add: api_ok_def session_ok_def assms(3))
next
  case (api_request s sv oc auth q)
  from serve_keeps [OF assms(2) [OF api_request(2)] api_request(3) assms(4) [OF api_request(2)] api_request.IH]
  show ?case .
next
  case (api_worker s sv oc)
  from background_keeps [OF assms(2) [OF api_worker(2)] api_worker.IH] show ?case .
qed

end

subsection \<open>Nobody signs for another\<close>

text \<open>What may be in a journal after a request: what was there, what the machine says of its runs, what the subject did.\<close>

definition served_entry :: "('s, 'p) server \<Rightarrow> string option \<Rightarrow> request \<Rightarrow> 's api \<Rightarrow> string \<Rightarrow> audit_event \<Rightarrow> bool" where
  "served_entry sv auth q s pid = (\<lambda>(who, act, payload).
     (\<exists>r. dict_get (ws_items (ap_ws s)) pid = Some r \<and> (who, act, payload) \<in> set (pr_journal r)) \<or>
     (who = ''system'' \<and> act \<in> set MACHINE_ACTS) \<or>
     (\<exists>granted caller. require sv (operation_of q) auth = Inr (who, granted, caller) \<and> act \<in> set (acts_of q)))"

interpretation served: session_rules "postgres_port sha" "served_entry sv auth q s"
  for sha sv auth q s
  by unfold_locales (simp add: may_def served_entry_def)

lemma pg_api_ok:
  assumes "api_run SV empty_database s" and "\<forall>sv \<in> SV. st_port (sv_settings sv) = postgres_port sha"
  shows "api_ok anybody (postgres_port sha) s"
  using assms(2) by (intro postgres_session.api_run_keeps [OF assms(1) _ postgres_starts_empty]) simp_all

lemma session_ok_weaken:
  assumes "session_ok A port ws" and "\<And>pid r e. dict_get (ws_items ws) pid = Some r \<Longrightarrow> e \<in> set (pr_journal r) \<Longrightarrow> B pid e"
  shows "session_ok B port ws"
  using assms unfolding session_ok_def record_ok_def by blast

text \<open>
  C3. Nobody signs for another: whatever request is served, in any state of the service, every entry it adds to a journal
  is either the machine's, and then it only reports a run, or in the name of the subject of the accepted token, and then it
  is one of the acts of that very request. So a review, a finalisation or a selection is journalled under no other name.
\<close>

theorem nobody_signs_for_another:
  assumes "api_run SV empty_database s" and "\<forall>sv \<in> SV. st_port (sv_settings sv) = postgres_port sha" and "sv \<in> SV"
    and "0 \<le> oc_seconds oc"
    and "dict_get (ws_items (ap_ws (snd (serve sv oc auth q s)))) pid = Some r" and "(who, act, payload) \<in> set (pr_journal r)"
  shows "(\<exists>r0. dict_get (ws_items (ap_ws s)) pid = Some r0 \<and> (who, act, payload) \<in> set (pr_journal r0)) \<or>
     (who = ''system'' \<and> act \<in> {''PIPELINE'', ''PIPELINE_FAILED''}) \<or>
     (\<exists>granted caller. require sv (operation_of q) auth = Inr (who, granted, caller) \<and> act \<in> set (acts_of q))"
proof -
  have "session_ok (served_entry sv auth q s) (postgres_port sha) (ap_ws s)"
    by (rule session_ok_weaken [OF pg_api_ok [OF assms(1,2), unfolded api_ok_def]]) (auto simp: served_entry_def)
  then have "api_ok (served_entry sv auth q s) (postgres_port sha) (snd (serve sv oc auth q s))"
    using assms(2-4) by (intro served.serve_keeps) (auto simp: api_ok_def may_def served_entry_def)
  then have "record_ok (served_entry sv auth q s) pid r" using session_ok_record assms(5) by (auto simp: api_ok_def)
  then show ?thesis using assms(6) by (auto simp: record_ok_def served_entry_def MACHINE_ACTS_def)
qed

subsection \<open>A verdict is the act of an authenticated decider\<close>

definition accepted_for :: "('s, 'p) server set \<Rightarrow> string list \<Rightarrow> string \<Rightarrow> bool" where
  "accepted_for SV ops who = (\<exists>sv \<in> SV. \<exists>auth granted caller. \<exists>op \<in> set ops. require sv op auth = Inr (who, granted, caller))"

definition REVIEW_OPERATIONS :: "string list" where
  "REVIEW_OPERATIONS = [''reviewFinding'', ''confirmCandidates'']"

definition authentic :: "('s, 'p) server set \<Rightarrow> string \<Rightarrow> audit_event \<Rightarrow> bool" where
  "authentic SV pid = (\<lambda>(who, act, payload).
     (act = ''REVIEW'' \<longrightarrow> accepted_for SV REVIEW_OPERATIONS who) \<and>
     (act = ''FINALIZE'' \<longrightarrow> accepted_for SV [''finalizeProtocol''] who))"

interpretation authentic_run: session_rules "postgres_port sha" "authentic SV"
  for sha SV
  by unfold_locales (simp add: may_def authentic_def MACHINE_ACTS_def)

lemma acts_of_request:
  "''REVIEW'' \<in> set (acts_of q) \<Longrightarrow> operation_of q \<in> set REVIEW_OPERATIONS"
  "''FINALIZE'' \<in> set (acts_of q) \<Longrightarrow> operation_of q = ''finalizeProtocol''"
  by (induction q rule: acts_of.induct) (simp_all add: UI_ACTIONS_def REVIEW_ACTS_def REVIEW_OPERATIONS_def)

lemma granted_is_authentic:
  assumes "sv \<in> SV" and "require sv (operation_of q) auth = Inr (subject, granted, caller)"
  shows "may (authentic SV) (acts_of q) subject"
  using assms acts_of_request [of q] unfolding may_def authentic_def accepted_for_def by fastforce

text \<open>
  C1. A verdict is the act of an authenticated decider, end to end: in whatever state the service gets into, by whatever
  requests of whomever in whatever order, every confirmed or rejected finding of every process carries the decision of an
  inspector whose token was accepted for reviewing, and every finalised process names one whose token was accepted for
  finalising.
\<close>

theorem verdicts_are_of_authenticated_deciders:
  assumes "api_run SV empty_database s" and "\<forall>sv \<in> SV. st_port (sv_settings sv) = postgres_port sha"
    and "dict_get (ws_items (ap_ws s)) pid = Some r"
  shows "(\<forall>f \<in> set (dict_values (pr_findings r)). finding_status f \<in> {CONFIRMED_VIOLATION, NEGATIVE_VERIFIED} \<longrightarrow>
      (\<exists>d. inspector_decision f = Some d \<and> accepted_for SV [''reviewFinding'', ''confirmCandidates''] (inspector_id d))) \<and>
    (pr_state r = FINALIZED \<longrightarrow> (\<exists>who. pr_finalized_by r = Some who \<and> accepted_for SV [''finalizeProtocol''] who))"
proof -
  have "api_ok (authentic SV) (postgres_port sha) s"
    using assms(2) by (intro authentic_run.api_run_keeps [OF assms(1) _ postgres_starts_empty]) (simp_all add: granted_is_authentic)
  then have ok: "record_ok (authentic SV) pid r" using session_ok_record assms(3) by (auto simp: api_ok_def)
  then have entry: "authentic SV pid e" if "e \<in> set (pr_journal r)" for e using that by (simp add: record_ok_def)
  have "\<exists>d. inspector_decision f = Some d \<and> accepted_for SV REVIEW_OPERATIONS (inspector_id d)"
    if f: "f \<in> set (dict_values (pr_findings r))" "finding_status f \<in> {CONFIRMED_VIOLATION, NEGATIVE_VERIFIED}" for f
  proof -
    obtain d p where "inspector_decision f = Some d" "(inspector_id d, ''REVIEW'', p) \<in> set (pr_journal r)"
      using ok f unfolding record_ok_def finding_ok_def verdict_ok_def HUMAN_ONLY_STATUSES_def by fastforce
    with entry show ?thesis by (fastforce simp: authentic_def)
  qed
  moreover have "\<exists>who. pr_finalized_by r = Some who \<and> accepted_for SV [''finalizeProtocol''] who" if fin: "pr_state r = FINALIZED"
  proof -
    obtain who p where "pr_finalized_by r = Some who" "(who, ''FINALIZE'', p) \<in> set (pr_journal r)"
      using ok fin by (auto simp: record_ok_def)
    with entry show ?thesis by (fastforce simp: authentic_def)
  qed
  ultimately show ?thesis by (simp add: REVIEW_OPERATIONS_def)
qed

subsection \<open>The service at work\<close>

lemma demo_ports: "\<forall>sv \<in> {demo_server}. st_port (sv_settings sv) = postgres_port (\<lambda>_. ''d'')"
  by (simp add: demo_port_def)

theorem verdicts_are_of_authenticated_deciders_witness:
  "\<exists>s d. api_run {demo_server} empty_database s \<and> dict_get (ws_items (ap_ws s)) ''p'' = Some demo_decided \<and>
     inspector_decision demo_verdict = Some d \<and> accepted_for {demo_server} [''reviewFinding'', ''confirmCandidates''] (inspector_id d)"
proof -
  obtain s ob where run: "api_run {demo_server} empty_database \<lparr>ap_ws = solo demo_decided s ob, ap_queue = []\<rparr>"
    using demo_run_decides by blast
  have "dict_get (ws_items (ap_ws \<lparr>ap_ws = solo demo_decided s ob, ap_queue = []\<rparr>)) ''p'' = Some demo_decided" by simp
  from conjunct1 [OF verdicts_are_of_authenticated_deciders [OF run demo_ports this]] demo_verdict_fields run this show ?thesis
    by (intro exI [of _ "\<lparr>ap_ws = solo demo_decided s ob, ap_queue = []\<rparr>"]) (simp add: demo_decided_def)
qed

theorem nobody_signs_for_another_witness:
  "\<exists>s granted caller. api_run {demo_server} empty_database s \<and>
     require demo_server ''reviewFinding'' demo_token = Inr (''insp'', granted, caller) \<and>
     (''insp'', ''START_VERIFICATION'', from_to READY VERIFYING) \<in> set (pr_journal demo_decided)"
proof -
  let ?e = "(''insp'', ''START_VERIFICATION'', from_to READY VERIFYING)"
  obtain s ob where run: "api_run {demo_server} empty_database \<lparr>ap_ws = solo demo_ran s ob, ap_queue = []\<rparr>"
    using demo_run_reaches by blast
  obtain answer s' where v: "serve demo_server demo_occasion demo_token demo_review \<lparr>ap_ws = solo demo_ran s ob, ap_queue = []\<rparr> =
      (answer, \<lparr>ap_ws = solo demo_decided s' ob, ap_queue = []\<rparr>)" using review_served by blast
  have r: "dict_get (ws_items (ap_ws (snd (serve demo_server demo_occasion demo_token demo_review
      \<lparr>ap_ws = solo demo_ran s ob, ap_queue = []\<rparr>)))) ''p'' = Some demo_decided" by (simp add: v)
  have e: "?e \<in> set (pr_journal demo_decided)" by (simp add: demo_decided_def)
  have "?e \<notin> set (pr_journal demo_ran)" by (simp add: demo_ran_def)
  with nobody_signs_for_another [OF run demo_ports _ _ r e] run e show ?thesis
    by (auto simp: demo_review_def)
qed

theorem strangers_change_nothing_witness:
  "serve demo_server demo_occasion None (Get_Status ''p'') demo_start = (fst (serve demo_server demo_occasion None (Get_Status ''p'') demo_start), demo_start)"
proof -
  have "require demo_server (operation_of (Get_Status ''p'')) None = Inl (Exc AuthenticationRequiredError ''authentication required'' [])"
    by (simp add: require_def parse_bearer_def bearer_token_def auth_required_def)
  from strangers_change_nothing [OF this, of demo_occasion demo_start] show ?thesis by (metis prod.collapse)
qed


end
