(* ===== verification/Spec2Isabelle.thy ===== *)
theory Spec2Isabelle
  imports State_Machines Models Scenarios Retry_Policy Cascade Capabilities Comparators Review Protocol
    Finding_Rows Process_Store Postgres_Store Outbox Sync_Relay Inbox
    Revision_Diff Intake Process_Pipeline Runtime Finalisation Pipeline_Worker
    Program_Logic Sessions Http_Auth Document_Catalog Http_Api Api_Demo Api_Safety
begin

text \<open>
  Verification development for Kontur (src/backend/src/kontur), a service that compares the stages of a
  construction project (project PD, working RD and as-built ID documentation) and prepares a protocol a
  human inspector signs. The machine may only propose; a verdict, and the protocol that carries it to the
  external system RiN, belong to the inspector. Most of the theorems say how that holds through the whole
  program: from the tables of states down to the rows of the database and the messages of the broker.

  THE PARTS. A package of files is uploaded (intake), a worker thread runs the matrix of rules over it
  (pipeline worker, process pipeline), the findings it makes are reviewed by the inspector (review), the
  process is finalised into a protocol (workspace, protocol), which is archived in a store (process store)
  and carried to RiN through a transactional outbox (outbox relay, sync relay); answers come back through
  an inbox. One theory models one part:

    Prelude, Py\_Text, Json   results and exceptions as sums, programs that keep their state on an exception,
                              Python's strings, dictionaries and JSON values
    Statuses, State\_Machines   domain/statuses.py, domain/state\_machines.py
    Models                    domain/models.py, domain/geometry.py, domain/idempotency.py
    Scenarios                 application/scenarios.py, domain/status\_map.py
    Retry\_Policy, Cascade, Capabilities   application/retry\_policy.py, application/pipeline.py, domain/capabilities.py
    Normalize, Comparators    application/normalize.py (numbers), application/comparators.py
    File\_Names, Blank\_Components, Revision\_Resolver   application/revision\_resolver.py
    Revision\_Diff             application/revision\_diff.py
    Review                    application/review.py, the audit port of domain/ports.py
    Protocol                  application/protocol.py, application/completeness\_catalog.py
    Finding\_Rows, Process\_Store, Postgres\_Store   infrastructure/db/process\_store.py, audit\_store.py, schema.sql
    Outbox, Sync\_Relay, Inbox   infrastructure/outbox.py, outbox\_worker.py, rin\_client.py, sync\_relay.py,
                              inbox.py, inbox\_worker.py
    Intake                    application/intake.py, infrastructure/clamd.py, presentation/upload\_limits.py
    Process\_Pipeline          application/process\_pipeline.py, application/archive\_expand.py
    Runtime, Finalisation     application/runtime.py, infrastructure/object\_store.py
    Program\_Logic, Sessions   an invariant of the workspace over any sequence of its operations
    Pipeline\_Worker           application/pipeline\_worker.py
    Http\_Auth                 presentation/auth.py, presentation/rbac.py, infrastructure/access\_control.py
    Document\_Catalog          application/document\_catalog.py
    Http\_Api                  presentation/api.py: the routes that read and change processes
    Api\_Demo, Api\_Safety      a run of the service on concrete input; what requests can and cannot do

  HOW THE CODE IS MODELLED. A dataclass is a record, an enumeration a datatype with its wire names, an
  exception a value \<open>Inl (Exc class text values)\<close> whose text is fixed and whose interpolated values are kept.
  A method that changes state is a program \<open>'s \<Rightarrow> 'a result \<times> 's\<close>: the state an exception leaves is part of
  the result. A dictionary is an association list in insertion order, a set whose order the code can see is
  given with an argument for that order. Clocks, digests, fresh ids, environment variables, broker, network,
  antivirus daemon, the readers of documents and the rules of the matrix are arguments. Floats are rationals
  where only comparison and decimal notation matter; instants are seconds.

  INTERFACES. The locale \<open>keyed_store\<close> (Prelude) is the law of a keyed write; \<open>audit_log\<close> (Review) is what the
  review needs of a journal; \<open>protocol_archive\<close> (Process\_Store) is what the program relies on in a store of
  protocols, interpreted by the memory store and by PostgreSQL; \<open>process_store\<close> (Finalisation) extends it with
  the journal and the row of the process, gives the \<open>audit_log\<close> of a workspace by a sublocale, and is
  interpreted by both stores again; \<open>row_store\<close> (Sessions) is what a session needs of the rows of a store,
  interpreted by both as well. The properties rest on the facts of these interpretations.

  WHAT THE LEMMAS SHOW. State machines: reachability under machine moves, human verdicts are final. Review and
  Protocol: what every action changes; the outgoing filter is exact and fail-closed. Stores: invariants of the
  archive over any sequence of submissions, agreement of the two stores, round trips of rows. Relay and inbox:
  exactly-once effects, bounded attempts, draining. Pipeline and intake: every file is accounted for, nothing
  unchecked is accepted. Workspace: finalising is one step over memory and database, and in every
  state a session of operations reaches the findings are well formed and the verdicts signed and journalled.
  Authentication and interface: who gets in, with which rights; whatever is asked of the service in whatever order,
  verdicts are of authenticated deciders and nobody signs for another. Worker: invariants over all
  interleavings, no lost and no repeated run.

  BOUNDS. \<open>build_pages\<close> terminates by a measure that counts an archive as 42 (it holds at most 40 documents and
  archives inside archives are not expanded). The decimal expansion of a number stops after 400 places,
  more than a double has. Everything else is structural recursion.

  NOT MODELLED. Reading of drawings (evaluate.py, extractors, passport, room\_compare: regular expressions and
  geometry over recognised text), OCR and PDF engines, the downloads of the HTTP
  interface (DOCX, PDF, XML, PNG), the command line and the offline evaluation tools, the clients of S3, RabbitMQ and Redis. Encodings are left out: a body is the JSON
  value it decodes to, a file name's CP1251 mojibake repair is not modelled.
\<close>

end
